theory Spec2Isabelle
  imports Complex_Main
begin

section \<open>miniWeather (serial): constants\<close>

text \<open>
  The model follows \<^verbatim>\<open>miniWeather_serial.cpp\<close>. A \<^verbatim>\<open>double\<close> is a real number: the
  arithmetic is exact, so rounding, infinities and NaN are not part of the model. The one
  quotient whose divisor a caller sets directly, the hyper-viscosity coefficient's
  \<^verbatim>\<open>16*dt\<close>, fails explicitly when the divisor is zero (see \<open>hv_coef\<close> below).
\<close>

definition pi_c :: real where "pi_c = 314159265358979323846264338327 / 10 ^ 29"
definition grav :: real where "grav = 98 / 10"
definition cp :: real where "cp = 1004"
definition cv :: real where "cv = 717"
definition rd :: real where "rd = 287"
definition p0 :: real where "p0 = 100000"
definition C0 :: real where "C0 = 275629410929725921310572974482 / 10 ^ 28"
definition gamm :: real where "gamm = 140027894002789400278940027894 / 10 ^ 29"

definition xlen :: real where "xlen = 20000"
definition zlen :: real where "zlen = 10000"
definition hv_beta :: real where "hv_beta = 5 / 100"
definition cfl :: real where "cfl = 3 / 2"
definition max_speed :: real where "max_speed = 450"
definition hs :: nat where "hs = 2"
definition sten_size :: nat where "sten_size = 4"

definition NUM_VARS :: nat where "NUM_VARS = 4"
definition ID_DENS :: nat where "ID_DENS = 0"
definition ID_UMOM :: nat where "ID_UMOM = 1"
definition ID_WMOM :: nat where "ID_WMOM = 2"
definition ID_RHOT :: nat where "ID_RHOT = 3"

definition DIR_X :: int where "DIR_X = 1"
definition DIR_Z :: int where "DIR_Z = 2"

definition DATA_SPEC_COLLISION :: int where "DATA_SPEC_COLLISION = 1"
definition DATA_SPEC_THERMAL :: int where "DATA_SPEC_THERMAL = 2"
definition DATA_SPEC_GRAVITY_WAVES :: int where "DATA_SPEC_GRAVITY_WAVES = 3"
definition DATA_SPEC_DENSITY_CURRENT :: int where "DATA_SPEC_DENSITY_CURRENT = 5"
definition DATA_SPEC_INJECTION :: int where "DATA_SPEC_INJECTION = 6"

definition nqpoints :: nat where "nqpoints = 3"

definition qpoints :: "nat \<Rightarrow> real" where
  "qpoints q = [112701665379258311482073460022 / 10 ^ 30, 1 / 2,
                887298334620741688517926539980 / 10 ^ 30] ! q"

definition qweights :: "nat \<Rightarrow> real" where
  "qweights q = [277777777777777777777777777779 / 10 ^ 30,
                 444444444444444444444444444444 / 10 ^ 30,
                 277777777777777777777777777779 / 10 ^ 30] ! q"

section \<open>Globals and memory\<close>

text \<open>
  \<open>env\<close> holds the build-time parameters (the macros \<^verbatim>\<open>_NX\<close>, \<^verbatim>\<open>_NZ\<close>,
  \<^verbatim>\<open>_SIM_TIME\<close>, \<^verbatim>\<open>_OUT_FREQ\<close>, \<^verbatim>\<open>_DATA_SPEC\<close>, which the sources leave to the
  build) and the globals that stay fixed once \<^verbatim>\<open>init\<close> has run.
\<close>

record env =
  nx_glob :: nat
  nz_glob :: nat
  sim_time :: real
  output_freq :: real
  data_spec_int :: int
  nx :: nat
  nz :: nat
  i_beg :: nat
  k_beg :: nat
  myrank :: nat
  hy_dens_cell :: "nat \<Rightarrow> real"
  hy_dens_theta_cell :: "nat \<Rightarrow> real"
  hy_dens_int :: "nat \<Rightarrow> real"
  hy_dens_theta_int :: "nat \<Rightarrow> real"
  hy_pressure_int :: "nat \<Rightarrow> real"

definition dx :: "env \<Rightarrow> real" where "dx e = xlen / real (nx_glob e)"
definition dz :: "env \<Rightarrow> real" where "dz e = zlen / real (nz_glob e)"

text \<open>
  The arrays the kernels receive as \<^verbatim>\<open>double *\<close> live in one store: an address is the
  array a pointer points to together with an offset. Two pointer arguments alias exactly
  when they name the same buffer. \<open>Third\<close> is an allocation the program itself never
  makes; it stands for "a distinct buffer" where aliased and alias-free calls are compared.
\<close>

datatype buffer = State | State_tmp | Flux | Tend | Third

type_synonym heap = "buffer \<times> nat \<Rightarrow> real"

text \<open>The three index computations the source writes out at every access.\<close>

definition sidx :: "env \<Rightarrow> nat \<Rightarrow> nat \<Rightarrow> nat \<Rightarrow> nat" where
  "sidx e ll k i = ll * (nz e + 2 * hs) * (nx e + 2 * hs) + k * (nx e + 2 * hs) + i"

definition fidx :: "env \<Rightarrow> nat \<Rightarrow> nat \<Rightarrow> nat \<Rightarrow> nat" where
  "fidx e ll k i = ll * (nz e + 1) * (nx e + 1) + k * (nx e + 1) + i"

definition tidx :: "env \<Rightarrow> nat \<Rightarrow> nat \<Rightarrow> nat \<Rightarrow> nat" where
  "tidx e ll k i = ll * nz e * nx e + k * nx e + i"

section \<open>Halo routines\<close>

definition halo_x_body :: "env \<Rightarrow> buffer \<Rightarrow> nat \<Rightarrow> nat \<Rightarrow> heap \<Rightarrow> heap" where
  "halo_x_body e p ll k h =
    (let h = h((p, sidx e ll (k + hs) 0) := h (p, sidx e ll (k + hs) (nx e + hs - 2)));
         h = h((p, sidx e ll (k + hs) 1) := h (p, sidx e ll (k + hs) (nx e + hs - 1)));
         h = h((p, sidx e ll (k + hs) (nx e + hs)) := h (p, sidx e ll (k + hs) hs));
         h = h((p, sidx e ll (k + hs) (nx e + hs + 1)) := h (p, sidx e ll (k + hs) (hs + 1)))
     in h)"

definition injection_body :: "env \<Rightarrow> buffer \<Rightarrow> nat \<Rightarrow> nat \<Rightarrow> heap \<Rightarrow> heap" where
  "injection_body e p k i h =
    (let z = (real (k_beg e + k) + 1 / 2) * dz e in
     if \<bar>z - 3 * zlen / 4\<bar> \<le> zlen / 16 then
       (let ind_r = sidx e ID_DENS (k + hs) i;
            ind_u = sidx e ID_UMOM (k + hs) i;
            ind_t = sidx e ID_RHOT (k + hs) i;
            h = h((p, ind_u) := (h (p, ind_r) + hy_dens_cell e (k + hs)) * 50);
            h = h((p, ind_t) := (h (p, ind_r) + hy_dens_cell e (k + hs)) * 298
                                  - hy_dens_theta_cell e (k + hs))
        in h)
     else h)"

definition halo_x_loop :: "env \<Rightarrow> buffer \<Rightarrow> heap \<Rightarrow> heap" where
  "halo_x_loop e p h = fold (\<lambda>ll. fold (halo_x_body e p ll) [0..<nz e]) [0..<NUM_VARS] h"

definition injection_loop :: "env \<Rightarrow> buffer \<Rightarrow> heap \<Rightarrow> heap" where
  "injection_loop e p h = fold (\<lambda>k. fold (injection_body e p k) [0..<hs]) [0..<nz e] h"

definition set_halo_values_x :: "env \<Rightarrow> buffer \<Rightarrow> heap \<Rightarrow> heap" where
  "set_halo_values_x e p h =
    (let h = halo_x_loop e p h
     in if data_spec_int e = DATA_SPEC_INJECTION then
          (if myrank e = 0 then injection_loop e p h else h)
        else h)"

definition halo_z_body :: "env \<Rightarrow> buffer \<Rightarrow> nat \<Rightarrow> nat \<Rightarrow> heap \<Rightarrow> heap" where
  "halo_z_body e p ll i h =
    (if ll = ID_WMOM then
       (let h = h((p, sidx e ll 0 i) := 0);
            h = h((p, sidx e ll 1 i) := 0);
            h = h((p, sidx e ll (nz e + hs) i) := 0);
            h = h((p, sidx e ll (nz e + hs + 1) i) := 0)
        in h)
     else if ll = ID_UMOM then
       (let h = h((p, sidx e ll 0 i) :=
                    h (p, sidx e ll hs i) / hy_dens_cell e hs * hy_dens_cell e 0);
            h = h((p, sidx e ll 1 i) :=
                    h (p, sidx e ll hs i) / hy_dens_cell e hs * hy_dens_cell e 1);
            h = h((p, sidx e ll (nz e + hs) i) :=
                    h (p, sidx e ll (nz e + hs - 1) i) / hy_dens_cell e (nz e + hs - 1)
                      * hy_dens_cell e (nz e + hs));
            h = h((p, sidx e ll (nz e + hs + 1) i) :=
                    h (p, sidx e ll (nz e + hs - 1) i) / hy_dens_cell e (nz e + hs - 1)
                      * hy_dens_cell e (nz e + hs + 1))
        in h)
     else
       (let h = h((p, sidx e ll 0 i) := h (p, sidx e ll hs i));
            h = h((p, sidx e ll 1 i) := h (p, sidx e ll hs i));
            h = h((p, sidx e ll (nz e + hs) i) := h (p, sidx e ll (nz e + hs - 1) i));
            h = h((p, sidx e ll (nz e + hs + 1) i) := h (p, sidx e ll (nz e + hs - 1) i))
        in h))"

definition set_halo_values_z :: "env \<Rightarrow> buffer \<Rightarrow> heap \<Rightarrow> heap" where
  "set_halo_values_z e p h =
     fold (\<lambda>ll. fold (halo_z_body e p ll) [0..<nx e + 2 * hs]) [0..<NUM_VARS] h"

section \<open>Flux and tendency kernels\<close>

datatype error = Division_by_zero

text \<open>
  \<^verbatim>\<open>hv_coef = -hv_beta * dx / (16*dt)\<close>. With \<^verbatim>\<open>dt = 0\<close> the C quotient is infinite and
  every flux formed from it is infinite or NaN; the model reports the division instead of
  returning HOL's \<open>x / 0 = 0\<close>.
\<close>

definition hv_coef :: "real \<Rightarrow> real \<Rightarrow> error + real" where
  "hv_coef delta dt =
     (if 16 * dt = 0 then Inl Division_by_zero else Inr (- hv_beta * delta / (16 * dt)))"

text \<open>
  One iteration of a flux loop first reads the stencil and computes the local variables
  (\<open>flux_x_cell\<close>: the four flux components as a function of the contents \<open>S\<close> of the
  state array), then stores the four components.
\<close>

definition flux_x_cell :: "env \<Rightarrow> real \<Rightarrow> (nat \<Rightarrow> real) \<Rightarrow> nat \<Rightarrow> nat \<Rightarrow> nat \<Rightarrow> real" where
  "flux_x_cell e hv S k i =
    (let stencil = (\<lambda>ll s. S (sidx e ll (k + hs) (i + s)));
         vals = (\<lambda>ll. - stencil ll 0 / 12 + 7 * stencil ll 1 / 12
                        + 7 * stencil ll 2 / 12 - stencil ll 3 / 12);
         d3_vals = (\<lambda>ll. - stencil ll 0 + 3 * stencil ll 1 - 3 * stencil ll 2 + stencil ll 3);
         r = vals ID_DENS + hy_dens_cell e (k + hs);
         u = vals ID_UMOM / r;
         w = vals ID_WMOM / r;
         t = (vals ID_RHOT + hy_dens_theta_cell e (k + hs)) / r;
         p = C0 * (r * t) powr gamm
     in (\<lambda>ll. if ll = ID_DENS then r * u - hv * d3_vals ID_DENS
              else if ll = ID_UMOM then r * u * u + p - hv * d3_vals ID_UMOM
              else if ll = ID_WMOM then r * u * w - hv * d3_vals ID_WMOM
              else r * u * t - hv * d3_vals ID_RHOT))"

definition flux_x_body :: "env \<Rightarrow> buffer \<Rightarrow> buffer \<Rightarrow> real \<Rightarrow> nat \<Rightarrow> nat \<Rightarrow> heap \<Rightarrow> heap" where
  "flux_x_body e st fl hv k i h =
    (let f = flux_x_cell e hv (\<lambda>x. h (st, x)) k i;
         h = h((fl, fidx e ID_DENS k i) := f ID_DENS);
         h = h((fl, fidx e ID_UMOM k i) := f ID_UMOM);
         h = h((fl, fidx e ID_WMOM k i) := f ID_WMOM);
         h = h((fl, fidx e ID_RHOT k i) := f ID_RHOT)
     in h)"

definition tend_x_body :: "env \<Rightarrow> buffer \<Rightarrow> buffer \<Rightarrow> nat \<Rightarrow> nat \<Rightarrow> nat \<Rightarrow> heap \<Rightarrow> heap" where
  "tend_x_body e fl td ll k i h =
    (let indt = tidx e ll k i;
         indf1 = fidx e ll k i;
         indf2 = fidx e ll k (i + 1)
     in h((td, indt) := - (h (fl, indf2) - h (fl, indf1)) / dx e))"

definition flux_x_loop :: "env \<Rightarrow> buffer \<Rightarrow> buffer \<Rightarrow> real \<Rightarrow> heap \<Rightarrow> heap" where
  "flux_x_loop e st fl hv h =
     fold (\<lambda>k. fold (flux_x_body e st fl hv k) [0..<nx e + 1]) [0..<nz e] h"

definition tend_x_loop :: "env \<Rightarrow> buffer \<Rightarrow> buffer \<Rightarrow> heap \<Rightarrow> heap" where
  "tend_x_loop e fl td h =
     fold (\<lambda>ll. fold (\<lambda>k. fold (tend_x_body e fl td ll k) [0..<nx e]) [0..<nz e])
       [0..<NUM_VARS] h"

definition compute_tendencies_x ::
  "env \<Rightarrow> buffer \<Rightarrow> buffer \<Rightarrow> buffer \<Rightarrow> real \<Rightarrow> heap \<Rightarrow> error + heap" where
  "compute_tendencies_x e st fl td dt h =
    (case hv_coef (dx e) dt of
       Inl err \<Rightarrow> Inl err
     | Inr hv \<Rightarrow> Inr (tend_x_loop e fl td (flux_x_loop e st fl hv h)))"

definition flux_z_cell :: "env \<Rightarrow> real \<Rightarrow> (nat \<Rightarrow> real) \<Rightarrow> nat \<Rightarrow> nat \<Rightarrow> nat \<Rightarrow> real" where
  "flux_z_cell e hv S k i =
    (let stencil = (\<lambda>ll s. S (sidx e ll (k + s) (i + hs)));
         vals = (\<lambda>ll. - stencil ll 0 / 12 + 7 * stencil ll 1 / 12
                        + 7 * stencil ll 2 / 12 - stencil ll 3 / 12);
         d3_vals = (\<lambda>ll. - stencil ll 0 + 3 * stencil ll 1 - 3 * stencil ll 2 + stencil ll 3);
         r = vals ID_DENS + hy_dens_int e k;
         u = vals ID_UMOM / r;
         w = vals ID_WMOM / r;
         t = (vals ID_RHOT + hy_dens_theta_int e k) / r;
         p = C0 * (r * t) powr gamm - hy_pressure_int e k;
         w = (if k = 0 \<or> k = nz e then 0 else w);
         d3_vals = (if k = 0 \<or> k = nz e then d3_vals(ID_DENS := 0) else d3_vals)
     in (\<lambda>ll. if ll = ID_DENS then r * w - hv * d3_vals ID_DENS
              else if ll = ID_UMOM then r * w * u - hv * d3_vals ID_UMOM
              else if ll = ID_WMOM then r * w * w + p - hv * d3_vals ID_WMOM
              else r * w * t - hv * d3_vals ID_RHOT))"

definition flux_z_body :: "env \<Rightarrow> buffer \<Rightarrow> buffer \<Rightarrow> real \<Rightarrow> nat \<Rightarrow> nat \<Rightarrow> heap \<Rightarrow> heap" where
  "flux_z_body e st fl hv k i h =
    (let f = flux_z_cell e hv (\<lambda>x. h (st, x)) k i;
         h = h((fl, fidx e ID_DENS k i) := f ID_DENS);
         h = h((fl, fidx e ID_UMOM k i) := f ID_UMOM);
         h = h((fl, fidx e ID_WMOM k i) := f ID_WMOM);
         h = h((fl, fidx e ID_RHOT k i) := f ID_RHOT)
     in h)"

definition tend_z_body ::
  "env \<Rightarrow> buffer \<Rightarrow> buffer \<Rightarrow> buffer \<Rightarrow> nat \<Rightarrow> nat \<Rightarrow> nat \<Rightarrow> heap \<Rightarrow> heap" where
  "tend_z_body e st fl td ll k i h =
    (let indt = tidx e ll k i;
         indf1 = fidx e ll k i;
         indf2 = fidx e ll (k + 1) i;
         h = h((td, indt) := - (h (fl, indf2) - h (fl, indf1)) / dz e)
     in if ll = ID_WMOM then
          (let inds = sidx e ID_DENS (k + hs) (i + hs)
           in h((td, indt) := h (td, indt) - h (st, inds) * grav))
        else h)"

definition flux_z_loop :: "env \<Rightarrow> buffer \<Rightarrow> buffer \<Rightarrow> real \<Rightarrow> heap \<Rightarrow> heap" where
  "flux_z_loop e st fl hv h =
     fold (\<lambda>k. fold (flux_z_body e st fl hv k) [0..<nx e]) [0..<nz e + 1] h"

definition tend_z_loop :: "env \<Rightarrow> buffer \<Rightarrow> buffer \<Rightarrow> buffer \<Rightarrow> heap \<Rightarrow> heap" where
  "tend_z_loop e st fl td h =
     fold (\<lambda>ll. fold (\<lambda>k. fold (tend_z_body e st fl td ll k) [0..<nx e]) [0..<nz e])
       [0..<NUM_VARS] h"

definition compute_tendencies_z ::
  "env \<Rightarrow> buffer \<Rightarrow> buffer \<Rightarrow> buffer \<Rightarrow> real \<Rightarrow> heap \<Rightarrow> error + heap" where
  "compute_tendencies_z e st fl td dt h =
    (case hv_coef (dz e) dt of
       Inl err \<Rightarrow> Inl err
     | Inr hv \<Rightarrow> Inr (tend_z_loop e st fl td (flux_z_loop e st fl hv h)))"

section \<open>Time integrator\<close>

text \<open>
  The forcing the state-update loop adds for the gravity-waves scenario
  (\<^verbatim>\<open>sample_ellipse_cosine\<close> inlined by hand in the source).
\<close>

definition wpert_inline :: "env \<Rightarrow> nat \<Rightarrow> nat \<Rightarrow> real" where
  "wpert_inline e k i =
    (let x = (real (i_beg e + i) + 1 / 2) * dx e;
         z = (real (k_beg e + k) + 1 / 2) * dz e;
         x0 = xlen / 8;
         z0 = 1000;
         xrad = 500;
         zrad = 500;
         amp = 1 / 100;
         dist = sqrt (((x - x0) / xrad) * ((x - x0) / xrad)
                      + ((z - z0) / zrad) * ((z - z0) / zrad)) * pi_c / 2
     in if dist \<le> pi_c / 2 then amp * (cos dist) ^ 2 else 0)"

definition update_body ::
  "env \<Rightarrow> buffer \<Rightarrow> buffer \<Rightarrow> buffer \<Rightarrow> real \<Rightarrow> nat \<Rightarrow> nat \<Rightarrow> nat \<Rightarrow> heap \<Rightarrow> heap" where
  "update_body e state_init state_out td dt ll k i h =
    (let h = (if data_spec_int e = DATA_SPEC_GRAVITY_WAVES then
                (let wpert = wpert_inline e k i;
                     indw = tidx e ID_WMOM k i
                 in h((td, indw) := h (td, indw) + wpert * hy_dens_cell e (hs + k)))
              else h);
         inds = sidx e ll (k + hs) (i + hs);
         indt = tidx e ll k i
     in h((state_out, inds) := h (state_init, inds) + dt * h (td, indt)))"

text \<open>The two inner loops of the state update, for one value of the outer \<^verbatim>\<open>ll\<close>.\<close>

definition update_pass ::
  "env \<Rightarrow> buffer \<Rightarrow> buffer \<Rightarrow> buffer \<Rightarrow> real \<Rightarrow> nat \<Rightarrow> heap \<Rightarrow> heap" where
  "update_pass e state_init state_out td dt ll h =
     fold (\<lambda>k. fold (update_body e state_init state_out td dt ll k) [0..<nx e]) [0..<nz e] h"

definition update_loop :: "env \<Rightarrow> buffer \<Rightarrow> buffer \<Rightarrow> buffer \<Rightarrow> real \<Rightarrow> heap \<Rightarrow> heap" where
  "update_loop e state_init state_out td dt h =
     fold (update_pass e state_init state_out td dt) [0..<NUM_VARS] h"

definition semi_discrete_step ::
  "env \<Rightarrow> buffer \<Rightarrow> buffer \<Rightarrow> buffer \<Rightarrow> real \<Rightarrow> int \<Rightarrow> buffer \<Rightarrow> buffer \<Rightarrow> heap
     \<Rightarrow> error + heap" where
  "semi_discrete_step e state_init state_forcing state_out dt dir fl td h =
    (case (if dir = DIR_X then
             compute_tendencies_x e state_forcing fl td dt (set_halo_values_x e state_forcing h)
           else if dir = DIR_Z then
             compute_tendencies_z e state_forcing fl td dt (set_halo_values_z e state_forcing h)
           else Inr h) of
       Inl err \<Rightarrow> Inl err
     | Inr h \<Rightarrow> Inr (update_loop e state_init state_out td dt h))"

text \<open>A run of stage calls, stopping at the first that fails.\<close>

fun run_stages :: "(heap \<Rightarrow> error + heap) list \<Rightarrow> heap \<Rightarrow> error + heap" where
  "run_stages [] h = Inr h"
| "run_stages (f # fs) h = (case f h of Inl err \<Rightarrow> Inl err | Inr h' \<Rightarrow> run_stages fs h')"

definition perform_timestep ::
  "env \<Rightarrow> buffer \<Rightarrow> buffer \<Rightarrow> buffer \<Rightarrow> buffer \<Rightarrow> real \<Rightarrow> heap \<times> int
     \<Rightarrow> error + heap \<times> int" where
  "perform_timestep e st stt fl td dt s =
    (case s of (h, direction_switch) \<Rightarrow>
      (case (if direction_switch \<noteq> 0 then
               run_stages
                 [semi_discrete_step e st st stt (dt / 3) DIR_X fl td,
                  semi_discrete_step e st stt stt (dt / 2) DIR_X fl td,
                  semi_discrete_step e st stt st (dt / 1) DIR_X fl td,
                  semi_discrete_step e st st stt (dt / 3) DIR_Z fl td,
                  semi_discrete_step e st stt stt (dt / 2) DIR_Z fl td,
                  semi_discrete_step e st stt st (dt / 1) DIR_Z fl td] h
             else
               run_stages
                 [semi_discrete_step e st st stt (dt / 3) DIR_Z fl td,
                  semi_discrete_step e st stt stt (dt / 2) DIR_Z fl td,
                  semi_discrete_step e st stt st (dt / 1) DIR_Z fl td,
                  semi_discrete_step e st st stt (dt / 3) DIR_X fl td,
                  semi_discrete_step e st stt stt (dt / 2) DIR_X fl td,
                  semi_discrete_step e st stt st (dt / 1) DIR_X fl td] h) of
         Inl err \<Rightarrow> Inl err
       | Inr h' \<Rightarrow> Inr (h', if direction_switch \<noteq> 0 then 0 else 1)))"

section \<open>Conservation reducer\<close>

definition reductions_body :: "env \<Rightarrow> heap \<Rightarrow> nat \<Rightarrow> nat \<Rightarrow> real \<times> real \<Rightarrow> real \<times> real" where
  "reductions_body e h k i acc =
    (case acc of (mass, te) \<Rightarrow>
      (let ind_r = sidx e ID_DENS (k + hs) (i + hs);
           ind_u = sidx e ID_UMOM (k + hs) (i + hs);
           ind_w = sidx e ID_WMOM (k + hs) (i + hs);
           ind_t = sidx e ID_RHOT (k + hs) (i + hs);
           r = h (State, ind_r) + hy_dens_cell e (hs + k);
           u = h (State, ind_u) / r;
           w = h (State, ind_w) / r;
           th = (h (State, ind_t) + hy_dens_theta_cell e (hs + k)) / r;
           p = C0 * (r * th) powr gamm;
           t = th / (p0 / p) powr (rd / cp);
           ke = r * (u * u + w * w);
           ie = r * cv * t
       in (mass + r * dx e * dz e, te + (ke + ie) * dx e * dz e)))"

text \<open>With the single rank of the serial build the all-reduce returns the local sums.\<close>

definition reductions :: "env \<Rightarrow> heap \<Rightarrow> real \<times> real" where
  "reductions e h = fold (\<lambda>k. fold (reductions_body e h k) [0..<nx e]) [0..<nz e] (0, 0)"

section \<open>Loops that write disjoint cells\<close>

lemma fold_frame:
  "(\<And>j g. j \<in> set js \<Longrightarrow> step j g x = g x) \<Longrightarrow> fold step js h x = h x"
  by (induction js arbitrary: h) simp_all

lemma fold_product:
  "fold (\<lambda>a. fold (f a) bs) as = fold (\<lambda>(a, b). f a b) (List.product as bs)"
proof (induction as)
  case Nil
  show ?case by simp
next
  case (Cons a as)
  have "fold (\<lambda>(a, b). f a b) (map (Pair a) bs) = fold (f a) bs"
    by (simp add: fold_map comp_def)
  with Cons show ?case by (simp add: fun_eq_iff)
qed

text \<open>
  Iteration \<open>j\<close> writes only the cells \<open>W j\<close>, computes them from the cells \<open>D j\<close>, and no
  other iteration writes into \<open>W j\<close> or \<open>D j\<close>: then the loop leaves in \<open>W j\<close> what
  iteration \<open>j\<close> alone computes from the initial store.
\<close>

lemma fold_local:
  assumes "distinct js" and "j \<in> set js" and "x \<in> W j"
    and frame: "\<And>i g y. i \<in> set js \<Longrightarrow> y \<notin> W i \<Longrightarrow> step i g y = g y"
    and dep: "\<And>i g g'. i \<in> set js \<Longrightarrow> (\<forall>y\<in>D i. g y = g' y) \<Longrightarrow>
                (\<forall>y\<in>W i. step i g y = step i g' y)"
    and sep: "\<And>i i'. i \<in> set js \<Longrightarrow> i' \<in> set js \<Longrightarrow> i \<noteq> i' \<Longrightarrow>
                W i' \<inter> (W i \<union> D i) = {}"
  shows "fold step js h x = step j h x"
  using assms
proof (induction js arbitrary: h)
  case Nil
  then show ?case by simp
next
  case (Cons a js)
  show ?case
  proof (cases "j = a")
    case True
    have "fold step js (step a h) x = step a h x"
    proof (rule fold_frame)
      fix i g assume i: "i \<in> set js"
      with Cons.prems(1) have "i \<noteq> a" by auto
      with Cons.prems(6)[of a i] i True Cons.prems(3) have "x \<notin> W i" by auto
      with Cons.prems(4)[of i x g] i show "step i g x = g x" by simp
    qed
    with True show ?thesis by simp
  next
    case False
    with Cons.prems(2) have j: "j \<in> set js" by simp
    have d: "distinct js" using Cons.prems(1) by simp
    have fr: "\<And>i g y. i \<in> set js \<Longrightarrow> y \<notin> W i \<Longrightarrow> step i g y = g y"
      using Cons.prems(4) by simp
    have dp: "\<And>i g g'. i \<in> set js \<Longrightarrow> (\<forall>y\<in>D i. g y = g' y) \<Longrightarrow>
                (\<forall>y\<in>W i. step i g y = step i g' y)"
      using Cons.prems(5) by simp
    have sp: "\<And>i i'. i \<in> set js \<Longrightarrow> i' \<in> set js \<Longrightarrow> i \<noteq> i' \<Longrightarrow>
                W i' \<inter> (W i \<union> D i) = {}"
      using Cons.prems(6) by simp
    have "fold step js (step a h) x = step j (step a h) x"
      by (rule Cons.IH[OF d j Cons.prems(3) fr dp sp])
    moreover have "step j (step a h) x = step j h x"
    proof -
      have "\<forall>y\<in>D j. step a h y = h y"
      proof
        fix y assume "y \<in> D j"
        with Cons.prems(6)[of j a] j False have "y \<notin> W a" by auto
        then show "step a h y = h y" using Cons.prems(4)[of a y h] by simp
      qed
      with Cons.prems(5)[of j "step a h" h] j Cons.prems(3) show ?thesis by simp
    qed
    ultimately show ?thesis by simp
  qed
qed

lemma idx_base:
  fixes a a' d i i' :: nat
  assumes "i < d" "i' < d"
  shows "(a * d + i = a' * d + i') = (a = a' \<and> i = i')"
proof
  assume eq: "a * d + i = a' * d + i'"
  have "(a * d + i) div d = a" "(a * d + i) mod d = i" using assms by simp_all
  moreover have "(a' * d + i') div d = a'" "(a' * d + i') mod d = i'" using assms by simp_all
  ultimately show "a = a' \<and> i = i'" using eq by metis
qed simp

lemma sidx_eq_iff:
  assumes "i < nx e + 4" "i' < nx e + 4" "k < nz e + 4" "k' < nz e + 4"
  shows "(sidx e ll k i = sidx e ll' k' i') = (ll = ll' \<and> k = k' \<and> i = i')"
proof -
  have s: "\<And>ll k i. sidx e ll k i = (ll * (nz e + 4) + k) * (nx e + 4) + i"
    by (simp add: sidx_def hs_def algebra_simps)
  show ?thesis
    unfolding s using idx_base[OF assms(1,2)] idx_base[OF assms(3,4)] by auto
qed

lemma fidx_eq_iff:
  assumes "i < nx e + 1" "i' < nx e + 1" "k < nz e + 1" "k' < nz e + 1"
  shows "(fidx e ll k i = fidx e ll' k' i') = (ll = ll' \<and> k = k' \<and> i = i')"
proof -
  have s: "\<And>ll k i. fidx e ll k i = (ll * (nz e + 1) + k) * (nx e + 1) + i"
    by (simp add: fidx_def algebra_simps)
  show ?thesis
    unfolding s using idx_base[OF assms(1,2)] idx_base[OF assms(3,4)] by auto
qed

lemma tidx_eq_iff:
  assumes "i < nx e" "i' < nx e" "k < nz e" "k' < nz e"
  shows "(tidx e ll k i = tidx e ll' k' i') = (ll = ll' \<and> k = k' \<and> i = i')"
proof -
  have s: "\<And>ll k i. tidx e ll k i = (ll * nz e + k) * nx e + i"
    by (simp add: tidx_def algebra_simps)
  show ?thesis
    unfolding s using idx_base[OF assms(1,2)] idx_base[OF assms(3,4)] by auto
qed

text \<open>If, moreover, nothing any iteration reads is written by any iteration, the loop's
  result does not depend on what the written cells held before.\<close>

lemma fold_overwrite:
  assumes d: "distinct js"
    and frame: "\<And>i g y. i \<in> set js \<Longrightarrow> y \<notin> W i \<Longrightarrow> step i g y = g y"
    and dep: "\<And>i g g'. i \<in> set js \<Longrightarrow> (\<forall>y\<in>D i. g y = g' y) \<Longrightarrow>
                (\<forall>y\<in>W i. step i g y = step i g' y)"
    and sepW: "\<And>i i'. i \<in> set js \<Longrightarrow> i' \<in> set js \<Longrightarrow> i \<noteq> i' \<Longrightarrow> W i' \<inter> W i = {}"
    and sepD: "\<And>i i'. i \<in> set js \<Longrightarrow> i' \<in> set js \<Longrightarrow> W i' \<inter> D i = {}"
    and agree: "\<And>y. (\<And>i. i \<in> set js \<Longrightarrow> y \<notin> W i) \<Longrightarrow> g y = g' y"
  shows "fold step js g = fold step js g'"
proof
  fix x
  have sep: "\<And>i i'. i \<in> set js \<Longrightarrow> i' \<in> set js \<Longrightarrow> i \<noteq> i' \<Longrightarrow> W i' \<inter> (W i \<union> D i) = {}"
    using sepW sepD by blast
  show "fold step js g x = fold step js g' x"
  proof (cases "\<exists>j\<in>set js. x \<in> W j")
    case True
    then obtain j where j: "j \<in> set js" "x \<in> W j" by blast
    have a: "fold step js g x = step j g x"
      by (rule fold_local[where W = W and D = D, OF d j frame dep sep])
    have b: "fold step js g' x = step j g' x"
      by (rule fold_local[where W = W and D = D, OF d j frame dep sep])
    have "\<forall>y\<in>D j. g y = g' y"
    proof
      fix y assume "y \<in> D j"
      then have "\<And>i. i \<in> set js \<Longrightarrow> y \<notin> W i" using sepD[OF j(1)] by blast
      then show "g y = g' y" by (rule agree)
    qed
    with dep[OF j(1)] j(2) have "step j g x = step j g' x" by blast
    with a b show ?thesis by simp
  next
    case False
    then have nw: "\<And>i. i \<in> set js \<Longrightarrow> x \<notin> W i" by blast
    have "fold step js g x = g x" by (rule fold_frame) (use nw frame in blast)
    moreover have "fold step js g' x = g' x" by (rule fold_frame) (use nw frame in blast)
    ultimately show ?thesis using agree[of x] nw by simp
  qed
qed

lemma fold2_frame:
  assumes "\<And>a b g. a \<in> set as \<Longrightarrow> b \<in> set bs \<Longrightarrow> f a b g x = g x"
  shows "fold (\<lambda>a. fold (f a) bs) as h x = h x"
  unfolding fold_product
  by (rule fold_frame) (use assms in auto)

lemma fold3_frame:
  assumes "\<And>a b c g. a \<in> set as \<Longrightarrow> b \<in> set bs \<Longrightarrow> c \<in> set cs \<Longrightarrow> f a b c g x = g x"
  shows "fold (\<lambda>a. fold (\<lambda>b. fold (f a b) cs) bs) as h x = h x"
  by (rule fold2_frame, rule fold_frame) (use assms in auto)

lemma fold2_local:
  assumes d: "distinct as" "distinct bs" and j: "a \<in> set as" "b \<in> set bs" and x: "x \<in> W a b"
    and frame: "\<And>a b g y. a \<in> set as \<Longrightarrow> b \<in> set bs \<Longrightarrow> y \<notin> W a b \<Longrightarrow> f a b g y = g y"
    and dep: "\<And>a b g g'. a \<in> set as \<Longrightarrow> b \<in> set bs \<Longrightarrow> (\<forall>y\<in>D a b. g y = g' y) \<Longrightarrow>
                (\<forall>y\<in>W a b. f a b g y = f a b g' y)"
    and sep: "\<And>a b a' b'. a \<in> set as \<Longrightarrow> b \<in> set bs \<Longrightarrow> a' \<in> set as \<Longrightarrow> b' \<in> set bs \<Longrightarrow>
                (a, b) \<noteq> (a', b') \<Longrightarrow> W a' b' \<inter> (W a b \<union> D a b) = {}"
  shows "fold (\<lambda>a. fold (f a) bs) as h x = f a b h x"
proof -
  have "fold (\<lambda>(a, b). f a b) (List.product as bs) h x = (\<lambda>(a, b). f a b) (a, b) h x"
  proof (rule fold_local[where W = "\<lambda>(a, b). W a b" and D = "\<lambda>(a, b). D a b"])
    show "distinct (List.product as bs)" using d by (simp add: distinct_product)
    show "(a, b) \<in> set (List.product as bs)" using j by simp
    show "x \<in> (case (a, b) of (a, b) \<Rightarrow> W a b)" using x by simp
  qed (use frame dep sep in \<open>auto simp: split_paired_all\<close>)
  then show ?thesis by (simp add: fold_product)
qed

lemma fold2_overwrite:
  assumes d: "distinct as" "distinct bs"
    and frame: "\<And>a b g y. a \<in> set as \<Longrightarrow> b \<in> set bs \<Longrightarrow> y \<notin> W a b \<Longrightarrow> f a b g y = g y"
    and dep: "\<And>a b g g'. a \<in> set as \<Longrightarrow> b \<in> set bs \<Longrightarrow> (\<forall>y\<in>D a b. g y = g' y) \<Longrightarrow>
                (\<forall>y\<in>W a b. f a b g y = f a b g' y)"
    and sepW: "\<And>a b a' b'. a \<in> set as \<Longrightarrow> b \<in> set bs \<Longrightarrow> a' \<in> set as \<Longrightarrow> b' \<in> set bs \<Longrightarrow>
                (a, b) \<noteq> (a', b') \<Longrightarrow> W a' b' \<inter> W a b = {}"
    and sepD: "\<And>a b a' b'. a \<in> set as \<Longrightarrow> b \<in> set bs \<Longrightarrow> a' \<in> set as \<Longrightarrow> b' \<in> set bs \<Longrightarrow>
                W a' b' \<inter> D a b = {}"
    and agree: "\<And>y. (\<And>a b. a \<in> set as \<Longrightarrow> b \<in> set bs \<Longrightarrow> y \<notin> W a b) \<Longrightarrow> g y = g' y"
  shows "fold (\<lambda>a. fold (f a) bs) as g = fold (\<lambda>a. fold (f a) bs) as g'"
  unfolding fold_product
proof (rule fold_overwrite[where W = "\<lambda>(a, b). W a b" and D = "\<lambda>(a, b). D a b"])
  show "distinct (List.product as bs)" using d by (simp add: distinct_product)
  show "\<And>y. (\<And>i. i \<in> set (List.product as bs) \<Longrightarrow> y \<notin> (case i of (a, b) \<Rightarrow> W a b)) \<Longrightarrow> g y = g' y"
    by (rule agree) auto
qed (use frame dep sepW sepD in \<open>auto simp: split_paired_all\<close>)

lemma fold3_local:
  assumes d: "distinct as" "distinct bs" "distinct cs"
    and j: "a \<in> set as" "b \<in> set bs" "c \<in> set cs" and x: "x \<in> W a b c"
    and frame: "\<And>a b c g y. a \<in> set as \<Longrightarrow> b \<in> set bs \<Longrightarrow> c \<in> set cs \<Longrightarrow> y \<notin> W a b c \<Longrightarrow>
                  f a b c g y = g y"
    and dep: "\<And>a b c g g'. a \<in> set as \<Longrightarrow> b \<in> set bs \<Longrightarrow> c \<in> set cs \<Longrightarrow>
                (\<forall>y\<in>D a b c. g y = g' y) \<Longrightarrow> (\<forall>y\<in>W a b c. f a b c g y = f a b c g' y)"
    and sep: "\<And>a b c a' b' c'. a \<in> set as \<Longrightarrow> b \<in> set bs \<Longrightarrow> c \<in> set cs \<Longrightarrow>
                a' \<in> set as \<Longrightarrow> b' \<in> set bs \<Longrightarrow> c' \<in> set cs \<Longrightarrow>
                (a, b, c) \<noteq> (a', b', c') \<Longrightarrow> W a' b' c' \<inter> (W a b c \<union> D a b c) = {}"
  shows "fold (\<lambda>a. fold (\<lambda>b. fold (f a b) cs) bs) as h x = f a b c h x"
proof -
  have "fold (\<lambda>a. fold (\<lambda>(b, c). f a b c) (List.product bs cs)) as h x
          = (\<lambda>(b, c). f a b c) (b, c) h x"
  proof (rule fold2_local[where W = "\<lambda>a (b, c). W a b c" and D = "\<lambda>a (b, c). D a b c"])
    show "distinct as" by fact
    show "distinct (List.product bs cs)" using d by (simp add: distinct_product)
    show "a \<in> set as" by fact
    show "(b, c) \<in> set (List.product bs cs)" using j by simp
    show "x \<in> (case (b, c) of (b, c) \<Rightarrow> W a b c)" using x by simp
  qed (use frame dep sep in \<open>auto simp: split_paired_all\<close>)
  then show ?thesis by (simp add: fold_product)
qed

definition halo_x_cells :: "env \<Rightarrow> buffer \<Rightarrow> nat \<Rightarrow> nat \<Rightarrow> (buffer \<times> nat) set" where
  "halo_x_cells e p ll k =
     {(p, sidx e ll (k + hs) 0), (p, sidx e ll (k + hs) 1),
      (p, sidx e ll (k + hs) (nx e + hs)), (p, sidx e ll (k + hs) (nx e + hs + 1))}"

definition halo_x_srcs :: "env \<Rightarrow> buffer \<Rightarrow> nat \<Rightarrow> nat \<Rightarrow> (buffer \<times> nat) set" where
  "halo_x_srcs e p ll k =
     {(p, sidx e ll (k + hs) (nx e + hs - 2)), (p, sidx e ll (k + hs) (nx e + hs - 1)),
      (p, sidx e ll (k + hs) hs), (p, sidx e ll (k + hs) (hs + 1))}"

lemma halo_x_body_frame:
  "y \<notin> halo_x_cells e p ll k \<Longrightarrow> halo_x_body e p ll k g y = g y"
  by (simp add: halo_x_body_def halo_x_cells_def Let_def)

lemma halo_x_body_dep:
  assumes "2 \<le> nx e" "k < nz e" "\<forall>y\<in>halo_x_srcs e p ll k. g y = g' y"
  shows "\<forall>y\<in>halo_x_cells e p ll k. halo_x_body e p ll k g y = halo_x_body e p ll k g' y"
  using assms
  by (simp add: halo_x_body_def halo_x_cells_def halo_x_srcs_def hs_def Let_def sidx_eq_iff)

lemma halo_x_cells_disjoint:
  assumes "k < nz e" "k' < nz e" "(ll, k) \<noteq> (ll', k')"
  shows "halo_x_cells e p ll' k' \<inter> halo_x_cells e p ll k = {}"
  using assms by (auto simp: halo_x_cells_def hs_def sidx_eq_iff)

lemma halo_x_cells_srcs_disjoint:
  assumes "2 \<le> nx e" "k < nz e" "k' < nz e"
  shows "halo_x_cells e p ll' k' \<inter> halo_x_srcs e p ll k = {}"
  using assms by (auto simp: halo_x_cells_def halo_x_srcs_def hs_def sidx_eq_iff)

lemma halo_x_loop_frame:
  assumes "\<And>ll k. ll < NUM_VARS \<Longrightarrow> k < nz e \<Longrightarrow> y \<notin> halo_x_cells e p ll k"
  shows "halo_x_loop e p h y = h y"
  unfolding halo_x_loop_def
  by (rule fold2_frame) (use assms halo_x_body_frame in auto)

lemma halo_x_loop_overwrite:
  assumes nx: "2 \<le> nx e"
    and agree: "\<And>y. (\<And>ll k. ll < NUM_VARS \<Longrightarrow> k < nz e \<Longrightarrow> y \<notin> halo_x_cells e p ll k)
                  \<Longrightarrow> g y = g' y"
  shows "halo_x_loop e p g = halo_x_loop e p g'"
  unfolding halo_x_loop_def
proof (rule fold2_overwrite[where W = "halo_x_cells e p" and D = "halo_x_srcs e p"])
  show "\<And>y. (\<And>a b. a \<in> set [0..<NUM_VARS] \<Longrightarrow> b \<in> set [0..<nz e] \<Longrightarrow> y \<notin> halo_x_cells e p a b)
          \<Longrightarrow> g y = g' y"
    by (rule agree) simp
qed (use halo_x_body_frame halo_x_body_dep[OF nx] halo_x_cells_disjoint
      halo_x_cells_srcs_disjoint[OF nx] in auto)

lemma halo_x_loop_idem:
  assumes "2 \<le> nx e"
  shows "halo_x_loop e p (halo_x_loop e p h) = halo_x_loop e p h"
  by (rule halo_x_loop_overwrite[OF assms]) (rule halo_x_loop_frame)

lemma injection_body_frame:
  assumes "y \<noteq> (p, sidx e ID_UMOM (k + hs) i)" "y \<noteq> (p, sidx e ID_RHOT (k + hs) i)"
  shows "injection_body e p k i g y = g y"
  using assms by (simp add: injection_body_def Let_def)

lemma injection_loop_frame:
  assumes "\<And>ll k. ll < NUM_VARS \<Longrightarrow> k < nz e \<Longrightarrow> y \<notin> halo_x_cells e p ll k"
  shows "injection_loop e p h y = h y"
  unfolding injection_loop_def
proof (rule fold2_frame)
  fix k i and g :: heap assume "k \<in> set [0..<nz e]" "i \<in> set [0..<hs]"
  then have k: "k < nz e" and i: "i = 0 \<or> i = 1" by (auto simp: hs_def)
  from assms[of ID_UMOM k] assms[of ID_RHOT k] k i
  show "injection_body e p k i g y = g y"
    by (intro injection_body_frame)
       (auto simp: halo_x_cells_def NUM_VARS_def ID_UMOM_def ID_RHOT_def)
qed

text \<open>
  Claim C6, amended. When the local grid is at least as wide as the halo (\<open>2 \<le> nx\<close>),
  calling \<^verbatim>\<open>set_halo_values_x\<close> twice in succession leaves every cell of the store as one
  call does, for every store, every buffer and every scenario, the injection override of
  rank 0 included. (With \<open>nx = 1\<close> the first copy reads a halo column that the same
  call overwrites, and the second call differs from the first: see
  \<open>set_halo_values_x_not_idempotent_nx1\<close>.)
\<close>

theorem set_halo_values_x_idempotent:
  assumes "2 \<le> nx e"
  shows "set_halo_values_x e p (set_halo_values_x e p h) = set_halo_values_x e p h"
proof -
  have "halo_x_loop e p (injection_loop e p (halo_x_loop e p h)) = halo_x_loop e p h"
  proof (rule halo_x_loop_overwrite[OF assms])
    fix y assume a: "\<And>ll k. ll < NUM_VARS \<Longrightarrow> k < nz e \<Longrightarrow> y \<notin> halo_x_cells e p ll k"
    then show "injection_loop e p (halo_x_loop e p h) y = h y"
      by (simp add: injection_loop_frame halo_x_loop_frame)
  qed
  then show ?thesis
    by (simp add: set_halo_values_x_def Let_def halo_x_loop_idem[OF assms])
qed

definition env_1x1 :: env where
  "env_1x1 = \<lparr>nx_glob = 1, nz_glob = 1, sim_time = 0, output_freq = - 1, data_spec_int = 2,
     nx = 1, nz = 1, i_beg = 0, k_beg = 0, myrank = 0,
     hy_dens_cell = (\<lambda>_. 1), hy_dens_theta_cell = (\<lambda>_. 0),
     hy_dens_int = (\<lambda>_. 1), hy_dens_theta_int = (\<lambda>_. 0), hy_pressure_int = (\<lambda>_. 0)\<rparr>"

definition heap_halo_cex :: heap where
  "heap_halo_cex = (\<lambda>_. 0)((State, 11) := 1)"

definition env_inj :: env where
  "env_inj = \<lparr>nx_glob = 4, nz_glob = 8, sim_time = 1, output_freq = - 1, data_spec_int = 6,
     nx = 4, nz = 8, i_beg = 0, k_beg = 0, myrank = 0,
     hy_dens_cell = (\<lambda>_. 1), hy_dens_theta_cell = (\<lambda>_. 300),
     hy_dens_int = (\<lambda>_. 1), hy_dens_theta_int = (\<lambda>_. 300), hy_pressure_int = (\<lambda>_. 0)\<rparr>"

theorem set_halo_values_x_idempotent_witness:
  "2 \<le> nx env_inj \<and>
   set_halo_values_x env_inj State (set_halo_values_x env_inj State heap_halo_cex)
     = set_halo_values_x env_inj State heap_halo_cex"
  using set_halo_values_x_idempotent[of env_inj State heap_halo_cex]
  by (simp add: env_inj_def)

lemma halo_x_1x1_once: "set_halo_values_x env_1x1 State heap_halo_cex (State, 10) = 1"
  by (simp add: set_halo_values_x_def halo_x_loop_def halo_x_body_def env_1x1_def
      heap_halo_cex_def NUM_VARS_def hs_def sidx_def Let_def DATA_SPEC_INJECTION_def upt_rec)

lemma halo_x_1x1_twice: "set_halo_values_x env_1x1 State (set_halo_values_x env_1x1 State heap_halo_cex) (State, 10) = 0"
  by (simp add: set_halo_values_x_def halo_x_loop_def halo_x_body_def env_1x1_def
      heap_halo_cex_def NUM_VARS_def hs_def sidx_def Let_def DATA_SPEC_INJECTION_def upt_rec)

theorem set_halo_values_x_not_idempotent_nx1:
  "set_halo_values_x env_1x1 State (set_halo_values_x env_1x1 State heap_halo_cex)
     \<noteq> set_halo_values_x env_1x1 State heap_halo_cex"
proof
  assume "set_halo_values_x env_1x1 State (set_halo_values_x env_1x1 State heap_halo_cex)
     = set_halo_values_x env_1x1 State heap_halo_cex"
  then have "set_halo_values_x env_1x1 State (set_halo_values_x env_1x1 State heap_halo_cex) (State, 10)
     = set_halo_values_x env_1x1 State heap_halo_cex (State, 10)" by simp
  then show False by (simp add: halo_x_1x1_once halo_x_1x1_twice)
qed

lemma vars_cases: "ll < NUM_VARS \<Longrightarrow> ll = ID_DENS \<or> ll = ID_UMOM \<or> ll = ID_WMOM \<or> ll = ID_RHOT"
  by (auto simp: NUM_VARS_def ID_DENS_def ID_UMOM_def ID_WMOM_def ID_RHOT_def)

lemma vars_lt [simp]:
  "ID_DENS < NUM_VARS" "ID_UMOM < NUM_VARS" "ID_WMOM < NUM_VARS" "ID_RHOT < NUM_VARS"
  by (auto simp: NUM_VARS_def ID_DENS_def ID_UMOM_def ID_WMOM_def ID_RHOT_def)

lemma vars_distinct [simp]:
  "ID_DENS \<noteq> ID_UMOM" "ID_DENS \<noteq> ID_WMOM" "ID_DENS \<noteq> ID_RHOT"
  "ID_UMOM \<noteq> ID_DENS" "ID_UMOM \<noteq> ID_WMOM" "ID_UMOM \<noteq> ID_RHOT"
  "ID_WMOM \<noteq> ID_DENS" "ID_WMOM \<noteq> ID_UMOM" "ID_WMOM \<noteq> ID_RHOT"
  "ID_RHOT \<noteq> ID_DENS" "ID_RHOT \<noteq> ID_UMOM" "ID_RHOT \<noteq> ID_WMOM"
  by (auto simp: ID_DENS_def ID_UMOM_def ID_WMOM_def ID_RHOT_def)

subsection \<open>The flux loops\<close>

lemma flux_x_body_other: "b \<noteq> fl \<Longrightarrow> flux_x_body e st fl hv k i g (b, x) = g (b, x)"
  by (simp add: flux_x_body_def Let_def)

lemma flux_x_loop_other: "b \<noteq> fl \<Longrightarrow> flux_x_loop e st fl hv h (b, x) = h (b, x)"
  unfolding flux_x_loop_def by (rule fold2_frame) (simp add: flux_x_body_other)

lemma flux_x_body_val:
  assumes "k < nz e" "i < nx e + 1" "ll < NUM_VARS"
  shows "flux_x_body e st fl hv k i g (fl, fidx e ll k i) = flux_x_cell e hv (\<lambda>x. g (st, x)) k i ll"
  using vars_cases[OF assms(3)] assms(1,2)
  by (auto simp: flux_x_body_def Let_def fidx_eq_iff)

lemma flux_x_loop_val:
  assumes "st \<noteq> fl" "k < nz e" "i < nx e + 1" "ll < NUM_VARS"
  shows "flux_x_loop e st fl hv h (fl, fidx e ll k i) = flux_x_cell e hv (\<lambda>x. h (st, x)) k i ll"
proof -
  have "flux_x_loop e st fl hv h (fl, fidx e ll k i) = flux_x_body e st fl hv k i h (fl, fidx e ll k i)"
    unfolding flux_x_loop_def
  proof (rule fold2_local[where W = "\<lambda>k i. {(fl, fidx e ll k i) |ll. ll < NUM_VARS}"
          and D = "\<lambda>k i. {y. fst y = st}"])
    show "(fl, fidx e ll k i) \<in> {(fl, fidx e ll k i) |ll. ll < NUM_VARS}" using assms by blast
  next
    fix a b and g :: heap and y
    assume "a \<in> set [0..<nz e]" "b \<in> set [0..<nx e + 1]" "y \<notin> {(fl, fidx e ll a b) |ll. ll < NUM_VARS}"
    then show "flux_x_body e st fl hv a b g y = g y"
      by (auto simp: flux_x_body_def Let_def)
  next
    fix a b and g g' :: heap
    assume ab: "a \<in> set [0..<nz e]" "b \<in> set [0..<nx e + 1]" and "\<forall>y\<in>{y. fst y = st}. g y = g' y"
    then have "(\<lambda>x. g (st, x)) = (\<lambda>x. g' (st, x))" by auto
    with ab show "\<forall>y\<in>{(fl, fidx e ll a b) |ll. ll < NUM_VARS}.
        flux_x_body e st fl hv a b g y = flux_x_body e st fl hv a b g' y"
      by (auto simp: flux_x_body_val)
  next
    fix a b a' b' :: nat
    assume "a \<in> set [0..<nz e]" "b \<in> set [0..<nx e + 1]" "a' \<in> set [0..<nz e]"
      "b' \<in> set [0..<nx e + 1]" "(a, b) \<noteq> (a', b')"
    then show "{(fl, fidx e ll a' b') |ll. ll < NUM_VARS}
        \<inter> ({(fl, fidx e ll a b) |ll. ll < NUM_VARS} \<union> {y. fst y = st}) = {}"
      using assms(1) by (auto simp: fidx_eq_iff)
  qed (use assms in auto)
  then show ?thesis using assms by (simp add: flux_x_body_val)
qed


lemma flux_z_body_other: "b \<noteq> fl \<Longrightarrow> flux_z_body e st fl hv k i g (b, x) = g (b, x)"
  by (simp add: flux_z_body_def Let_def)

lemma flux_z_loop_other: "b \<noteq> fl \<Longrightarrow> flux_z_loop e st fl hv h (b, x) = h (b, x)"
  unfolding flux_z_loop_def by (rule fold2_frame) (simp add: flux_z_body_other)

lemma flux_z_body_val:
  assumes "k < nz e + 1" "i < nx e" "ll < NUM_VARS"
  shows "flux_z_body e st fl hv k i g (fl, fidx e ll k i) = flux_z_cell e hv (\<lambda>x. g (st, x)) k i ll"
  using vars_cases[OF assms(3)] assms(1,2)
  by (auto simp: flux_z_body_def Let_def fidx_eq_iff)

lemma flux_z_loop_val:
  assumes "st \<noteq> fl" "k < nz e + 1" "i < nx e" "ll < NUM_VARS"
  shows "flux_z_loop e st fl hv h (fl, fidx e ll k i) = flux_z_cell e hv (\<lambda>x. h (st, x)) k i ll"
proof -
  have "flux_z_loop e st fl hv h (fl, fidx e ll k i) = flux_z_body e st fl hv k i h (fl, fidx e ll k i)"
    unfolding flux_z_loop_def
  proof (rule fold2_local[where W = "\<lambda>k i. {(fl, fidx e ll k i) |ll. ll < NUM_VARS}"
          and D = "\<lambda>k i. {y. fst y = st}"])
    show "(fl, fidx e ll k i) \<in> {(fl, fidx e ll k i) |ll. ll < NUM_VARS}" using assms by blast
  next
    fix a b and g :: heap and y
    assume "a \<in> set [0..<nz e + 1]" "b \<in> set [0..<nx e]" "y \<notin> {(fl, fidx e ll a b) |ll. ll < NUM_VARS}"
    then show "flux_z_body e st fl hv a b g y = g y"
      by (auto simp: flux_z_body_def Let_def)
  next
    fix a b and g g' :: heap
    assume ab: "a \<in> set [0..<nz e + 1]" "b \<in> set [0..<nx e]" and "\<forall>y\<in>{y. fst y = st}. g y = g' y"
    then have "(\<lambda>x. g (st, x)) = (\<lambda>x. g' (st, x))" by auto
    with ab show "\<forall>y\<in>{(fl, fidx e ll a b) |ll. ll < NUM_VARS}.
        flux_z_body e st fl hv a b g y = flux_z_body e st fl hv a b g' y"
      by (auto simp: flux_z_body_val)
  next
    fix a b a' b' :: nat
    assume "a \<in> set [0..<nz e + 1]" "b \<in> set [0..<nx e]" "a' \<in> set [0..<nz e + 1]"
      "b' \<in> set [0..<nx e]" "(a, b) \<noteq> (a', b')"
    then show "{(fl, fidx e ll a' b') |ll. ll < NUM_VARS}
        \<inter> ({(fl, fidx e ll a b) |ll. ll < NUM_VARS} \<union> {y. fst y = st}) = {}"
      using assms(1) by (auto simp: fidx_eq_iff)
  qed (use assms in auto)
  then show ?thesis using assms by (simp add: flux_z_body_val)
qed

subsection \<open>The tendency loops\<close>

lemma tend_x_loop_other: "b \<noteq> td \<Longrightarrow> tend_x_loop e fl td h (b, x) = h (b, x)"
  unfolding tend_x_loop_def by (rule fold3_frame) (simp add: tend_x_body_def Let_def)

lemma tend_z_loop_other: "b \<noteq> td \<Longrightarrow> tend_z_loop e st fl td h (b, x) = h (b, x)"
  unfolding tend_z_loop_def by (rule fold3_frame) (simp add: tend_z_body_def Let_def)

lemma tend_x_loop_val:
  assumes "fl \<noteq> td" "ll < NUM_VARS" "k < nz e" "i < nx e"
  shows "tend_x_loop e fl td h (td, tidx e ll k i)
           = - (h (fl, fidx e ll k (i + 1)) - h (fl, fidx e ll k i)) / dx e"
proof -
  have "tend_x_loop e fl td h (td, tidx e ll k i) = tend_x_body e fl td ll k i h (td, tidx e ll k i)"
    unfolding tend_x_loop_def
  proof (rule fold3_local[where W = "\<lambda>ll k i. {(td, tidx e ll k i)}"
          and D = "\<lambda>ll k i. {y. fst y = fl}"])
    fix a b c :: nat and g g' :: heap
    assume "\<forall>y\<in>{y. fst y = fl}. g y = g' y"
    then show "\<forall>y\<in>{(td, tidx e a b c)}. tend_x_body e fl td a b c g y = tend_x_body e fl td a b c g' y"
      by (simp add: tend_x_body_def Let_def)
  next
    fix a b c a' b' c' :: nat
    assume "b \<in> set [0..<nz e]" "c \<in> set [0..<nx e]" "b' \<in> set [0..<nz e]" "c' \<in> set [0..<nx e]"
      "(a, b, c) \<noteq> (a', b', c')"
    then show "{(td, tidx e a' b' c')} \<inter> ({(td, tidx e a b c)} \<union> {y. fst y = fl}) = {}"
      using assms(1) by (auto simp: tidx_eq_iff)
  qed (use assms in \<open>auto simp: tend_x_body_def Let_def\<close>)
  then show ?thesis by (simp add: tend_x_body_def Let_def)
qed

lemma tend_z_loop_val:
  assumes "fl \<noteq> td" "st \<noteq> td" "ll < NUM_VARS" "k < nz e" "i < nx e"
  shows "tend_z_loop e st fl td h (td, tidx e ll k i)
           = - (h (fl, fidx e ll (k + 1) i) - h (fl, fidx e ll k i)) / dz e
             - (if ll = ID_WMOM then h (st, sidx e ID_DENS (k + hs) (i + hs)) * grav else 0)"
proof -
  have "tend_z_loop e st fl td h (td, tidx e ll k i) = tend_z_body e st fl td ll k i h (td, tidx e ll k i)"
    unfolding tend_z_loop_def
  proof (rule fold3_local[where W = "\<lambda>ll k i. {(td, tidx e ll k i)}"
          and D = "\<lambda>ll k i. {y. fst y \<noteq> td}"])
    fix a b c :: nat and g g' :: heap
    assume "\<forall>y\<in>{y. fst y \<noteq> td}. g y = g' y"
    then show "\<forall>y\<in>{(td, tidx e a b c)}. tend_z_body e st fl td a b c g y = tend_z_body e st fl td a b c g' y"
      using assms(1,2) by (simp add: tend_z_body_def Let_def)
  next
    fix a b c a' b' c' :: nat
    assume "b \<in> set [0..<nz e]" "c \<in> set [0..<nx e]" "b' \<in> set [0..<nz e]" "c' \<in> set [0..<nx e]"
      "(a, b, c) \<noteq> (a', b', c')"
    then show "{(td, tidx e a' b' c')} \<inter> ({(td, tidx e a b c)} \<union> {y. fst y \<noteq> td}) = {}"
      by (auto simp: tidx_eq_iff)
  qed (use assms in \<open>auto simp: tend_z_body_def Let_def\<close>)
  then show ?thesis using assms(1,2) by (simp add: tend_z_body_def Let_def)
qed

subsection \<open>The kernels as functions of the state array\<close>

definition tend_x_val :: "env \<Rightarrow> real \<Rightarrow> (nat \<Rightarrow> real) \<Rightarrow> nat \<Rightarrow> nat \<Rightarrow> nat \<Rightarrow> real" where
  "tend_x_val e dt S ll k i =
     - (flux_x_cell e (- hv_beta * dx e / (16 * dt)) S k (i + 1) ll
        - flux_x_cell e (- hv_beta * dx e / (16 * dt)) S k i ll) / dx e"

definition tend_z_val :: "env \<Rightarrow> real \<Rightarrow> (nat \<Rightarrow> real) \<Rightarrow> nat \<Rightarrow> nat \<Rightarrow> nat \<Rightarrow> real" where
  "tend_z_val e dt S ll k i =
     - (flux_z_cell e (- hv_beta * dz e / (16 * dt)) S (k + 1) i ll
        - flux_z_cell e (- hv_beta * dz e / (16 * dt)) S k i ll) / dz e
     - (if ll = ID_WMOM then S (sidx e ID_DENS (k + hs) (i + hs)) * grav else 0)"

lemma compute_tendencies_x_Inr:
  "dt \<noteq> 0 \<Longrightarrow> compute_tendencies_x e st fl td dt h
     = Inr (tend_x_loop e fl td (flux_x_loop e st fl (- hv_beta * dx e / (16 * dt)) h))"
  by (simp add: compute_tendencies_x_def hv_coef_def)

lemma compute_tendencies_z_Inr:
  "dt \<noteq> 0 \<Longrightarrow> compute_tendencies_z e st fl td dt h
     = Inr (tend_z_loop e st fl td (flux_z_loop e st fl (- hv_beta * dz e / (16 * dt)) h))"
  by (simp add: compute_tendencies_z_def hv_coef_def)

lemma compute_tendencies_x_zero: "compute_tendencies_x e st fl td 0 h = Inl Division_by_zero"
  by (simp add: compute_tendencies_x_def hv_coef_def)

lemma compute_tendencies_z_zero: "compute_tendencies_z e st fl td 0 h = Inl Division_by_zero"
  by (simp add: compute_tendencies_z_def hv_coef_def)

lemma compute_tendencies_x_other:
  assumes "compute_tendencies_x e st fl td dt h = Inr h'" "b \<noteq> fl" "b \<noteq> td"
  shows "h' (b, x) = h (b, x)"
  using assms
  by (auto simp: compute_tendencies_x_def tend_x_loop_other flux_x_loop_other
      split: sum.splits)

lemma compute_tendencies_z_other:
  assumes "compute_tendencies_z e st fl td dt h = Inr h'" "b \<noteq> fl" "b \<noteq> td"
  shows "h' (b, x) = h (b, x)"
  using assms
  by (auto simp: compute_tendencies_z_def tend_z_loop_other flux_z_loop_other
      split: sum.splits)

lemma compute_tendencies_x_val:
  assumes "compute_tendencies_x e st fl td dt h = Inr h'"
    and "st \<noteq> fl" "fl \<noteq> td" "ll < NUM_VARS" "k < nz e" "i < nx e"
  shows "h' (td, tidx e ll k i) = tend_x_val e dt (\<lambda>x. h (st, x)) ll k i"
proof -
  have dt: "dt \<noteq> 0" using assms(1) by (auto simp: compute_tendencies_x_def hv_coef_def split: if_splits)
  with assms(1) have "h' = tend_x_loop e fl td (flux_x_loop e st fl (- hv_beta * dx e / (16 * dt)) h)"
    by (simp add: compute_tendencies_x_Inr)
  then show ?thesis using assms(2-)
    by (simp add: tend_x_loop_val flux_x_loop_val tend_x_val_def)
qed

lemma compute_tendencies_z_val:
  assumes "compute_tendencies_z e st fl td dt h = Inr h'"
    and "st \<noteq> fl" "fl \<noteq> td" "st \<noteq> td" "ll < NUM_VARS" "k < nz e" "i < nx e"
  shows "h' (td, tidx e ll k i) = tend_z_val e dt (\<lambda>x. h (st, x)) ll k i"
proof -
  have dt: "dt \<noteq> 0" using assms(1) by (auto simp: compute_tendencies_z_def hv_coef_def split: if_splits)
  with assms(1) have "h' = tend_z_loop e st fl td (flux_z_loop e st fl (- hv_beta * dz e / (16 * dt)) h)"
    by (simp add: compute_tendencies_z_Inr)
  then show ?thesis using assms(2-)
    by (simp add: tend_z_loop_val flux_z_loop_val flux_z_loop_other tend_z_val_def)
qed

text \<open>
  Claim C10. Neither kernel writes to the state array it is given: whenever a kernel
  returns, every cell of every buffer other than the flux and the tendency array holds
  what it held before the call. The only writes go to \<open>fl\<close> and \<open>td\<close>.
\<close>

theorem compute_tendencies_frame:
  assumes "b \<noteq> fl" and "b \<noteq> td"
  shows "(\<forall>h'. compute_tendencies_x e st fl td dt h = Inr h' \<longrightarrow> h' (b, x) = h (b, x)) \<and>
         (\<forall>h'. compute_tendencies_z e st fl td dt h = Inr h' \<longrightarrow> h' (b, x) = h (b, x))"
  using assms compute_tendencies_x_other compute_tendencies_z_other by blast

theorem compute_tendencies_frame_witness:
  "State \<noteq> Flux \<and> State \<noteq> Tend \<and>
   (\<exists>h'. compute_tendencies_x env_inj State Flux Tend 1 heap_halo_cex = Inr h'
          \<and> h' (State, 11) = 1) \<and>
   (\<exists>h'. compute_tendencies_z env_inj State Flux Tend 1 heap_halo_cex = Inr h'
          \<and> h' (State, 11) = 1)"
proof -
  obtain hx where hx: "compute_tendencies_x env_inj State Flux Tend 1 heap_halo_cex = Inr hx"
    by (simp add: compute_tendencies_x_Inr)
  obtain hz where hz: "compute_tendencies_z env_inj State Flux Tend 1 heap_halo_cex = Inr hz"
    by (simp add: compute_tendencies_z_Inr)
  from compute_tendencies_frame[of State Flux Tend env_inj State 1 heap_halo_cex 11] hx hz
  have "hx (State, 11) = 1" "hz (State, 11) = 1" by (simp_all add: heap_halo_cex_def)
  with hx hz show ?thesis by simp
qed

subsection \<open>The state update\<close>

definition forcing_val :: "env \<Rightarrow> nat \<Rightarrow> nat \<Rightarrow> real" where
  "forcing_val e k i =
     (if data_spec_int e = DATA_SPEC_GRAVITY_WAVES
      then wpert_inline e k i * hy_dens_cell e (hs + k) else 0)"

definition update_cells :: "env \<Rightarrow> buffer \<Rightarrow> buffer \<Rightarrow> nat \<Rightarrow> nat \<Rightarrow> nat \<Rightarrow> (buffer \<times> nat) set" where
  "update_cells e so td ll k i = {(td, tidx e ID_WMOM k i), (so, sidx e ll (k + hs) (i + hs))}"

lemma update_body_frame:
  "y \<notin> update_cells e so td ll k i \<Longrightarrow> update_body e si so td dt ll k i g y = g y"
  by (simp add: update_body_def update_cells_def Let_def)

lemma update_body_out:
  assumes "so \<noteq> td" "si \<noteq> td" "k < nz e" "i < nx e"
  shows "update_body e si so td dt ll k i g (so, sidx e ll (k + hs) (i + hs))
     = g (si, sidx e ll (k + hs) (i + hs))
       + dt * (g (td, tidx e ll k i) + (if ll = ID_WMOM then forcing_val e k i else 0))"
  using assms by (simp add: update_body_def forcing_val_def Let_def tidx_eq_iff)

lemma update_body_tend:
  assumes "so \<noteq> td"
  shows "update_body e si so td dt ll k i g (td, tidx e ID_WMOM k i)
     = g (td, tidx e ID_WMOM k i) + forcing_val e k i"
  using assms by (simp add: update_body_def forcing_val_def Let_def)

lemma update_pass_frame:
  assumes "\<And>k i. k < nz e \<Longrightarrow> i < nx e \<Longrightarrow> y \<notin> update_cells e so td ll k i"
  shows "update_pass e si so td dt ll h y = h y"
  unfolding update_pass_def
  by (rule fold2_frame) (use assms update_body_frame in auto)

lemma update_pass_local:
  assumes "so \<noteq> td" "si \<noteq> td" "k < nz e" "i < nx e" "y \<in> update_cells e so td ll k i"
  shows "update_pass e si so td dt ll h y = update_body e si so td dt ll k i h y"
  unfolding update_pass_def
proof (rule fold2_local[where W = "update_cells e so td ll"
      and D = "\<lambda>k i. update_cells e so td ll k i
                 \<union> {(td, tidx e ll k i), (si, sidx e ll (k + hs) (i + hs))}"])
  fix a b :: nat and g g' :: heap
  assume ab: "a \<in> set [0..<nz e]" "b \<in> set [0..<nx e]"
    and "\<forall>y\<in>update_cells e so td ll a b \<union> {(td, tidx e ll a b), (si, sidx e ll (a + hs) (b + hs))}.
            g y = g' y"
  then show "\<forall>y\<in>update_cells e so td ll a b.
      update_body e si so td dt ll a b g y = update_body e si so td dt ll a b g' y"
    using assms(1,2) by (auto simp: update_cells_def update_body_out update_body_tend)
next
  fix a b a' b' :: nat
  assume "a \<in> set [0..<nz e]" "b \<in> set [0..<nx e]" "a' \<in> set [0..<nz e]" "b' \<in> set [0..<nx e]"
    "(a, b) \<noteq> (a', b')"
  then show "update_cells e so td ll a' b' \<inter> (update_cells e so td ll a b
      \<union> (update_cells e so td ll a b \<union> {(td, tidx e ll a b), (si, sidx e ll (a + hs) (b + hs))})) = {}"
    using assms(1,2) by (auto simp: update_cells_def tidx_eq_iff sidx_eq_iff hs_def)
qed (use assms update_body_frame in auto)

lemma update_pass_tend:
  assumes "so \<noteq> td" "si \<noteq> td" "k < nz e" "i < nx e"
  shows "update_pass e si so td dt ll' h (td, tidx e ll k i)
     = h (td, tidx e ll k i) + (if ll = ID_WMOM then forcing_val e k i else 0)"
proof (cases "ll = ID_WMOM")
  case True
  then show ?thesis
    using update_pass_local[OF assms, of "(td, tidx e ID_WMOM k i)" ll' dt h] assms(1)
    by (simp add: update_cells_def update_body_tend)
next
  case False
  have "update_pass e si so td dt ll' h (td, tidx e ll k i) = h (td, tidx e ll k i)"
    by (rule update_pass_frame) (use False assms in \<open>auto simp: update_cells_def tidx_eq_iff\<close>)
  with False show ?thesis by simp
qed

lemma update_pass_state:
  assumes "so \<noteq> td" "si \<noteq> td" "b \<noteq> td" "k < nz e" "i < nx e"
  shows "update_pass e si so td dt ll' h (b, sidx e ll (k + hs) (i + hs))
     = (if b = so \<and> ll = ll'
        then h (si, sidx e ll (k + hs) (i + hs))
             + dt * (h (td, tidx e ll k i) + (if ll = ID_WMOM then forcing_val e k i else 0))
        else h (b, sidx e ll (k + hs) (i + hs)))"
proof (cases "b = so \<and> ll = ll'")
  case True
  then show ?thesis
    using update_pass_local[OF assms(1,2,4,5), of "(so, sidx e ll (k + hs) (i + hs))" ll dt h] assms
    by (simp add: update_cells_def update_body_out)
next
  case False
  have "update_pass e si so td dt ll' h (b, sidx e ll (k + hs) (i + hs))
          = h (b, sidx e ll (k + hs) (i + hs))"
    by (rule update_pass_frame) (use False assms in \<open>auto simp: update_cells_def sidx_eq_iff hs_def\<close>)
  then show ?thesis by (simp only: False if_False)
qed

lemma update_loop_unroll:
  "update_loop e si so td dt h =
     update_pass e si so td dt ID_RHOT (update_pass e si so td dt ID_WMOM
       (update_pass e si so td dt ID_UMOM (update_pass e si so td dt ID_DENS h)))"
  by (simp add: update_loop_def NUM_VARS_def ID_DENS_def ID_UMOM_def ID_WMOM_def ID_RHOT_def
      upt_rec numeral_2_eq_2 numeral_3_eq_3)

lemma update_loop_state:
  assumes "so \<noteq> td" "si \<noteq> td" "ll < NUM_VARS" "k < nz e" "i < nx e"
  shows "update_loop e si so td dt h (so, sidx e ll (k + hs) (i + hs))
     = h (si, sidx e ll (k + hs) (i + hs))
       + dt * (h (td, tidx e ll k i) + (if ll = ID_WMOM then 3 * forcing_val e k i else 0))"
  using vars_cases[OF assms(3)] assms(1,2,4,5)
  by (auto simp: update_loop_unroll update_pass_state update_pass_tend distrib_left)

lemma update_loop_tend:
  assumes "so \<noteq> td" "si \<noteq> td" "k < nz e" "i < nx e"
  shows "update_loop e si so td dt h (td, tidx e ll k i)
     = h (td, tidx e ll k i) + (if ll = ID_WMOM then 4 * forcing_val e k i else 0)"
  using assms by (simp add: update_loop_unroll update_pass_tend)

lemma update_loop_frame:
  assumes "b \<noteq> td" "b = so \<longrightarrow> (\<forall>ll k i. ll < NUM_VARS \<longrightarrow> k < nz e \<longrightarrow> i < nx e \<longrightarrow> x \<noteq> sidx e ll (k + hs) (i + hs))"
  shows "update_loop e si so td dt h (b, x) = h (b, x)"
  unfolding update_loop_def
proof (rule fold_frame)
  fix ll and g :: heap assume "ll \<in> set [0..<NUM_VARS]"
  then have "ll < NUM_VARS" by simp
  then show "update_pass e si so td dt ll g (b, x) = g (b, x)"
    by (intro update_pass_frame) (use assms in \<open>auto simp: update_cells_def\<close>)
qed

subsection \<open>What the halo routines leave alone\<close>

definition halo_z_cells :: "env \<Rightarrow> buffer \<Rightarrow> nat \<Rightarrow> nat \<Rightarrow> (buffer \<times> nat) set" where
  "halo_z_cells e p ll i =
     {(p, sidx e ll 0 i), (p, sidx e ll 1 i),
      (p, sidx e ll (nz e + hs) i), (p, sidx e ll (nz e + hs + 1) i)}"

lemma halo_z_body_frame:
  assumes "y \<notin> halo_z_cells e p ll i"
  shows "halo_z_body e p ll i g y = g y"
proof -
  from assms have n: "y \<noteq> (p, sidx e ll 0 i)" "y \<noteq> (p, sidx e ll 1 i)"
    "y \<noteq> (p, sidx e ll (nz e + hs) i)" "y \<noteq> (p, sidx e ll (nz e + hs + 1) i)"
    by (simp_all add: halo_z_cells_def)
  consider (w) "ll = ID_WMOM" | (u) "ll \<noteq> ID_WMOM" "ll = ID_UMOM"
    | (o) "ll \<noteq> ID_WMOM" "ll \<noteq> ID_UMOM" by blast
  then show ?thesis
  proof cases
    case w
    show ?thesis unfolding halo_z_body_def Let_def if_P[OF w]
      by (simp only: fun_upd_other[OF n(1)] fun_upd_other[OF n(2)]
          fun_upd_other[OF n(3)] fun_upd_other[OF n(4)])
  next
    case u
    show ?thesis unfolding halo_z_body_def Let_def if_not_P[OF u(1)] if_P[OF u(2)]
      by (simp only: fun_upd_other[OF n(1)] fun_upd_other[OF n(2)]
          fun_upd_other[OF n(3)] fun_upd_other[OF n(4)])
  next
    case o
    show ?thesis unfolding halo_z_body_def Let_def if_not_P[OF o(1)] if_not_P[OF o(2)]
      by (simp only: fun_upd_other[OF n(1)] fun_upd_other[OF n(2)]
          fun_upd_other[OF n(3)] fun_upd_other[OF n(4)])
  qed
qed

lemma set_halo_values_z_frame:
  assumes "\<And>ll i. ll < NUM_VARS \<Longrightarrow> i < nx e + 2 * hs \<Longrightarrow> y \<notin> halo_z_cells e p ll i"
  shows "set_halo_values_z e p h y = h y"
  unfolding set_halo_values_z_def
  by (rule fold2_frame) (use assms halo_z_body_frame in auto)

lemma set_halo_values_x_frame:
  assumes "\<And>ll k. ll < NUM_VARS \<Longrightarrow> k < nz e \<Longrightarrow> y \<notin> halo_x_cells e p ll k"
  shows "set_halo_values_x e p h y = h y"
  using assms by (simp add: set_halo_values_x_def Let_def injection_loop_frame halo_x_loop_frame)

lemma set_halo_values_x_other: "b \<noteq> p \<Longrightarrow> set_halo_values_x e p h (b, x) = h (b, x)"
  by (rule set_halo_values_x_frame) (simp add: halo_x_cells_def)

lemma set_halo_values_z_other: "b \<noteq> p \<Longrightarrow> set_halo_values_z e p h (b, x) = h (b, x)"
  by (rule set_halo_values_z_frame) (simp add: halo_z_cells_def)

lemma set_halo_values_x_interior:
  assumes "k < nz e" "i < nx e"
  shows "set_halo_values_x e p h (b, sidx e ll (k + hs) (i + hs)) = h (b, sidx e ll (k + hs) (i + hs))"
  by (rule set_halo_values_x_frame) (use assms in \<open>auto simp: halo_x_cells_def sidx_eq_iff hs_def\<close>)

lemma set_halo_values_z_interior:
  assumes "k < nz e" "i < nx e"
  shows "set_halo_values_z e p h (b, sidx e ll (k + hs) (i + hs)) = h (b, sidx e ll (k + hs) (i + hs))"
  by (rule set_halo_values_z_frame) (use assms in \<open>auto simp: halo_z_cells_def sidx_eq_iff hs_def\<close>)

subsection \<open>The halo routines as functions of one array\<close>

lemma fold_sim:
  assumes "\<And>j g g'. j \<in> set js \<Longrightarrow> R g g' \<Longrightarrow> R (f j g) (f' j g')" and "R h h'"
  shows "R (fold f js h) (fold f' js h')"
  using assms by (induction js arbitrary: h h') simp_all

lemma fold2_sim:
  assumes "\<And>a b g g'. a \<in> set as \<Longrightarrow> b \<in> set bs \<Longrightarrow> R g g' \<Longrightarrow> R (f a b g) (f' a b g')"
    and "R h h'"
  shows "R (fold (\<lambda>a. fold (f a) bs) as h) (fold (\<lambda>a. fold (f' a) bs) as h')"
  by (rule fold_sim[where R = R], rule fold_sim[where R = R]) (use assms in auto)

definition same_array :: "buffer \<Rightarrow> heap \<Rightarrow> buffer \<Rightarrow> heap \<Rightarrow> bool" where
  "same_array p h q h' = (\<forall>x. h (p, x) = h' (q, x))"

lemma halo_x_body_same_array:
  assumes "same_array p g q g'"
  shows "same_array p (halo_x_body e p ll k g) q (halo_x_body e q ll k g')"
  using assms unfolding same_array_def halo_x_body_def Let_def
  by (simp add: if_distribR split del: if_split cong: if_cong)

lemma injection_body_same_array:
  assumes "same_array p g q g'"
  shows "same_array p (injection_body e p k i g) q (injection_body e q k i g')"
  using assms unfolding same_array_def injection_body_def Let_def
  by (simp add: if_distribR split del: if_split cong: if_cong)

lemma halo_z_body_same_array:
  assumes "same_array p g q g'"
  shows "same_array p (halo_z_body e p ll i g) q (halo_z_body e q ll i g')"
  using assms unfolding same_array_def halo_z_body_def Let_def
  by (simp add: if_distribR split del: if_split cong: if_cong)

lemma set_halo_values_x_same_array:
  assumes "same_array p h q h'"
  shows "same_array p (set_halo_values_x e p h) q (set_halo_values_x e q h')"
proof -
  have 1: "same_array p (halo_x_loop e p h) q (halo_x_loop e q h')"
    unfolding halo_x_loop_def
    by (rule fold2_sim[where R = "\<lambda>g g'. same_array p g q g'"])
       (use assms halo_x_body_same_array in auto)
  have 2: "same_array p (injection_loop e p (halo_x_loop e p h)) q
             (injection_loop e q (halo_x_loop e q h'))"
    unfolding injection_loop_def
    by (rule fold2_sim[where R = "\<lambda>g g'. same_array p g q g'"])
       (use 1 injection_body_same_array in auto)
  show ?thesis using 1 2 by (simp add: set_halo_values_x_def Let_def)
qed

lemma set_halo_values_z_same_array:
  assumes "same_array p h q h'"
  shows "same_array p (set_halo_values_z e p h) q (set_halo_values_z e q h')"
  unfolding set_halo_values_z_def
  by (rule fold2_sim[where R = "\<lambda>g g'. same_array p g q g'"])
     (use assms halo_z_body_same_array in auto)

subsection \<open>One stage\<close>

definition halo_x_array :: "env \<Rightarrow> (nat \<Rightarrow> real) \<Rightarrow> nat \<Rightarrow> real" where
  "halo_x_array e S = (\<lambda>x. set_halo_values_x e State (\<lambda>a. S (snd a)) (State, x))"

definition halo_z_array :: "env \<Rightarrow> (nat \<Rightarrow> real) \<Rightarrow> nat \<Rightarrow> real" where
  "halo_z_array e S = (\<lambda>x. set_halo_values_z e State (\<lambda>a. S (snd a)) (State, x))"

text \<open>\<open>RHS(S)\<close>: the tendencies the kernel of direction \<open>dir\<close> computes from the array
  \<open>S\<close> once the halo routine of that direction has run on it.\<close>

definition rhs_val :: "env \<Rightarrow> int \<Rightarrow> real \<Rightarrow> (nat \<Rightarrow> real) \<Rightarrow> nat \<Rightarrow> nat \<Rightarrow> nat \<Rightarrow> real" where
  "rhs_val e dir dt S =
     (if dir = DIR_X then tend_x_val e dt (halo_x_array e S) else tend_z_val e dt (halo_z_array e S))"

lemma halo_x_array_eq: "(\<lambda>x. set_halo_values_x e p h (p, x)) = halo_x_array e (\<lambda>x. h (p, x))"
proof -
  have "same_array p h State (\<lambda>a. h (p, snd a))" by (simp add: same_array_def)
  then have "same_array p (set_halo_values_x e p h) State
      (set_halo_values_x e State (\<lambda>a. h (p, snd a)))"
    by (rule set_halo_values_x_same_array)
  then show ?thesis by (simp add: same_array_def halo_x_array_def fun_eq_iff)
qed

lemma halo_z_array_eq: "(\<lambda>x. set_halo_values_z e p h (p, x)) = halo_z_array e (\<lambda>x. h (p, x))"
proof -
  have "same_array p h State (\<lambda>a. h (p, snd a))" by (simp add: same_array_def)
  then have "same_array p (set_halo_values_z e p h) State
      (set_halo_values_z e State (\<lambda>a. h (p, snd a)))"
    by (rule set_halo_values_z_same_array)
  then show ?thesis by (simp add: same_array_def halo_z_array_def fun_eq_iff)
qed


lemma halo_z_array_app: "set_halo_values_z e p h (p, x) = halo_z_array e (\<lambda>x. h (p, x)) x"
  using halo_z_array_eq[of e p h] by (simp add: fun_eq_iff)

definition rhs_heap :: "env \<Rightarrow> buffer \<Rightarrow> int \<Rightarrow> buffer \<Rightarrow> buffer \<Rightarrow> real \<Rightarrow> heap \<Rightarrow> heap" where
  "rhs_heap e sf dir fl td dt h =
     (if dir = DIR_X then
        tend_x_loop e fl td (flux_x_loop e sf fl (- hv_beta * dx e / (16 * dt))
          (set_halo_values_x e sf h))
      else
        tend_z_loop e sf fl td (flux_z_loop e sf fl (- hv_beta * dz e / (16 * dt))
          (set_halo_values_z e sf h)))"

lemma semi_discrete_step_Inr:
  assumes "dt \<noteq> 0" "dir = DIR_X \<or> dir = DIR_Z"
  shows "semi_discrete_step e si sf so dt dir fl td h
           = Inr (update_loop e si so td dt (rhs_heap e sf dir fl td dt h))"
  using assms
  by (auto simp: semi_discrete_step_def rhs_heap_def compute_tendencies_x_Inr
      compute_tendencies_z_Inr DIR_X_def DIR_Z_def)

lemma semi_discrete_step_zero:
  assumes "dir = DIR_X \<or> dir = DIR_Z"
  shows "semi_discrete_step e si sf so 0 dir fl td h = Inl Division_by_zero"
  using assms
  by (auto simp: semi_discrete_step_def compute_tendencies_x_zero compute_tendencies_z_zero
      DIR_X_def DIR_Z_def)

lemma rhs_heap_tend:
  assumes "sf \<noteq> fl" "fl \<noteq> td" "sf \<noteq> td" "ll < NUM_VARS" "k < nz e" "i < nx e"
  shows "rhs_heap e sf dir fl td dt h (td, tidx e ll k i) = rhs_val e dir dt (\<lambda>x. h (sf, x)) ll k i"
  using assms
  by (simp add: rhs_heap_def rhs_val_def tend_x_loop_val tend_z_loop_val flux_x_loop_val
      flux_z_loop_val flux_z_loop_other tend_x_val_def tend_z_val_def halo_x_array_eq
      halo_z_array_eq halo_z_array_app)

lemma rhs_heap_other:
  assumes "b \<noteq> fl" "b \<noteq> td"
  shows "rhs_heap e sf dir fl td dt h (b, x)
     = (if dir = DIR_X then set_halo_values_x e sf h (b, x) else set_halo_values_z e sf h (b, x))"
  using assms
  by (simp add: rhs_heap_def tend_x_loop_other tend_z_loop_other flux_x_loop_other
      flux_z_loop_other)

lemma rhs_heap_interior:
  assumes "b \<noteq> fl" "b \<noteq> td" "k < nz e" "i < nx e"
  shows "rhs_heap e sf dir fl td dt h (b, sidx e ll (k + hs) (i + hs))
     = h (b, sidx e ll (k + hs) (i + hs))"
  using assms
  by (simp add: rhs_heap_other set_halo_values_x_interior set_halo_values_z_interior)

text \<open>The cells of the output array that a stage writes, and what it writes there.\<close>

lemma semi_discrete_step_out:
  assumes "dt \<noteq> 0" "dir = DIR_X \<or> dir = DIR_Z"
    and "fl \<noteq> td" "si \<noteq> fl" "si \<noteq> td" "sf \<noteq> fl" "sf \<noteq> td" "so \<noteq> fl" "so \<noteq> td"
    and "ll < NUM_VARS" "k < nz e" "i < nx e"
  shows "\<exists>h'. semi_discrete_step e si sf so dt dir fl td h = Inr h' \<and>
     h' (so, sidx e ll (k + hs) (i + hs))
       = h (si, sidx e ll (k + hs) (i + hs))
         + dt * (rhs_val e dir dt (\<lambda>x. h (sf, x)) ll k i
                 + (if ll = ID_WMOM then 3 * forcing_val e k i else 0))"
  using assms
  by (simp add: semi_discrete_step_Inr update_loop_state rhs_heap_tend rhs_heap_interior)

subsection \<open>The gravity-waves forcing\<close>

definition env_gw :: env where
  "env_gw = \<lparr>nx_glob = 4, nz_glob = 5, sim_time = 1, output_freq = - 1, data_spec_int = 3,
     nx = 4, nz = 5, i_beg = 0, k_beg = 0, myrank = 0,
     hy_dens_cell = (\<lambda>_. 1), hy_dens_theta_cell = (\<lambda>_. 300),
     hy_dens_int = (\<lambda>_. 1), hy_dens_theta_int = (\<lambda>_. 300), hy_pressure_int = (\<lambda>_. 0)\<rparr>"

lemma halo_x_zero:
  assumes "data_spec_int e \<noteq> DATA_SPEC_INJECTION"
  shows "set_halo_values_x e p (\<lambda>_. 0) = (\<lambda>_. 0)"
proof -
  have "halo_x_loop e p (\<lambda>_. 0) = (\<lambda>_. 0)"
    unfolding halo_x_loop_def
    by (rule fold2_sim[where R = "\<lambda>g g'. g = (\<lambda>_. 0)" and f' = "\<lambda>a b g. g" and h' = "\<lambda>_. 0"])
       (auto simp: halo_x_body_def Let_def fun_eq_iff)
  with assms show ?thesis by (simp add: set_halo_values_x_def Let_def)
qed

lemma forcing_val_env_gw: "forcing_val env_gw 0 0 = 1 / 100"
  by (simp add: forcing_val_def wpert_inline_def env_gw_def DATA_SPEC_GRAVITY_WAVES_def
      dx_def dz_def xlen_def zlen_def hs_def Let_def pi_c_def)

lemma rhs_x_zero_env_gw: "rhs_val env_gw DIR_X 1 (\<lambda>_. 0) ID_WMOM 0 0 = 0"
proof -
  have "halo_x_array env_gw (\<lambda>_. 0) = (\<lambda>_. 0)"
    by (simp add: halo_x_array_def halo_x_zero env_gw_def DATA_SPEC_INJECTION_def)
  then show ?thesis
    by (simp add: rhs_val_def tend_x_val_def flux_x_cell_def Let_def)
qed

lemma gw_stage_values:
  "\<exists>h'. semi_discrete_step env_gw State State State_tmp 1 DIR_X Flux Tend (\<lambda>_. 0) = Inr h' \<and>
        h' (State_tmp, sidx env_gw ID_WMOM hs hs) = 3 / 100 \<and>
        h' (Tend, tidx env_gw ID_WMOM 0 0) = 4 / 100"
proof -
  have k: "0 < nz env_gw" "0 < nx env_gw" by (simp_all add: env_gw_def)
  have 1: "semi_discrete_step env_gw State State State_tmp 1 DIR_X Flux Tend (\<lambda>_. 0)
      = Inr (update_loop env_gw State State_tmp Tend 1 (rhs_heap env_gw State DIR_X Flux Tend 1 (\<lambda>_. 0)))"
    by (rule semi_discrete_step_Inr) simp_all
  have t: "rhs_heap env_gw State DIR_X Flux Tend 1 (\<lambda>_. 0) (Tend, tidx env_gw ID_WMOM 0 0) = 0"
    using k by (simp add: rhs_heap_tend rhs_x_zero_env_gw)
  have s: "rhs_heap env_gw State DIR_X Flux Tend 1 (\<lambda>_. 0) (State, sidx env_gw ID_WMOM hs hs) = 0"
    using k rhs_heap_interior[where k = 0 and i = 0 and e = env_gw and b = State and fl = Flux
        and td = Tend and ll = ID_WMOM and sf = State and dir = DIR_X and dt = 1 and h = "\<lambda>_. 0"]
    by simp
  have 2: "update_loop env_gw State State_tmp Tend 1 (rhs_heap env_gw State DIR_X Flux Tend 1 (\<lambda>_. 0))
      (State_tmp, sidx env_gw ID_WMOM hs hs) = 3 / 100"
    using k update_loop_state[where k = 0 and i = 0 and e = env_gw and so = State_tmp
        and si = State and td = Tend and ll = ID_WMOM and dt = 1
        and h = "rhs_heap env_gw State DIR_X Flux Tend 1 (\<lambda>_. 0)"]
    by (simp add: t s forcing_val_env_gw)
  have 3: "update_loop env_gw State State_tmp Tend 1 (rhs_heap env_gw State DIR_X Flux Tend 1 (\<lambda>_. 0))
      (Tend, tidx env_gw ID_WMOM 0 0) = 4 / 100"
    using k update_loop_tend[where k = 0 and i = 0 and e = env_gw and so = State_tmp
        and si = State and td = Tend and ll = ID_WMOM and dt = 1
        and h = "rhs_heap env_gw State DIR_X Flux Tend 1 (\<lambda>_. 0)"]
    by (simp add: t forcing_val_env_gw)
  show ?thesis using 1 2 3 by simp
qed

text \<open>
  Claim C4 (the code differs). On a \<open>4 \<times> 5\<close> grid the cell \<open>k = 0\<close>, \<open>i = 0\<close> is centred at
  \<open>(xlen/8, 1000)\<close>, so \<open>wpert = 0.01\<close> there; with \<open>hy_dens_cell = 1\<close>, the zero state and
  \<open>dt = 1\<close> the kernel's own tendency is zero, and one contribution \<open>wpert * hy_dens_cell\<close>
  would leave \<open>0.01\<close> in the state. The stage leaves \<open>0.03\<close> in the state and \<open>0.04\<close> in
  \<^verbatim>\<open>tend\<close>: the forcing sits inside the loop over \<^verbatim>\<open>ll\<close>, so it has been added three
  times when the \<^verbatim>\<open>WMOM\<close> cell is written and four times when the loop ends.
\<close>

theorem gravity_waves_forcing_added_per_variable:
  "\<exists>h'. semi_discrete_step env_gw State State State_tmp 1 DIR_X Flux Tend (\<lambda>_. 0) = Inr h' \<and>
        h' (State_tmp, sidx env_gw ID_WMOM hs hs) = 3 / 100 \<and>
        h' (Tend, tidx env_gw ID_WMOM 0 0) = 4 / 100"
  by (rule gw_stage_values)

subsection \<open>A whole step as two sweeps\<close>

definition sweep ::
  "env \<Rightarrow> buffer \<Rightarrow> buffer \<Rightarrow> buffer \<Rightarrow> buffer \<Rightarrow> real \<Rightarrow> int \<Rightarrow> (heap \<Rightarrow> error + heap) list" where
  "sweep e st stt fl td dt dir =
     [semi_discrete_step e st st stt (dt / 3) dir fl td,
      semi_discrete_step e st stt stt (dt / 2) dir fl td,
      semi_discrete_step e st stt st (dt / 1) dir fl td]"

lemma run_stages_append:
  "run_stages (fs @ gs) h = (case run_stages fs h of Inl err \<Rightarrow> Inl err | Inr h' \<Rightarrow> run_stages gs h')"
  by (induction fs arbitrary: h) (auto split: sum.splits)

lemma perform_timestep_sweeps:
  "perform_timestep e st stt fl td dt (h, ds) =
     (case run_stages (if ds \<noteq> 0
                       then sweep e st stt fl td dt DIR_X @ sweep e st stt fl td dt DIR_Z
                       else sweep e st stt fl td dt DIR_Z @ sweep e st stt fl td dt DIR_X) h of
        Inl err \<Rightarrow> Inl err
      | Inr h' \<Rightarrow> Inr (h', if ds \<noteq> 0 then 0 else 1))"
  by (simp add: perform_timestep_def sweep_def)








subsection \<open>What the periodic copy leaves in the halo columns\<close>

lemma halo_x_loop_local:
  assumes "2 \<le> nx e" "ll < NUM_VARS" "k < nz e" "y \<in> halo_x_cells e p ll k"
  shows "halo_x_loop e p h y = halo_x_body e p ll k h y"
  unfolding halo_x_loop_def
proof (rule fold2_local[where W = "halo_x_cells e p" and D = "halo_x_srcs e p"])
  fix a b a' b' :: nat
  assume "a \<in> set [0..<NUM_VARS]" "b \<in> set [0..<nz e]" "a' \<in> set [0..<NUM_VARS]"
    "b' \<in> set [0..<nz e]" "(a, b) \<noteq> (a', b')"
  then show "halo_x_cells e p a' b' \<inter> (halo_x_cells e p a b \<union> halo_x_srcs e p a b) = {}"
    using halo_x_cells_disjoint[of b e b' a a' p] halo_x_cells_srcs_disjoint[OF assms(1), of b b' p a' a]
    by auto
qed (use assms halo_x_body_frame halo_x_body_dep[OF assms(1)] in auto)

lemma halo_x_loop_val:
  assumes "2 \<le> nx e" "ll < NUM_VARS" "k < nz e"
  shows "halo_x_loop e p h (p, sidx e ll (k + hs) 0) = h (p, sidx e ll (k + hs) (nx e + hs - 2))"
    and "halo_x_loop e p h (p, sidx e ll (k + hs) 1) = h (p, sidx e ll (k + hs) (nx e + hs - 1))"
    and "halo_x_loop e p h (p, sidx e ll (k + hs) (nx e + hs)) = h (p, sidx e ll (k + hs) hs)"
    and "halo_x_loop e p h (p, sidx e ll (k + hs) (nx e + hs + 1)) = h (p, sidx e ll (k + hs) (hs + 1))"
proof -
  have c: "(p, sidx e ll (k + hs) 0) \<in> halo_x_cells e p ll k"
    "(p, sidx e ll (k + hs) 1) \<in> halo_x_cells e p ll k"
    "(p, sidx e ll (k + hs) (nx e + hs)) \<in> halo_x_cells e p ll k"
    "(p, sidx e ll (k + hs) (nx e + hs + 1)) \<in> halo_x_cells e p ll k"
    by (simp_all add: halo_x_cells_def)
  have n: "sidx e ll (k + hs) 0 \<noteq> sidx e ll (k + hs) 1"
    "sidx e ll (k + hs) 0 \<noteq> sidx e ll (k + hs) (nx e + hs)"
    "sidx e ll (k + hs) 0 \<noteq> sidx e ll (k + hs) (nx e + hs + 1)"
    "sidx e ll (k + hs) 1 \<noteq> sidx e ll (k + hs) (nx e + hs)"
    "sidx e ll (k + hs) 1 \<noteq> sidx e ll (k + hs) (nx e + hs + 1)"
    "sidx e ll (k + hs) (nx e + hs) \<noteq> sidx e ll (k + hs) (nx e + hs + 1)"
    "sidx e ll (k + hs) (nx e + hs - 1) \<noteq> sidx e ll (k + hs) 0"
    "sidx e ll (k + hs) hs \<noteq> sidx e ll (k + hs) 0"
    "sidx e ll (k + hs) hs \<noteq> sidx e ll (k + hs) 1"
    "sidx e ll (k + hs) (hs + 1) \<noteq> sidx e ll (k + hs) 0"
    "sidx e ll (k + hs) (hs + 1) \<noteq> sidx e ll (k + hs) 1"
    "sidx e ll (k + hs) (hs + 1) \<noteq> sidx e ll (k + hs) (nx e + hs)"
    using assms by (simp_all add: sidx_eq_iff hs_def)
  show "halo_x_loop e p h (p, sidx e ll (k + hs) 0) = h (p, sidx e ll (k + hs) (nx e + hs - 2))"
    unfolding halo_x_loop_local[OF assms c(1)] halo_x_body_def Let_def
    using n n[symmetric] by simp
  show "halo_x_loop e p h (p, sidx e ll (k + hs) 1) = h (p, sidx e ll (k + hs) (nx e + hs - 1))"
    unfolding halo_x_loop_local[OF assms c(2)] halo_x_body_def Let_def
    using n n[symmetric] by simp
  show "halo_x_loop e p h (p, sidx e ll (k + hs) (nx e + hs)) = h (p, sidx e ll (k + hs) hs)"
    unfolding halo_x_loop_local[OF assms c(3)] halo_x_body_def Let_def
    using n n[symmetric] by simp
  show "halo_x_loop e p h (p, sidx e ll (k + hs) (nx e + hs + 1)) = h (p, sidx e ll (k + hs) (hs + 1))"
    unfolding halo_x_loop_local[OF assms c(4)] halo_x_body_def Let_def
    using n n[symmetric] by simp
qed

subsection \<open>Aliased and alias-free stage calls\<close>

definition copy_to_third :: "buffer \<Rightarrow> heap \<Rightarrow> heap" where
  "copy_to_third p h = (\<lambda>a. if fst a = Third then h (p, snd a) else h a)"

definition env_2x1 :: env where
  "env_2x1 = \<lparr>nx_glob = 2, nz_glob = 1, sim_time = 1, output_freq = - 1, data_spec_int = 2,
     nx = 2, nz = 1, i_beg = 0, k_beg = 0, myrank = 0,
     hy_dens_cell = (\<lambda>_. 1), hy_dens_theta_cell = (\<lambda>_. 300),
     hy_dens_int = (\<lambda>_. 1), hy_dens_theta_int = (\<lambda>_. 300), hy_pressure_int = (\<lambda>_. 0)\<rparr>"

definition heap_alias :: heap where
  "heap_alias = (\<lambda>_. 0)((State, sidx env_2x1 ID_DENS hs 2) := 1,
                        (State_tmp, sidx env_2x1 ID_DENS hs 2) := 1)"

lemma forcing_val_not_gw:
  "data_spec_int e \<noteq> DATA_SPEC_GRAVITY_WAVES \<Longrightarrow> forcing_val e k i = 0"
  by (simp add: forcing_val_def)

lemma stage_alias_free:
  assumes "dt \<noteq> 0" "dir = DIR_X \<or> dir = DIR_Z"
    and "fl \<noteq> td" "si \<noteq> fl" "si \<noteq> td" "sf \<noteq> fl" "sf \<noteq> td" "so \<noteq> fl" "so \<noteq> td"
    and "si' \<noteq> fl" "si' \<noteq> td" "sf' \<noteq> fl" "sf' \<noteq> td"
    and "ll < NUM_VARS" "k < nz e" "i < nx e"
    and "g (si', sidx e ll (k + hs) (i + hs)) = h (si, sidx e ll (k + hs) (i + hs))"
    and "(\<lambda>x. g (sf', x)) = (\<lambda>x. h (sf, x))"
  shows "\<exists>h' g'. semi_discrete_step e si sf so dt dir fl td h = Inr h' \<and>
           semi_discrete_step e si' sf' so dt dir fl td g = Inr g' \<and>
           h' (so, sidx e ll (k + hs) (i + hs)) = g' (so, sidx e ll (k + hs) (i + hs)) \<and>
           (data_spec_int e \<noteq> DATA_SPEC_GRAVITY_WAVES \<longrightarrow>
              h' (so, sidx e ll (k + hs) (i + hs))
                = h (si, sidx e ll (k + hs) (i + hs))
                  + dt * rhs_val e dir dt (\<lambda>x. h (sf, x)) ll k i)"
proof -
  from semi_discrete_step_out[OF assms(1-9,14-16), of h] obtain h'
    where h': "semi_discrete_step e si sf so dt dir fl td h = Inr h'"
      "h' (so, sidx e ll (k + hs) (i + hs)) = h (si, sidx e ll (k + hs) (i + hs))
         + dt * (rhs_val e dir dt (\<lambda>x. h (sf, x)) ll k i
                 + (if ll = ID_WMOM then 3 * forcing_val e k i else 0))" by blast
  from semi_discrete_step_out[OF assms(1-3,10-13,8,9,14-16), of g] obtain g'
    where g': "semi_discrete_step e si' sf' so dt dir fl td g = Inr g'"
      "g' (so, sidx e ll (k + hs) (i + hs)) = g (si', sidx e ll (k + hs) (i + hs))
         + dt * (rhs_val e dir dt (\<lambda>x. g (sf', x)) ll k i
                 + (if ll = ID_WMOM then 3 * forcing_val e k i else 0))" by blast
  from h' g' assms(17,18) show ?thesis by (simp add: forcing_val_not_gw)
qed

lemma rhs_evaluation_interior:
  assumes "b \<noteq> fl" "b \<noteq> td" "k < nz e" "i < nx e"
    and "compute_tendencies_x e sf fl td dt (set_halo_values_x e sf h) = Inr g
         \<or> compute_tendencies_z e sf fl td dt (set_halo_values_z e sf h) = Inr g"
  shows "g (b, sidx e ll (k + hs) (i + hs)) = h (b, sidx e ll (k + hs) (i + hs))"
  using assms compute_tendencies_x_other[of e sf fl td dt _ g b]
    compute_tendencies_z_other[of e sf fl td dt _ g b]
  by (auto simp: set_halo_values_x_interior set_halo_values_z_interior)

text \<open>
  Claim C7, amended. For \<open>dt \<noteq> 0\<close> and either direction, each of the three aliasings the
  integrator uses gives, at every interior cell of the output array, the value the call
  gives when the aliased argument is replaced by a distinct buffer holding a copy
  (\<open>Third\<close>); for every scenario but gravity waves that value is
  \<open>state_init + dt * RHS(state_forcing)\<close>. The RHS evaluation (halo routine, then kernel)
  leaves every interior cell of both state arrays as it was. Halo cells are another
  matter: the halo routine rewrites the halo cells of \<^verbatim>\<open>state_forcing\<close>, hence of
  \<^verbatim>\<open>state_init\<close> or \<^verbatim>\<open>state_out\<close> when they alias it.
\<close>

theorem semi_discrete_step_aliasing:
  assumes "dt \<noteq> 0" and "dir = DIR_X \<or> dir = DIR_Z"
    and "ll < NUM_VARS" and "k < nz e" and "i < nx e"
  shows
    "(\<exists>h' g'. semi_discrete_step e State State State_tmp dt dir Flux Tend h = Inr h' \<and>
        semi_discrete_step e State Third State_tmp dt dir Flux Tend (copy_to_third State h) = Inr g' \<and>
        h' (State_tmp, sidx e ll (k + hs) (i + hs)) = g' (State_tmp, sidx e ll (k + hs) (i + hs)) \<and>
        (data_spec_int e \<noteq> DATA_SPEC_GRAVITY_WAVES \<longrightarrow>
           h' (State_tmp, sidx e ll (k + hs) (i + hs))
             = h (State, sidx e ll (k + hs) (i + hs))
               + dt * rhs_val e dir dt (\<lambda>x. h (State, x)) ll k i)) \<and>
     (\<exists>h' g'. semi_discrete_step e State State_tmp State_tmp dt dir Flux Tend h = Inr h' \<and>
        semi_discrete_step e State Third State_tmp dt dir Flux Tend (copy_to_third State_tmp h) = Inr g' \<and>
        h' (State_tmp, sidx e ll (k + hs) (i + hs)) = g' (State_tmp, sidx e ll (k + hs) (i + hs)) \<and>
        (data_spec_int e \<noteq> DATA_SPEC_GRAVITY_WAVES \<longrightarrow>
           h' (State_tmp, sidx e ll (k + hs) (i + hs))
             = h (State, sidx e ll (k + hs) (i + hs))
               + dt * rhs_val e dir dt (\<lambda>x. h (State_tmp, x)) ll k i)) \<and>
     (\<exists>h' g'. semi_discrete_step e State State_tmp State dt dir Flux Tend h = Inr h' \<and>
        semi_discrete_step e Third State_tmp State dt dir Flux Tend (copy_to_third State h) = Inr g' \<and>
        h' (State, sidx e ll (k + hs) (i + hs)) = g' (State, sidx e ll (k + hs) (i + hs)) \<and>
        (data_spec_int e \<noteq> DATA_SPEC_GRAVITY_WAVES \<longrightarrow>
           h' (State, sidx e ll (k + hs) (i + hs))
             = h (State, sidx e ll (k + hs) (i + hs))
               + dt * rhs_val e dir dt (\<lambda>x. h (State_tmp, x)) ll k i)) \<and>
     (\<forall>sf g. compute_tendencies_x e sf Flux Tend dt (set_halo_values_x e sf h) = Inr g
              \<or> compute_tendencies_z e sf Flux Tend dt (set_halo_values_z e sf h) = Inr g \<longrightarrow>
        g (State, sidx e ll (k + hs) (i + hs)) = h (State, sidx e ll (k + hs) (i + hs)) \<and>
        g (State_tmp, sidx e ll (k + hs) (i + hs)) = h (State_tmp, sidx e ll (k + hs) (i + hs)))"
proof (intro conjI)
  show "\<exists>h' g'. semi_discrete_step e State State State_tmp dt dir Flux Tend h = Inr h' \<and>
        semi_discrete_step e State Third State_tmp dt dir Flux Tend (copy_to_third State h) = Inr g' \<and>
        h' (State_tmp, sidx e ll (k + hs) (i + hs)) = g' (State_tmp, sidx e ll (k + hs) (i + hs)) \<and>
        (data_spec_int e \<noteq> DATA_SPEC_GRAVITY_WAVES \<longrightarrow>
           h' (State_tmp, sidx e ll (k + hs) (i + hs))
             = h (State, sidx e ll (k + hs) (i + hs))
               + dt * rhs_val e dir dt (\<lambda>x. h (State, x)) ll k i)"
    using stage_alias_free[where si = State and sf = State and so = State_tmp and si' = State
        and sf' = Third and fl = Flux and td = Tend and h = h and g = "copy_to_third State h",
        OF assms(1,2) _ _ _ _ _ _ _ _ _ _ _ assms(3-5)]
    by (simp add: copy_to_third_def)
  show "\<exists>h' g'. semi_discrete_step e State State_tmp State_tmp dt dir Flux Tend h = Inr h' \<and>
        semi_discrete_step e State Third State_tmp dt dir Flux Tend (copy_to_third State_tmp h) = Inr g' \<and>
        h' (State_tmp, sidx e ll (k + hs) (i + hs)) = g' (State_tmp, sidx e ll (k + hs) (i + hs)) \<and>
        (data_spec_int e \<noteq> DATA_SPEC_GRAVITY_WAVES \<longrightarrow>
           h' (State_tmp, sidx e ll (k + hs) (i + hs))
             = h (State, sidx e ll (k + hs) (i + hs))
               + dt * rhs_val e dir dt (\<lambda>x. h (State_tmp, x)) ll k i)"
    using stage_alias_free[where si = State and sf = State_tmp and so = State_tmp and si' = State
        and sf' = Third and fl = Flux and td = Tend and h = h and g = "copy_to_third State_tmp h",
        OF assms(1,2) _ _ _ _ _ _ _ _ _ _ _ assms(3-5)]
    by (simp add: copy_to_third_def)
  show "\<exists>h' g'. semi_discrete_step e State State_tmp State dt dir Flux Tend h = Inr h' \<and>
        semi_discrete_step e Third State_tmp State dt dir Flux Tend (copy_to_third State h) = Inr g' \<and>
        h' (State, sidx e ll (k + hs) (i + hs)) = g' (State, sidx e ll (k + hs) (i + hs)) \<and>
        (data_spec_int e \<noteq> DATA_SPEC_GRAVITY_WAVES \<longrightarrow>
           h' (State, sidx e ll (k + hs) (i + hs))
             = h (State, sidx e ll (k + hs) (i + hs))
               + dt * rhs_val e dir dt (\<lambda>x. h (State_tmp, x)) ll k i)"
    using stage_alias_free[where si = State and sf = State_tmp and so = State and si' = Third
        and sf' = State_tmp and fl = Flux and td = Tend and h = h and g = "copy_to_third State h",
        OF assms(1,2) _ _ _ _ _ _ _ _ _ _ _ assms(3-5)]
    by (simp add: copy_to_third_def)
  show "\<forall>sf g. compute_tendencies_x e sf Flux Tend dt (set_halo_values_x e sf h) = Inr g
              \<or> compute_tendencies_z e sf Flux Tend dt (set_halo_values_z e sf h) = Inr g \<longrightarrow>
        g (State, sidx e ll (k + hs) (i + hs)) = h (State, sidx e ll (k + hs) (i + hs)) \<and>
        g (State_tmp, sidx e ll (k + hs) (i + hs)) = h (State_tmp, sidx e ll (k + hs) (i + hs))"
    using rhs_evaluation_interior[where fl = Flux and td = Tend, OF _ _ assms(4,5)]
    by (metis buffer.distinct(3,5,9,11))
qed


theorem semi_discrete_step_aliasing_witness:
  "(1::real) \<noteq> 0 \<and> ID_DENS < NUM_VARS \<and> 0 < nz env_2x1 \<and> 0 < nx env_2x1 \<and>
   (\<exists>h' g'. semi_discrete_step env_2x1 State State State_tmp 1 DIR_X Flux Tend heap_alias = Inr h' \<and>
      semi_discrete_step env_2x1 State Third State_tmp 1 DIR_X Flux Tend
        (copy_to_third State heap_alias) = Inr g' \<and>
      h' (State_tmp, sidx env_2x1 ID_DENS (0 + hs) (0 + hs))
        = g' (State_tmp, sidx env_2x1 ID_DENS (0 + hs) (0 + hs)) \<and>
      h' (State_tmp, sidx env_2x1 ID_DENS (0 + hs) (0 + hs))
        = heap_alias (State, sidx env_2x1 ID_DENS (0 + hs) (0 + hs))
          + 1 * rhs_val env_2x1 DIR_X 1 (\<lambda>x. heap_alias (State, x)) ID_DENS 0 0)"
proof -
  have p: "(1::real) \<noteq> 0" "DIR_X = DIR_X \<or> DIR_X = DIR_Z" "ID_DENS < NUM_VARS"
    "0 < nz env_2x1" "0 < nx env_2x1"
    by (simp_all add: env_2x1_def)
  have d: "data_spec_int env_2x1 \<noteq> DATA_SPEC_GRAVITY_WAVES"
    by (simp add: env_2x1_def DATA_SPEC_GRAVITY_WAVES_def)
  from semi_discrete_step_aliasing[OF p, of heap_alias] d p show ?thesis by blast
qed

lemma set_halo_values_x_left:
  assumes "2 \<le> nx e" "ll < NUM_VARS" "k < nz e" "data_spec_int e \<noteq> DATA_SPEC_INJECTION"
  shows "set_halo_values_x e p h (p, sidx e ll (k + hs) 0) = h (p, sidx e ll (k + hs) (nx e + hs - 2))"
  using assms by (simp add: set_halo_values_x_def Let_def halo_x_loop_val)

lemma semi_discrete_step_x_noninterior:
  assumes "dt \<noteq> 0" "b \<noteq> fl" "b \<noteq> td"
    and "\<And>ll k i. ll < NUM_VARS \<Longrightarrow> k < nz e \<Longrightarrow> i < nx e \<Longrightarrow> x \<noteq> sidx e ll (k + hs) (i + hs)"
  shows "\<exists>h'. semi_discrete_step e si sf so dt DIR_X fl td h = Inr h' \<and>
              h' (b, x) = set_halo_values_x e sf h (b, x)"
  using assms
  by (simp add: semi_discrete_step_Inr update_loop_frame rhs_heap_other)

theorem aliased_stage_rewrites_halo_cells:
  "(\<exists>g. compute_tendencies_x env_2x1 State Flux Tend 1 (set_halo_values_x env_2x1 State heap_alias) = Inr g
       \<and> g (State, sidx env_2x1 ID_DENS hs 0) = 1
       \<and> heap_alias (State, sidx env_2x1 ID_DENS hs 0) = 0) \<and>
   (\<exists>h' g'. semi_discrete_step env_2x1 State State_tmp State_tmp 1 DIR_X Flux Tend heap_alias = Inr h' \<and>
      semi_discrete_step env_2x1 State Third State_tmp 1 DIR_X Flux Tend
        (copy_to_third State_tmp heap_alias) = Inr g' \<and>
      h' (State_tmp, sidx env_2x1 ID_DENS hs 0) = 1 \<and>
      g' (State_tmp, sidx env_2x1 ID_DENS hs 0) = 0)"
proof -
  have e: "2 \<le> nx env_2x1" "0 < nz env_2x1" "nx env_2x1 + hs - 2 = 2"
    "data_spec_int env_2x1 \<noteq> DATA_SPEC_INJECTION"
    by (simp_all add: env_2x1_def hs_def DATA_SPEC_INJECTION_def)
  have ne: "sidx env_2x1 ID_DENS hs 0 \<noteq> sidx env_2x1 ID_DENS hs 2"
    by (simp add: sidx_def env_2x1_def hs_def)
  have ni: "\<And>ll k i. ll < NUM_VARS \<Longrightarrow> k < nz env_2x1 \<Longrightarrow> i < nx env_2x1 \<Longrightarrow>
      sidx env_2x1 ID_DENS hs 0 \<noteq> sidx env_2x1 ll (k + hs) (i + hs)"
    by (simp add: sidx_eq_iff hs_def)
  have hl: "\<And>p h. set_halo_values_x env_2x1 p h (p, sidx env_2x1 ID_DENS hs 0)
      = h (p, sidx env_2x1 ID_DENS hs 2)"
    using set_halo_values_x_left[OF e(1) _ e(2) e(4), of ID_DENS] e(3) by simp
  obtain g where g: "compute_tendencies_x env_2x1 State Flux Tend 1
      (set_halo_values_x env_2x1 State heap_alias) = Inr g"
    by (simp add: compute_tendencies_x_Inr)
  then have "g (State, sidx env_2x1 ID_DENS hs 0) = 1"
    using compute_tendencies_x_other[OF g, of State "sidx env_2x1 ID_DENS hs 0"]
    by (simp add: hl heap_alias_def)
  moreover have "heap_alias (State, sidx env_2x1 ID_DENS hs 0) = 0"
    using ne by (simp add: heap_alias_def)
  moreover obtain h' where h': "semi_discrete_step env_2x1 State State_tmp State_tmp 1 DIR_X Flux Tend heap_alias = Inr h'"
      "h' (State_tmp, sidx env_2x1 ID_DENS hs 0)
         = set_halo_values_x env_2x1 State_tmp heap_alias (State_tmp, sidx env_2x1 ID_DENS hs 0)"
    using semi_discrete_step_x_noninterior[where b = State_tmp and fl = Flux and td = Tend
        and dt = 1 and e = env_2x1 and x = "sidx env_2x1 ID_DENS hs 0" and h = heap_alias
        and si = State and sf = State_tmp and so = State_tmp] ni by auto
  moreover obtain g' where g': "semi_discrete_step env_2x1 State Third State_tmp 1 DIR_X Flux Tend
        (copy_to_third State_tmp heap_alias) = Inr g'"
      "g' (State_tmp, sidx env_2x1 ID_DENS hs 0)
         = set_halo_values_x env_2x1 Third (copy_to_third State_tmp heap_alias)
             (State_tmp, sidx env_2x1 ID_DENS hs 0)"
    using semi_discrete_step_x_noninterior[where b = State_tmp and fl = Flux and td = Tend
        and dt = 1 and e = env_2x1 and x = "sidx env_2x1 ID_DENS hs 0"
        and h = "copy_to_third State_tmp heap_alias"
        and si = State and sf = Third and so = State_tmp] ni by auto
  moreover have "set_halo_values_x env_2x1 State_tmp heap_alias (State_tmp, sidx env_2x1 ID_DENS hs 0) = 1"
    by (simp add: hl heap_alias_def)
  moreover have "set_halo_values_x env_2x1 Third (copy_to_third State_tmp heap_alias)
             (State_tmp, sidx env_2x1 ID_DENS hs 0) = 0"
    using ne by (simp add: set_halo_values_x_other copy_to_third_def heap_alias_def)
  ultimately show ?thesis using g by simp
qed

subsection \<open>A step as two Runge-Kutta sweeps\<close>

text \<open>\<open>C = A + dts * RHS(B)\<close> on the interior cells of the arrays.\<close>

definition stage_rel ::
  "env \<Rightarrow> int \<Rightarrow> real \<Rightarrow> (nat \<Rightarrow> real) \<Rightarrow> (nat \<Rightarrow> real) \<Rightarrow> (nat \<Rightarrow> real) \<Rightarrow> bool" where
  "stage_rel e dir dts A B C =
     (\<forall>ll k i. ll < NUM_VARS \<longrightarrow> k < nz e \<longrightarrow> i < nx e \<longrightarrow>
        C (sidx e ll (k + hs) (i + hs))
          = A (sidx e ll (k + hs) (i + hs)) + dts * rhs_val e dir dts B ll k i)"

text \<open>
  One dimension sweep from \<open>Q\<close> to \<open>Q'\<close>: \<open>Q1 = Q + (dt/3) RHS(Q)\<close>,
  \<open>Q2 = Q + (dt/2) RHS(Q1)\<close>, \<open>Q' = Q + (dt/1) RHS(Q2)\<close>.
\<close>

definition sweep_rel :: "env \<Rightarrow> int \<Rightarrow> real \<Rightarrow> (nat \<Rightarrow> real) \<Rightarrow> (nat \<Rightarrow> real) \<Rightarrow> bool" where
  "sweep_rel e dir dt Q Q' =
     (\<exists>Q1 Q2. stage_rel e dir (dt / 3) Q Q Q1 \<and> stage_rel e dir (dt / 2) Q Q1 Q2
              \<and> stage_rel e dir (dt / 1) Q Q2 Q')"

lemma semi_discrete_step_facts:
  assumes "dt \<noteq> 0" "dir = DIR_X \<or> dir = DIR_Z"
    and "fl \<noteq> td" "si \<noteq> fl" "si \<noteq> td" "sf \<noteq> fl" "sf \<noteq> td" "so \<noteq> fl" "so \<noteq> td"
  obtains h' where "semi_discrete_step e si sf so dt dir fl td h = Inr h'"
    and "\<And>ll k i. ll < NUM_VARS \<Longrightarrow> k < nz e \<Longrightarrow> i < nx e \<Longrightarrow>
           h' (so, sidx e ll (k + hs) (i + hs))
             = h (si, sidx e ll (k + hs) (i + hs))
               + dt * (rhs_val e dir dt (\<lambda>x. h (sf, x)) ll k i
                       + (if ll = ID_WMOM then 3 * forcing_val e k i else 0))"
    and "\<And>b ll k i. b \<noteq> fl \<Longrightarrow> b \<noteq> td \<Longrightarrow> b \<noteq> so \<Longrightarrow> k < nz e \<Longrightarrow> i < nx e \<Longrightarrow>
           h' (b, sidx e ll (k + hs) (i + hs)) = h (b, sidx e ll (k + hs) (i + hs))"
proof -
  let ?h' = "update_loop e si so td dt (rhs_heap e sf dir fl td dt h)"
  have 1: "semi_discrete_step e si sf so dt dir fl td h = Inr ?h'"
    using assms(1,2) by (rule semi_discrete_step_Inr)
  have 2: "\<And>ll k i. ll < NUM_VARS \<Longrightarrow> k < nz e \<Longrightarrow> i < nx e \<Longrightarrow>
           ?h' (so, sidx e ll (k + hs) (i + hs))
             = h (si, sidx e ll (k + hs) (i + hs))
               + dt * (rhs_val e dir dt (\<lambda>x. h (sf, x)) ll k i
                       + (if ll = ID_WMOM then 3 * forcing_val e k i else 0))"
    using assms by (simp add: update_loop_state rhs_heap_tend rhs_heap_interior)
  have 3: "\<And>b ll k i. b \<noteq> fl \<Longrightarrow> b \<noteq> td \<Longrightarrow> b \<noteq> so \<Longrightarrow> k < nz e \<Longrightarrow> i < nx e \<Longrightarrow>
           ?h' (b, sidx e ll (k + hs) (i + hs)) = h (b, sidx e ll (k + hs) (i + hs))"
    by (simp add: update_loop_frame rhs_heap_interior)
  show thesis using that[OF 1 2 3] by blast
qed

lemma sweep_result:
  assumes dt: "dt \<noteq> 0" and dir: "dir = DIR_X \<or> dir = DIR_Z"
    and gw: "data_spec_int e \<noteq> DATA_SPEC_GRAVITY_WAVES"
  shows "\<exists>h3. run_stages (sweep e State State_tmp Flux Tend dt dir) h = Inr h3 \<and>
           sweep_rel e dir dt (\<lambda>x. h (State, x)) (\<lambda>x. h3 (State, x))"
proof -
  have f: "\<And>k i. forcing_val e k i = 0" using gw by (simp add: forcing_val_not_gw)
  have d3: "dt / 3 \<noteq> 0" and d2: "dt / 2 \<noteq> 0" and d1: "dt / 1 \<noteq> 0" using dt by simp_all
  obtain h1 where h1: "semi_discrete_step e State State State_tmp (dt / 3) dir Flux Tend h = Inr h1"
    and h1o: "\<And>ll k i. ll < NUM_VARS \<Longrightarrow> k < nz e \<Longrightarrow> i < nx e \<Longrightarrow>
           h1 (State_tmp, sidx e ll (k + hs) (i + hs))
             = h (State, sidx e ll (k + hs) (i + hs))
               + dt / 3 * (rhs_val e dir (dt / 3) (\<lambda>x. h (State, x)) ll k i
                       + (if ll = ID_WMOM then 3 * forcing_val e k i else 0))"
    and h1s: "\<And>b ll k i. b \<noteq> Flux \<Longrightarrow> b \<noteq> Tend \<Longrightarrow> b \<noteq> State_tmp \<Longrightarrow> k < nz e \<Longrightarrow> i < nx e \<Longrightarrow>
           h1 (b, sidx e ll (k + hs) (i + hs)) = h (b, sidx e ll (k + hs) (i + hs))"
    by (rule semi_discrete_step_facts[OF d3 dir, of Flux Tend State State State_tmp e h]) simp_all
  obtain h2 where h2: "semi_discrete_step e State State_tmp State_tmp (dt / 2) dir Flux Tend h1 = Inr h2"
    and h2o: "\<And>ll k i. ll < NUM_VARS \<Longrightarrow> k < nz e \<Longrightarrow> i < nx e \<Longrightarrow>
           h2 (State_tmp, sidx e ll (k + hs) (i + hs))
             = h1 (State, sidx e ll (k + hs) (i + hs))
               + dt / 2 * (rhs_val e dir (dt / 2) (\<lambda>x. h1 (State_tmp, x)) ll k i
                       + (if ll = ID_WMOM then 3 * forcing_val e k i else 0))"
    and h2s: "\<And>b ll k i. b \<noteq> Flux \<Longrightarrow> b \<noteq> Tend \<Longrightarrow> b \<noteq> State_tmp \<Longrightarrow> k < nz e \<Longrightarrow> i < nx e \<Longrightarrow>
           h2 (b, sidx e ll (k + hs) (i + hs)) = h1 (b, sidx e ll (k + hs) (i + hs))"
    by (rule semi_discrete_step_facts[OF d2 dir, of Flux Tend State State_tmp State_tmp e h1]) simp_all
  obtain h3 where h3: "semi_discrete_step e State State_tmp State (dt / 1) dir Flux Tend h2 = Inr h3"
    and h3o: "\<And>ll k i. ll < NUM_VARS \<Longrightarrow> k < nz e \<Longrightarrow> i < nx e \<Longrightarrow>
           h3 (State, sidx e ll (k + hs) (i + hs))
             = h2 (State, sidx e ll (k + hs) (i + hs))
               + dt / 1 * (rhs_val e dir (dt / 1) (\<lambda>x. h2 (State_tmp, x)) ll k i
                       + (if ll = ID_WMOM then 3 * forcing_val e k i else 0))"
    by (rule semi_discrete_step_facts[OF d1 dir, of Flux Tend State State_tmp State e h2]) simp_all
  have run: "run_stages (sweep e State State_tmp Flux Tend dt dir) h = Inr h3"
    using h1 h2 h3 by (simp add: sweep_def)
  have s1: "stage_rel e dir (dt / 3) (\<lambda>x. h (State, x)) (\<lambda>x. h (State, x)) (\<lambda>x. h1 (State_tmp, x))"
    unfolding stage_rel_def using h1o by (simp add: f)
  have s2: "stage_rel e dir (dt / 2) (\<lambda>x. h (State, x)) (\<lambda>x. h1 (State_tmp, x)) (\<lambda>x. h2 (State_tmp, x))"
    unfolding stage_rel_def using h2o h1s[of State] by (simp add: f)
  have s3: "stage_rel e dir (dt / 1) (\<lambda>x. h (State, x)) (\<lambda>x. h2 (State_tmp, x)) (\<lambda>x. h3 (State, x))"
    unfolding stage_rel_def using h3o h2s[of State] h1s[of State] by (simp add: f)
  from run s1 s2 s3 show ?thesis unfolding sweep_rel_def by blast
qed

text \<open>
  Claim C2, amended. For \<open>dt \<noteq> 0\<close> and every scenario but gravity waves, \<^verbatim>\<open>perform_timestep\<close>
  returns, toggles \<^verbatim>\<open>direction_switch\<close>, and takes the array \<^verbatim>\<open>state\<close> through exactly two
  three-stage sweeps, the X sweep first when \<^verbatim>\<open>direction_switch\<close> is non-zero and the Z
  sweep first otherwise; the relations hold on the interior cells, \<open>RHS\<close> being the halo
  routine followed by the kernel of the sweep's direction. (In the gravity-waves scenario
  the state update adds a forcing to the tendency, so \<open>Q1 = Q + (dt/3) RHS(Q)\<close> fails
  there: see \<open>first_stage_of_gravity_waves_step\<close>.)
\<close>

theorem perform_timestep_two_sweeps:
  assumes "dt \<noteq> 0" and "data_spec_int e \<noteq> DATA_SPEC_GRAVITY_WAVES"
  shows "\<exists>h' Q'. perform_timestep e State State_tmp Flux Tend dt (h, ds)
                    = Inr (h', if ds \<noteq> 0 then 0 else 1) \<and>
           sweep_rel e (if ds \<noteq> 0 then DIR_X else DIR_Z) dt (\<lambda>x. h (State, x)) Q' \<and>
           sweep_rel e (if ds \<noteq> 0 then DIR_Z else DIR_X) dt Q' (\<lambda>x. h' (State, x))"
proof -
  let ?d1 = "if ds \<noteq> 0 then DIR_X else DIR_Z" and ?d2 = "if ds \<noteq> 0 then DIR_Z else DIR_X"
  have d: "?d1 = DIR_X \<or> ?d1 = DIR_Z" "?d2 = DIR_X \<or> ?d2 = DIR_Z" by simp_all
  from sweep_result[OF assms(1) d(1) assms(2), of h] obtain g
    where g: "run_stages (sweep e State State_tmp Flux Tend dt ?d1) h = Inr g"
      "sweep_rel e ?d1 dt (\<lambda>x. h (State, x)) (\<lambda>x. g (State, x))" by blast
  from sweep_result[OF assms(1) d(2) assms(2), of g] obtain h'
    where h': "run_stages (sweep e State State_tmp Flux Tend dt ?d2) g = Inr h'"
      "sweep_rel e ?d2 dt (\<lambda>x. g (State, x)) (\<lambda>x. h' (State, x))" by blast
  have "perform_timestep e State State_tmp Flux Tend dt (h, ds) = Inr (h', if ds \<noteq> 0 then 0 else 1)"
    using g(1) h'(1) by (simp add: perform_timestep_sweeps run_stages_append split: if_splits)
  with g(2) h'(2) show ?thesis by blast
qed

theorem perform_timestep_two_sweeps_witness:
  "(1::real) \<noteq> 0 \<and> data_spec_int env_2x1 \<noteq> DATA_SPEC_GRAVITY_WAVES \<and>
   (\<exists>h' Q'. perform_timestep env_2x1 State State_tmp Flux Tend 1 (heap_alias, 1) = Inr (h', 0) \<and>
      sweep_rel env_2x1 DIR_X 1 (\<lambda>x. heap_alias (State, x)) Q' \<and>
      sweep_rel env_2x1 DIR_Z 1 Q' (\<lambda>x. h' (State, x)))"
proof -
  have d: "data_spec_int env_2x1 \<noteq> DATA_SPEC_GRAVITY_WAVES"
    by (simp add: env_2x1_def DATA_SPEC_GRAVITY_WAVES_def)
  from perform_timestep_two_sweeps[OF _ d, of 1 heap_alias 1] d show ?thesis by simp
qed

theorem first_stage_of_gravity_waves_step:
  "\<exists>h1. semi_discrete_step env_gw State State State_tmp (3 / 3) DIR_X Flux Tend (\<lambda>_. 0) = Inr h1 \<and>
     \<not> stage_rel env_gw DIR_X (3 / 3) (\<lambda>_. 0) (\<lambda>_. 0) (\<lambda>x. h1 (State_tmp, x))"
proof -
  from gw_stage_values obtain h1
    where h1: "semi_discrete_step env_gw State State State_tmp 1 DIR_X Flux Tend (\<lambda>_. 0) = Inr h1"
      "h1 (State_tmp, sidx env_gw ID_WMOM hs hs) = 3 / 100" by blast
  have "\<not> stage_rel env_gw DIR_X 1 (\<lambda>_. 0) (\<lambda>_. 0) (\<lambda>x. h1 (State_tmp, x))"
  proof
    assume sr: "stage_rel env_gw DIR_X 1 (\<lambda>_. 0) (\<lambda>_. 0) (\<lambda>x. h1 (State_tmp, x))"
    have k: "0 < nz env_gw" "0 < nx env_gw" by (simp_all add: env_gw_def)
    from sr[unfolded stage_rel_def, rule_format, of ID_WMOM 0 0] k
    have "h1 (State_tmp, sidx env_gw ID_WMOM hs hs) = rhs_val env_gw DIR_X 1 (\<lambda>_. 0) ID_WMOM 0 0"
      by simp
    then show False using h1(2) by (simp add: rhs_x_zero_env_gw)
  qed
  with h1(1) show ?thesis by simp
qed

section \<open>Mass conservation\<close>


















































section \<open>Initialisation\<close>

text \<open>
  The scenario functions return their six reference parameters \<^verbatim>\<open>r, u, w, t, hr, ht\<close>; a
  \<open>sample\<close> is that sextuple. \<^verbatim>\<open>pow\<close> is \<open>powr\<close>, which agrees with it on the
  non-negative bases that occur for heights below \<open>cp * theta0 / grav\<close> (about 30.7 km, three
  times \<^verbatim>\<open>zlen\<close>).
\<close>

record sample =
  smp_r :: real
  smp_u :: real
  smp_w :: real
  smp_t :: real
  smp_hr :: real
  smp_ht :: real

definition hydro_const_theta :: "real \<Rightarrow> real \<times> real" where
  "hydro_const_theta z =
    (let theta0 = 300;
         exner0 = 1;
         t = theta0;
         exner = exner0 - grav * z / (cp * theta0);
         p = p0 * exner powr (cp / rd);
         rt = (p / C0) powr (1 / gamm);
         r = rt / t
     in (r, t))"

definition hydro_const_bvfreq :: "real \<Rightarrow> real \<Rightarrow> real \<times> real" where
  "hydro_const_bvfreq z bv_freq0 =
    (let theta0 = 300;
         exner0 = 1;
         t = theta0 * exp (bv_freq0 * bv_freq0 / grav * z);
         exner = exner0 - grav * grav / (cp * bv_freq0 * bv_freq0) * (t - theta0) / (t * theta0);
         p = p0 * exner powr (cp / rd);
         rt = (p / C0) powr (1 / gamm);
         r = rt / t
     in (r, t))"

definition sample_ellipse_cosine ::
  "real \<Rightarrow> real \<Rightarrow> real \<Rightarrow> real \<Rightarrow> real \<Rightarrow> real \<Rightarrow> real \<Rightarrow> real" where
  "sample_ellipse_cosine x z amp x0 z0 xrad zrad =
    (let dist = sqrt (((x - x0) / xrad) * ((x - x0) / xrad)
                      + ((z - z0) / zrad) * ((z - z0) / zrad)) * pi_c / 2
     in if dist \<le> pi_c / 2 then amp * (cos dist) ^ 2 else 0)"

definition injection :: "real \<Rightarrow> real \<Rightarrow> sample" where
  "injection x z =
    (let (hr, ht) = hydro_const_theta z
     in \<lparr>smp_r = 0, smp_u = 0, smp_w = 0, smp_t = 0, smp_hr = hr, smp_ht = ht\<rparr>)"

definition density_current :: "real \<Rightarrow> real \<Rightarrow> sample" where
  "density_current x z =
    (let (hr, ht) = hydro_const_theta z;
         t = 0;
         t = t + sample_ellipse_cosine x z (- 20) (xlen / 2) 5000 4000 2000
     in \<lparr>smp_r = 0, smp_u = 0, smp_w = 0, smp_t = t, smp_hr = hr, smp_ht = ht\<rparr>)"

definition gravity_waves :: "real \<Rightarrow> real \<Rightarrow> sample" where
  "gravity_waves x z =
    (let (hr, ht) = hydro_const_bvfreq z (2 / 100)
     in \<lparr>smp_r = 0, smp_u = 15, smp_w = 0, smp_t = 0, smp_hr = hr, smp_ht = ht\<rparr>)"

definition thermal :: "real \<Rightarrow> real \<Rightarrow> sample" where
  "thermal x z =
    (let (hr, ht) = hydro_const_theta z;
         t = 0;
         t = t + sample_ellipse_cosine x z 3 (xlen / 2) 2000 2000 2000
     in \<lparr>smp_r = 0, smp_u = 0, smp_w = 0, smp_t = t, smp_hr = hr, smp_ht = ht\<rparr>)"

definition collision :: "real \<Rightarrow> real \<Rightarrow> sample" where
  "collision x z =
    (let (hr, ht) = hydro_const_theta z;
         t = 0;
         t = t + sample_ellipse_cosine x z 20 (xlen / 2) 2000 2000 2000;
         t = t + sample_ellipse_cosine x z (- 20) (xlen / 2) 8000 2000 2000
     in \<lparr>smp_r = 0, smp_u = 0, smp_w = 0, smp_t = t, smp_hr = hr, smp_ht = ht\<rparr>)"

text \<open>
  The five \<^verbatim>\<open>if (data_spec_int == ...)\<close> statements that \<^verbatim>\<open>init\<close> repeats in its three
  loops. They have no \<^verbatim>\<open>else\<close>: when \<^verbatim>\<open>data_spec_int\<close> is none of the five values, the
  locals \<^verbatim>\<open>r, u, w, t, hr, ht\<close> keep what they held, which is what they were declared with,
  nothing; the model passes that content in as \<open>s\<close>.
\<close>

definition scenario :: "int \<Rightarrow> real \<Rightarrow> real \<Rightarrow> sample \<Rightarrow> sample" where
  "scenario ds x z s =
    (let s = (if ds = DATA_SPEC_COLLISION then collision x z else s);
         s = (if ds = DATA_SPEC_THERMAL then thermal x z else s);
         s = (if ds = DATA_SPEC_GRAVITY_WAVES then gravity_waves x z else s);
         s = (if ds = DATA_SPEC_DENSITY_CURRENT then density_current x z else s);
         s = (if ds = DATA_SPEC_INJECTION then injection x z else s)
     in s)"

definition init_quad_body ::
  "env \<Rightarrow> nat \<Rightarrow> nat \<Rightarrow> nat \<Rightarrow> nat \<Rightarrow> heap \<times> sample \<Rightarrow> heap \<times> sample" where
  "init_quad_body e k i kk ii hs0 =
    (let (h, s) = hs0;
         center_x = (of_int (int (i_beg e) + int i - int hs) + 1 / 2) * dx e;
         center_z = (of_int (int (k_beg e) + int k - int hs) + 1 / 2) * dz e;
         x = center_x + (qpoints ii - 1 / 2) * dx e;
         z = center_z + (qpoints kk - 1 / 2) * dz e;
         s = scenario (data_spec_int e) x z s;
         inds = sidx e ID_DENS k i;
         h = h((State, inds) := h (State, inds) + smp_r s * qweights ii * qweights kk);
         inds = sidx e ID_UMOM k i;
         h = h((State, inds) := h (State, inds)
                 + (smp_r s + smp_hr s) * smp_u s * qweights ii * qweights kk);
         inds = sidx e ID_WMOM k i;
         h = h((State, inds) := h (State, inds)
                 + (smp_r s + smp_hr s) * smp_w s * qweights ii * qweights kk);
         inds = sidx e ID_RHOT k i;
         h = h((State, inds) := h (State, inds)
                 + ((smp_r s + smp_hr s) * (smp_t s + smp_ht s) - smp_hr s * smp_ht s)
                   * qweights ii * qweights kk)
     in (h, s))"

definition init_cell :: "env \<Rightarrow> nat \<Rightarrow> nat \<Rightarrow> heap \<times> sample \<Rightarrow> heap \<times> sample" where
  "init_cell e k i hs0 =
    (let (h, s) = hs0;
         h = fold (\<lambda>ll h. h((State, sidx e ll k i) := 0)) [0..<NUM_VARS] h;
         (h, s) = fold (\<lambda>kk. fold (init_quad_body e k i kk) [0..<nqpoints]) [0..<nqpoints] (h, s);
         h = fold (\<lambda>ll h. h((State_tmp, sidx e ll k i) := h (State, sidx e ll k i)))
               [0..<NUM_VARS] h
     in (h, s))"

definition init_state :: "env \<Rightarrow> heap \<times> sample \<Rightarrow> heap \<times> sample" where
  "init_state e =
     fold (\<lambda>k. fold (init_cell e k) [0..<nx e + 2 * hs]) [0..<nz e + 2 * hs]"

text \<open>The hydrostatic background: cell averages, then interface values.\<close>

definition init_hy_cell_quad ::
  "env \<Rightarrow> nat \<Rightarrow> nat \<Rightarrow> ((nat \<Rightarrow> real) \<times> (nat \<Rightarrow> real)) \<times> sample
     \<Rightarrow> ((nat \<Rightarrow> real) \<times> (nat \<Rightarrow> real)) \<times> sample" where
  "init_hy_cell_quad e k kk a =
    (let ((hc, hct), s) = a;
         z = (of_int (int (k_beg e) + int k - int hs) + 1 / 2) * dz e;
         s = scenario (data_spec_int e) 0 z s;
         hc = hc(k := hc k + smp_hr s * qweights kk);
         hct = hct(k := hct k + smp_hr s * smp_ht s * qweights kk)
     in ((hc, hct), s))"

definition init_hy_cell ::
  "env \<Rightarrow> nat \<Rightarrow> ((nat \<Rightarrow> real) \<times> (nat \<Rightarrow> real)) \<times> sample
     \<Rightarrow> ((nat \<Rightarrow> real) \<times> (nat \<Rightarrow> real)) \<times> sample" where
  "init_hy_cell e k a =
    (let ((hc, hct), s) = a;
         hc = hc(k := 0);
         hct = hct(k := 0)
     in fold (init_hy_cell_quad e k) [0..<nqpoints] ((hc, hct), s))"

definition init_hy_int ::
  "env \<Rightarrow> nat \<Rightarrow> ((nat \<Rightarrow> real) \<times> (nat \<Rightarrow> real) \<times> (nat \<Rightarrow> real)) \<times> sample
     \<Rightarrow> ((nat \<Rightarrow> real) \<times> (nat \<Rightarrow> real) \<times> (nat \<Rightarrow> real)) \<times> sample" where
  "init_hy_int e k a =
    (let ((hi, hti, hpi), s) = a;
         z = real (k_beg e + k) * dz e;
         s = scenario (data_spec_int e) 0 z s;
         hi = hi(k := smp_hr s);
         hti = hti(k := smp_hr s * smp_ht s);
         hpi = hpi(k := C0 * (smp_hr s * smp_ht s) powr gamm)
     in ((hi, hti, hpi), s))"

definition dmin :: "real \<Rightarrow> real \<Rightarrow> real" where
  "dmin a b = (if a < b then a else b)"

text \<open>
  \<^verbatim>\<open>init\<close>. The argument \<open>e\<close> carries the build-time parameters and, in its array fields,
  the content of the freshly allocated background arrays; \<open>h\<close> is the content of the
  allocated \<^verbatim>\<open>state\<close>, \<^verbatim>\<open>state_tmp\<close>, \<^verbatim>\<open>flux\<close> and \<^verbatim>\<open>tend\<close>; \<open>s\<close> is the content of
  the uninitialised locals. The result is the environment of the run, the store, and
  \<^verbatim>\<open>dt\<close>; \<^verbatim>\<open>etime\<close> and \<^verbatim>\<open>output_counter\<close> start at 0. The routine has no failing path.
\<close>

definition init :: "env \<Rightarrow> heap \<Rightarrow> sample \<Rightarrow> env \<times> heap \<times> real" where
  "init e h s =
    (let e = e\<lparr>myrank := 0, i_beg := 0, nx := nx_glob e\<rparr>;
         e = e\<lparr>k_beg := 0, nz := nz_glob e\<rparr>;
         dt = dmin (dx e) (dz e) / max_speed * cfl;
         (h, s) = init_state e (h, s);
         ((hc, hct), s) = fold (init_hy_cell e) [0..<nz e + 2 * hs]
                          ((hy_dens_cell e, hy_dens_theta_cell e), s);
         ((hi, hti, hpi), s) = fold (init_hy_int e) [0..<nz e + 1]
                          ((hy_dens_int e, hy_dens_theta_int e, hy_pressure_int e), s);
         e = e\<lparr>hy_dens_cell := hc, hy_dens_theta_cell := hct, hy_dens_int := hi,
                hy_dens_theta_int := hti, hy_pressure_int := hpi\<rparr>
     in (e, h, dt))"

subsection \<open>The locals of \<^verbatim>\<open>init\<close>\<close>

definition valid_data_spec :: "int \<Rightarrow> bool" where
  "valid_data_spec ds =
     (ds = DATA_SPEC_COLLISION \<or> ds = DATA_SPEC_THERMAL \<or> ds = DATA_SPEC_GRAVITY_WAVES
      \<or> ds = DATA_SPEC_DENSITY_CURRENT \<or> ds = DATA_SPEC_INJECTION)"

lemma scenario_invalid: "\<not> valid_data_spec ds \<Longrightarrow> scenario ds x z s = s"
  by (simp add: scenario_def valid_data_spec_def)

lemma scenario_valid: "valid_data_spec ds \<Longrightarrow> scenario ds x z s = scenario ds x z s'"
  by (auto simp: scenario_def valid_data_spec_def Let_def)

lemma scenario_scenario: "scenario ds x' z' (scenario ds x z s) = scenario ds x' z' s"
proof (cases "valid_data_spec ds")
  case True
  then show ?thesis by (rule scenario_valid)
next
  case False
  then show ?thesis by (simp add: scenario_invalid)
qed

lemma scenario_w: "valid_data_spec ds \<Longrightarrow> smp_w (scenario ds x z s) = 0"
  by (auto simp: scenario_def valid_data_spec_def Let_def collision_def thermal_def
      gravity_waves_def density_current_def injection_def DATA_SPEC_COLLISION_def
      DATA_SPEC_THERMAL_def DATA_SPEC_GRAVITY_WAVES_def DATA_SPEC_DENSITY_CURRENT_def
      DATA_SPEC_INJECTION_def split: prod.splits)

text \<open>
  A loop that threads the locals through its iterations computes, on the arrays, what the
  loop over the arrays alone computes when every iteration starts from the locals \<open>s0\<close>:
  an iteration uses the locals only after the five \<^verbatim>\<open>if\<close>s.
\<close>

lemma fold_threaded:
  assumes "\<And>j a s. j \<in> set js \<Longrightarrow> P s \<Longrightarrow>
             fst (step j (a, s)) = step' j a \<and> P (snd (step j (a, s)))"
    and "P s"
  shows "fst (fold step js (a, s)) = fold step' js a \<and> P (snd (fold step js (a, s)))"
  using assms
proof (induction js arbitrary: a s)
  case Nil
  then show ?case by simp
next
  case (Cons j js)
  obtain a1 s1 where 1: "step j (a, s) = (a1, s1)" by (cases "step j (a, s)")
  from Cons.prems(1)[of j s a] Cons.prems(2) 1 have 2: "a1 = step' j a" "P s1" by simp_all
  have "fst (fold step js (a1, s1)) = fold step' js a1 \<and> P (snd (fold step js (a1, s1)))"
    by (rule Cons.IH) (use Cons.prems(1) 2 in simp_all)
  with 1 2 show ?case by simp
qed

definition init_quad_store :: "env \<Rightarrow> sample \<Rightarrow> nat \<Rightarrow> nat \<Rightarrow> nat \<Rightarrow> nat \<Rightarrow> heap \<Rightarrow> heap" where
  "init_quad_store e s0 k i kk ii h = fst (init_quad_body e k i kk ii (h, s0))"

definition init_cell_store :: "env \<Rightarrow> sample \<Rightarrow> nat \<Rightarrow> nat \<Rightarrow> heap \<Rightarrow> heap" where
  "init_cell_store e s0 k i h =
    (let h = fold (\<lambda>ll h. h((State, sidx e ll k i) := 0)) [0..<NUM_VARS] h;
         h = fold (\<lambda>kk. fold (init_quad_store e s0 k i kk) [0..<nqpoints]) [0..<nqpoints] h
     in fold (\<lambda>ll h. h((State_tmp, sidx e ll k i) := h (State, sidx e ll k i)))
               [0..<NUM_VARS] h)"

definition init_state_store :: "env \<Rightarrow> sample \<Rightarrow> heap \<Rightarrow> heap" where
  "init_state_store e s0 =
     fold (\<lambda>k. fold (init_cell_store e s0 k) [0..<nx e + 2 * hs]) [0..<nz e + 2 * hs]"

lemma init_quad_body_threaded:
  assumes "\<And>x z. scenario (data_spec_int e) x z s = scenario (data_spec_int e) x z s0"
  shows "fst (init_quad_body e k i kk ii (h, s)) = init_quad_store e s0 k i kk ii h
       \<and> (\<forall>x z. scenario (data_spec_int e) x z (snd (init_quad_body e k i kk ii (h, s)))
                  = scenario (data_spec_int e) x z s0)"
  unfolding init_quad_store_def init_quad_body_def Let_def
  by (simp add: assms scenario_scenario)

lemma init_cell_threaded:
  assumes "\<And>x z. scenario (data_spec_int e) x z s = scenario (data_spec_int e) x z s0"
  shows "fst (init_cell e k i (h, s)) = init_cell_store e s0 k i h
       \<and> (\<forall>x z. scenario (data_spec_int e) x z (snd (init_cell e k i (h, s)))
                  = scenario (data_spec_int e) x z s0)"
proof -
  let ?P = "\<lambda>s. \<forall>x z. scenario (data_spec_int e) x z s = scenario (data_spec_int e) x z s0"
  let ?h0 = "fold (\<lambda>ll h. h((State, sidx e ll k i) := 0)) [0..<NUM_VARS] h"
  have inner: "fst (fold (init_quad_body e k i kk) [0..<nqpoints] (a, t))
        = fold (init_quad_store e s0 k i kk) [0..<nqpoints] a
      \<and> ?P (snd (fold (init_quad_body e k i kk) [0..<nqpoints] (a, t)))" if "?P t" for kk a t
    by (rule fold_threaded[where P = ?P]) (use that init_quad_body_threaded in blast)+
  have outer: "fst (fold (\<lambda>kk. fold (init_quad_body e k i kk) [0..<nqpoints]) [0..<nqpoints] (?h0, s))
        = fold (\<lambda>kk. fold (init_quad_store e s0 k i kk) [0..<nqpoints]) [0..<nqpoints] ?h0
      \<and> ?P (snd (fold (\<lambda>kk. fold (init_quad_body e k i kk) [0..<nqpoints]) [0..<nqpoints] (?h0, s)))"
    by (rule fold_threaded[where P = ?P]) (use assms inner in blast)+
  then show ?thesis
    by (simp add: init_cell_def init_cell_store_def Let_def case_prod_beta)
qed

lemma init_state_threaded:
  "fst (init_state e (h, s0)) = init_state_store e s0 h"
proof -
  let ?P = "\<lambda>s. \<forall>x z. scenario (data_spec_int e) x z s = scenario (data_spec_int e) x z s0"
  have inner: "fst (fold (init_cell e k) [0..<nx e + 2 * hs] (a, t))
        = fold (init_cell_store e s0 k) [0..<nx e + 2 * hs] a
      \<and> ?P (snd (fold (init_cell e k) [0..<nx e + 2 * hs] (a, t)))" if "?P t" for k a t
    by (rule fold_threaded[where P = ?P]) (use that init_cell_threaded in blast)+
  have "fst (fold (\<lambda>k. fold (init_cell e k) [0..<nx e + 2 * hs]) [0..<nz e + 2 * hs] (h, s0))
        = fold (\<lambda>k. fold (init_cell_store e s0 k) [0..<nx e + 2 * hs]) [0..<nz e + 2 * hs] h
      \<and> ?P (snd (fold (\<lambda>k. fold (init_cell e k) [0..<nx e + 2 * hs]) [0..<nz e + 2 * hs] (h, s0)))"
    by (rule fold_threaded[where P = ?P]) (use inner in blast)+
  then show ?thesis by (simp add: init_state_def init_state_store_def)
qed


subsection \<open>The initial state\<close>

lemma sidx_var_inj [simp]: "(sidx e ll k i = sidx e ll' k i) = (ll = ll')"
  by (simp add: sidx_def hs_def)

lemma fold_observe:
  assumes "distinct js" "j \<in> set js"
    and post: "\<And>a. obs (step j a) = v"
    and frame: "\<And>i a. i \<in> set js \<Longrightarrow> i \<noteq> j \<Longrightarrow> obs (step i a) = obs a"
  shows "obs (fold step js a) = v"
  using assms(1,2,4)
proof (induction js arbitrary: a)
  case Nil
  then show ?case by simp
next
  case (Cons i js)
  show ?case
  proof (cases "i = j")
    case True
    have "obs (fold step js b) = obs b" for b
      using Cons.prems(1,3) True by (induction js arbitrary: b) auto
    with True post show ?thesis by simp
  next
    case False
    with Cons.prems have j: "j \<in> set js" "distinct js" by auto
    have fr: "\<And>i a. i \<in> set js \<Longrightarrow> i \<noteq> j \<Longrightarrow> obs (step i a) = obs a"
      using Cons.prems(3) by simp
    have "obs (fold step js (step i a)) = v"
      by (rule Cons.IH[OF j(2,1) fr])
    then show ?thesis by simp
  qed
qed

lemma fold_post:
  assumes "distinct js" "j \<in> set js"
    and post: "\<And>g. step j g x = v"
    and frame: "\<And>i g. i \<in> set js \<Longrightarrow> i \<noteq> j \<Longrightarrow> step i g x = g x"
  shows "fold step js h x = v"
  by (rule fold_observe[where obs = "\<lambda>g. g x" and step = step and j = j])
     (use assms in auto)

lemma fold2_post:
  assumes "distinct as" "distinct bs" "a \<in> set as" "b \<in> set bs"
    and post: "\<And>g. f a b g x = v"
    and frame: "\<And>a' b' g. a' \<in> set as \<Longrightarrow> b' \<in> set bs \<Longrightarrow> (a', b') \<noteq> (a, b) \<Longrightarrow>
                  f a' b' g x = g x"
  shows "fold (\<lambda>a. fold (f a) bs) as h x = v"
proof -
  have "fold (\<lambda>(a, b). f a b) (List.product as bs) h x = v"
  proof (rule fold_post[where j = "(a, b)"])
    show "distinct (List.product as bs)" using assms(1,2) by (simp add: distinct_product)
    show "(a, b) \<in> set (List.product as bs)" using assms(3,4) by simp
  qed (use post frame in \<open>auto simp: split_paired_all\<close>)
  then show ?thesis by (simp add: fold_product)
qed

definition init_cells :: "env \<Rightarrow> nat \<Rightarrow> nat \<Rightarrow> (buffer \<times> nat) set" where
  "init_cells e k i = {(b, sidx e ll k i) | b ll. (b = State \<or> b = State_tmp) \<and> ll < NUM_VARS}"

lemma init_quad_store_frame:
  assumes "\<And>ll. ll < NUM_VARS \<Longrightarrow> y \<noteq> (State, sidx e ll k i)"
  shows "init_quad_store e s0 k i kk ii h y = h y"
  using assms[of ID_DENS] assms[of ID_UMOM] assms[of ID_WMOM] assms[of ID_RHOT]
  by (simp add: init_quad_store_def init_quad_body_def Let_def)

lemma init_quad_store_wmom:
  assumes "valid_data_spec (data_spec_int e)"
  shows "init_quad_store e s0 k i kk ii h (State, sidx e ID_WMOM k i) = h (State, sidx e ID_WMOM k i)"
  by (simp add: init_quad_store_def init_quad_body_def Let_def scenario_w[OF assms])

lemma init_zero_loop:
  "fold (\<lambda>ll h. h((State, sidx e ll k i) := 0)) [0..<NUM_VARS] h
     = (\<lambda>y. if \<exists>ll<NUM_VARS. y = (State, sidx e ll k i) then 0 else h y)"
  by (auto simp: NUM_VARS_def upt_rec fun_eq_iff less_Suc_eq numeral_2_eq_2 numeral_3_eq_3
      eval_nat_numeral)

lemma init_copy_loop:
  "fold (\<lambda>ll h. h((State_tmp, sidx e ll k i) := h (State, sidx e ll k i))) [0..<NUM_VARS] h
     = (\<lambda>y. if \<exists>ll<NUM_VARS. y = (State_tmp, sidx e ll k i) then h (State, snd y) else h y)"
  by (auto simp: NUM_VARS_def upt_rec fun_eq_iff less_Suc_eq numeral_2_eq_2 numeral_3_eq_3
      eval_nat_numeral)

lemma init_cell_store_frame:
  assumes "y \<notin> init_cells e k i"
  shows "init_cell_store e s0 k i h y = h y"
proof -
  from assms have n: "\<And>ll. ll < NUM_VARS \<Longrightarrow> y \<noteq> (State, sidx e ll k i)"
    "\<And>ll. ll < NUM_VARS \<Longrightarrow> y \<noteq> (State_tmp, sidx e ll k i)"
    by (auto simp: init_cells_def)
  have q: "fold (\<lambda>kk. fold (init_quad_store e s0 k i kk) [0..<nqpoints]) [0..<nqpoints] g y = g y" for g
    by (rule fold2_frame) (use n(1) init_quad_store_frame in blast)
  show ?thesis
    unfolding init_cell_store_def Let_def init_copy_loop
    using n by (auto simp: q init_zero_loop)
qed

lemma init_cell_store_wmom:
  assumes "valid_data_spec (data_spec_int e)" "b = State \<or> b = State_tmp"
  shows "init_cell_store e s0 k i h (b, sidx e ID_WMOM k i) = 0"
proof -
  have q: "fold (\<lambda>kk. fold (init_quad_store e s0 k i kk) [0..<nqpoints]) [0..<nqpoints] g
             (State, sidx e ID_WMOM k i) = g (State, sidx e ID_WMOM k i)" for g
    by (rule fold2_frame) (rule init_quad_store_wmom[OF assms(1)])
  have z: "fold (\<lambda>ll h. h((State, sidx e ll k i) := 0)) [0..<NUM_VARS] h (State, sidx e ID_WMOM k i) = 0"
    unfolding init_zero_loop using vars_lt(3) by auto
  show ?thesis
    unfolding init_cell_store_def Let_def init_copy_loop
    using assms(2) vars_lt(3) by (auto simp: q z)
qed

lemma init_cells_disjoint:
  assumes "k < nz e + 2 * hs" "i < nx e + 2 * hs" "k' < nz e + 2 * hs" "i' < nx e + 2 * hs"
    and "(k', i') \<noteq> (k, i)"
  shows "(b, sidx e ll k i) \<notin> init_cells e k' i'"
  using assms sidx_eq_iff[of i e i' k k' ll]
  by (auto simp: init_cells_def hs_def)

lemma init_state_store_wmom:
  assumes "valid_data_spec (data_spec_int e)" "b = State \<or> b = State_tmp"
    and "k < nz e + 2 * hs" "i < nx e + 2 * hs"
  shows "init_state_store e s0 h (b, sidx e ID_WMOM k i) = 0"
  unfolding init_state_store_def
proof (rule fold2_post[where a = k and b = i])
  show "init_cell_store e s0 k i g (b, sidx e ID_WMOM k i) = 0" for g
    by (rule init_cell_store_wmom[OF assms(1,2)])
  fix k' i' g
  assume "k' \<in> set [0..<nz e + 2 * hs]" "i' \<in> set [0..<nx e + 2 * hs]" "(k', i') \<noteq> (k, i)"
  then show "init_cell_store e s0 k' i' g (b, sidx e ID_WMOM k i) = g (b, sidx e ID_WMOM k i)"
    by (intro init_cell_store_frame init_cells_disjoint) (use assms(3,4) in auto)
qed (use assms in auto)


subsection \<open>The rigid lid\<close>

definition lid_rows :: "env \<Rightarrow> nat set" where
  "lid_rows e = {0, 1, nz e + hs, nz e + hs + 1}"

definition rigid_lid :: "env \<Rightarrow> heap \<Rightarrow> bool" where
  "rigid_lid e h =
     (\<forall>b\<in>{State, State_tmp}. \<forall>r\<in>lid_rows e. \<forall>i<nx e + 2 * hs. h (b, sidx e ID_WMOM r i) = 0)"

lemma lid_rows_lt: "r \<in> lid_rows e \<Longrightarrow> r < nz e + 4"
  by (auto simp: lid_rows_def hs_def)

lemma lid_row_not_interior:
  assumes "r \<in> lid_rows e" "i < nx e + 2 * hs" "k < nz e" "i' < nx e"
  shows "sidx e ID_WMOM r i \<noteq> sidx e ll (k + hs) (i' + hs)"
  using sidx_eq_iff[of i e "i' + hs" r "k + hs" ID_WMOM ll] assms
  by (auto simp: lid_rows_def hs_def)

lemma set_halo_values_x_lid:
  assumes "r \<in> lid_rows e" "i < nx e + 2 * hs"
  shows "set_halo_values_x e p h (b, sidx e ID_WMOM r i) = h (b, sidx e ID_WMOM r i)"
proof (rule set_halo_values_x_frame)
  fix ll k assume "ll < NUM_VARS" "k < nz e"
  then show "(b, sidx e ID_WMOM r i) \<notin> halo_x_cells e p ll k"
    using assms sidx_eq_iff[of i e 0 r "k + hs" ID_WMOM ll]
      sidx_eq_iff[of i e 1 r "k + hs" ID_WMOM ll]
      sidx_eq_iff[of i e "nx e + hs" r "k + hs" ID_WMOM ll]
      sidx_eq_iff[of i e "nx e + hs + 1" r "k + hs" ID_WMOM ll]
    by (auto simp: halo_x_cells_def lid_rows_def hs_def)
qed

lemma halo_z_body_wmom:
  assumes "r \<in> lid_rows e"
  shows "halo_z_body e p ID_WMOM i g (p, sidx e ID_WMOM r i) = 0"
  using assms by (auto simp: halo_z_body_def Let_def lid_rows_def)

lemma set_halo_values_z_lid:
  assumes "r \<in> lid_rows e" "i < nx e + 2 * hs"
  shows "set_halo_values_z e p h (p, sidx e ID_WMOM r i) = 0"
proof -
  let ?x = "(p, sidx e ID_WMOM r i)"
  let ?F = "\<lambda>ll. fold (halo_z_body e p ll) [0..<nx e + 2 * hs]"
  have other: "?F ll g ?x = g ?x" if "ll \<noteq> ID_WMOM" for ll g
  proof (rule fold_frame)
    fix j g' assume "j \<in> set [0..<nx e + 2 * hs]"
    then have "?x \<notin> halo_z_cells e p ll j"
      using that assms lid_rows_lt[OF assms(1)]
        sidx_eq_iff[of i e j r 0 ID_WMOM ll] sidx_eq_iff[of i e j r 1 ID_WMOM ll]
        sidx_eq_iff[of i e j r "nz e + hs" ID_WMOM ll]
        sidx_eq_iff[of i e j r "nz e + hs + 1" ID_WMOM ll]
      by (auto simp: halo_z_cells_def hs_def)
    then show "halo_z_body e p ll j g' ?x = g' ?x" by (rule halo_z_body_frame)
  qed
  have this_var: "?F ID_WMOM g ?x = 0" for g
  proof (rule fold_post[where j = i])
    show "halo_z_body e p ID_WMOM i g' ?x = 0" for g'
      by (rule halo_z_body_wmom[OF assms(1)])
    fix j g' assume "j \<in> set [0..<nx e + 2 * hs]" "j \<noteq> i"
    then have "?x \<notin> halo_z_cells e p ID_WMOM j"
      using assms lid_rows_lt[OF assms(1)]
        sidx_eq_iff[of i e j r 0 ID_WMOM ID_WMOM] sidx_eq_iff[of i e j r 1 ID_WMOM ID_WMOM]
        sidx_eq_iff[of i e j r "nz e + hs" ID_WMOM ID_WMOM]
        sidx_eq_iff[of i e j r "nz e + hs + 1" ID_WMOM ID_WMOM]
      by (auto simp: halo_z_cells_def hs_def)
    then show "halo_z_body e p ID_WMOM j g' ?x = g' ?x" by (rule halo_z_body_frame)
  qed (use assms(2) in auto)
  have "set_halo_values_z e p h = ?F 3 (?F 2 (?F 1 (?F 0 h)))"
    by (simp add: set_halo_values_z_def NUM_VARS_def upt_rec numeral_eq_Suc)
  then show ?thesis
    using other[of 3] this_var by (simp add: ID_WMOM_def)
qed

lemma rigid_lid_stage:
  assumes "rigid_lid e h" "dir = DIR_X \<or> dir = DIR_Z"
    and "semi_discrete_step e si sf so dt dir Flux Tend h = Inr h'"
  shows "rigid_lid e h'"
proof -
  have dt: "dt \<noteq> 0" using assms(2,3) semi_discrete_step_zero[OF assms(2)] by (cases "dt = 0") auto
  have h': "h' = update_loop e si so Tend dt (rhs_heap e sf dir Flux Tend dt h)"
    using assms(3) semi_discrete_step_Inr[OF dt assms(2)] by simp
  show ?thesis
    unfolding rigid_lid_def
  proof (intro ballI allI impI)
    fix b r i assume b: "b \<in> {State, State_tmp}" and r: "r \<in> lid_rows e" and i: "i < nx e + 2 * hs"
    then have z: "h (b, sidx e ID_WMOM r i) = 0" using assms(1) by (auto simp: rigid_lid_def)
    have "h' (b, sidx e ID_WMOM r i) = rhs_heap e sf dir Flux Tend dt h (b, sidx e ID_WMOM r i)"
      unfolding h' by (rule update_loop_frame) (use b lid_row_not_interior[OF r i] in auto)
    also have "\<dots> = (if dir = DIR_X then set_halo_values_x e sf h (b, sidx e ID_WMOM r i)
                      else set_halo_values_z e sf h (b, sidx e ID_WMOM r i))"
      by (rule rhs_heap_other) (use b in auto)
    also have "\<dots> = 0"
    proof (cases "dir = DIR_X")
      case True
      then show ?thesis by (simp add: set_halo_values_x_lid[OF r i] z)
    next
      case False
      show ?thesis
      proof (cases "b = sf")
        case True
        with False show ?thesis by (simp add: set_halo_values_z_lid[OF r i])
      next
        case ne: False
        with False show ?thesis by (simp add: set_halo_values_z_other z)
      qed
    qed
    finally show "h' (b, sidx e ID_WMOM r i) = 0" .
  qed
qed

lemma init_result:
  assumes "init e0 h0 s0 = (e, h, dt)"
  shows "nx e = nx_glob e0" "nz e = nz_glob e0" "data_spec_int e = data_spec_int e0"
    "nx_glob e = nx_glob e0" "nz_glob e = nz_glob e0" "k_beg e = 0" "i_beg e = 0" "myrank e = 0"
    "dt = dmin (dx e) (dz e) / max_speed * cfl"
    "h = init_state_store (e0\<lparr>myrank := 0, i_beg := 0, nx := nx_glob e0, k_beg := 0, nz := nz_glob e0\<rparr>) s0 h0"
  using assms
  by (auto simp: init_def Let_def case_prod_beta init_state_threaded[symmetric] dx_def dz_def)

lemma sidx_cong: "nx e = nx e' \<Longrightarrow> nz e = nz e' \<Longrightarrow> sidx e = sidx e'"
  by (simp add: sidx_def fun_eq_iff)

lemma rigid_lid_init:
  assumes "valid_data_spec (data_spec_int e0)" "init e0 h0 s0 = (e, h, dt)"
  shows "rigid_lid e h"
proof -
  let ?g = "e0\<lparr>myrank := 0, i_beg := 0, nx := nx_glob e0, k_beg := 0, nz := nz_glob e0\<rparr>"
  note r = init_result[OF assms(2)]
  have s: "sidx e = sidx ?g" by (rule sidx_cong) (simp_all add: r)
  have v: "valid_data_spec (data_spec_int ?g)" using assms(1) by simp
  show ?thesis
    unfolding rigid_lid_def r(10) s
  proof (intro ballI allI impI)
    fix b r' i assume "b \<in> {State, State_tmp}" "r' \<in> lid_rows e" "i < nx e + 2 * hs"
    then show "init_state_store ?g s0 h0 (b, sidx ?g ID_WMOM r' i) = 0"
      by (intro init_state_store_wmom[OF v]) (auto simp: r lid_rows_def hs_def)
  qed
qed

text \<open>
  The stores on which the program calls a halo routine: the one \<^verbatim>\<open>init\<close> leaves, for one
  of the five scenarios, and then the one each stage call of the integrator leaves.
\<close>

inductive reachable :: "env \<Rightarrow> heap \<Rightarrow> bool" for e where
  start: "valid_data_spec (data_spec_int e0) \<Longrightarrow> init e0 h0 s0 = (e, h, dt) \<Longrightarrow> reachable e h"
| stage: "reachable e h \<Longrightarrow> si \<in> {State, State_tmp} \<Longrightarrow> sf \<in> {State, State_tmp} \<Longrightarrow>
          so \<in> {State, State_tmp} \<Longrightarrow> dir = DIR_X \<or> dir = DIR_Z \<Longrightarrow>
          semi_discrete_step e si sf so dt dir Flux Tend h = Inr h' \<Longrightarrow> reachable e h'"

lemma reachable_rigid_lid: "reachable e h \<Longrightarrow> rigid_lid e h"
  by (induction rule: reachable.induct) (auto intro: rigid_lid_init rigid_lid_stage)

definition locals_zero :: sample where
  "locals_zero = \<lparr>smp_r = 0, smp_u = 0, smp_w = 0, smp_t = 0, smp_hr = 0, smp_ht = 0\<rparr>"

text \<open>
  Claim C9, amended. Let \<open>r\<close> be one of the rows \<open>0, 1, nz+hs, nz+hs+1\<close> and \<open>i < nx+2*hs\<close>.
  After \<^verbatim>\<open>set_halo_values_z\<close> the z-momentum of the array it was called on is 0 at row
  \<open>r\<close>, column \<open>i\<close>, whatever the array held. \<^verbatim>\<open>set_halo_values_x\<close> does not write these
  rows: after it every array holds there what it held before. So after
  \<^verbatim>\<open>set_halo_values_x\<close> the z-momentum is 0 there on the stores the program reaches, where
  these cells of \<^verbatim>\<open>state\<close> and \<^verbatim>\<open>state_tmp\<close> hold 0 since \<^verbatim>\<open>init\<close> (every scenario has
  \<open>w = 0\<close>) and through every stage; on an array that holds something else there it is not
  (\<open>set_halo_values_x_keeps_lid_rows\<close>).
\<close>

theorem halo_calls_and_wmom_at_lid:
  assumes "r \<in> lid_rows e" "i < nx e + 2 * hs"
  shows "set_halo_values_z e p h (p, sidx e ID_WMOM r i) = 0
       \<and> set_halo_values_x e p h (b, sidx e ID_WMOM r i) = h (b, sidx e ID_WMOM r i)
       \<and> (reachable e h \<and> (p = State \<or> p = State_tmp)
            \<longrightarrow> set_halo_values_x e p h (p, sidx e ID_WMOM r i) = 0)"
proof -
  have "set_halo_values_x e p h (p, sidx e ID_WMOM r i) = 0"
    if "reachable e h" "p = State \<or> p = State_tmp"
  proof -
    from reachable_rigid_lid[OF that(1)] that(2) assms have "h (p, sidx e ID_WMOM r i) = 0"
      by (auto simp: rigid_lid_def)
    then show ?thesis by (simp add: set_halo_values_x_lid[OF assms])
  qed
  then show ?thesis
    by (simp add: set_halo_values_x_lid[OF assms] set_halo_values_z_lid[OF assms])
qed

theorem halo_calls_and_wmom_at_lid_witness:
  "(let run = init env_2x1 (\<lambda>_. 0) locals_zero;
        e = fst run;
        h = update_loop e State State_tmp Tend 1 (rhs_heap e State DIR_X Flux Tend 1 (fst (snd run)))
    in nz e + hs \<in> lid_rows e \<and> 3 < nx e + 2 * hs
       \<and> set_halo_values_z e State_tmp h (State_tmp, sidx e ID_WMOM (nz e + hs) 3) = 0
       \<and> set_halo_values_x e State_tmp h (State, sidx e ID_WMOM (nz e + hs) 3)
            = h (State, sidx e ID_WMOM (nz e + hs) 3)
       \<and> reachable e h \<and> (State_tmp = State \<or> State_tmp = State_tmp)
       \<and> set_halo_values_x e State_tmp h (State_tmp, sidx e ID_WMOM (nz e + hs) 3) = 0)"
proof -
  obtain e h0 dt where i: "init env_2x1 (\<lambda>_. 0) locals_zero = (e, h0, dt)"
    by (cases "init env_2x1 (\<lambda>_. 0) locals_zero") auto
  let ?h = "update_loop e State State_tmp Tend 1 (rhs_heap e State DIR_X Flux Tend 1 h0)"
  have v: "valid_data_spec (data_spec_int env_2x1)"
    by (simp add: valid_data_spec_def env_2x1_def DATA_SPEC_THERMAL_def)
  have "reachable e h0" using v i by (rule reachable.start)
  then have r: "reachable e ?h"
    by (rule reachable.stage[where si = State and sf = State and so = State_tmp and dir = DIR_X and dt = 1])
       (simp_all add: semi_discrete_step_Inr)
  have n: "nz e + hs \<in> lid_rows e" "3 < nx e + 2 * hs"
    using init_result(1)[OF i] by (simp_all add: lid_rows_def env_2x1_def hs_def)
  from halo_calls_and_wmom_at_lid[OF n, of State_tmp ?h State] r n i
  show ?thesis by (simp add: Let_def)
qed

theorem set_halo_values_x_keeps_lid_rows:
  "0 \<in> lid_rows env_2x1 \<and> 0 < nx env_2x1 + 2 * hs
   \<and> set_halo_values_x env_2x1 State ((\<lambda>_. 0)((State, sidx env_2x1 ID_WMOM 0 0) := 1))
        (State, sidx env_2x1 ID_WMOM 0 0) = 1"
proof -
  have n: "0 \<in> lid_rows env_2x1" "0 < nx env_2x1 + 2 * hs"
    by (simp_all add: lid_rows_def hs_def)
  show ?thesis using n by (simp add: set_halo_values_x_lid[OF n])
qed


subsection \<open>The hydrostatic cell averages\<close>

text \<open>
  The height at which the cell loop samples the scenario, the same for the three quadrature
  points; and what an iteration of the loop leaves in the two arrays.
\<close>

definition hy_cell_height :: "env \<Rightarrow> nat \<Rightarrow> real" where
  "hy_cell_height e k = (of_int (int (k_beg e) + int k - int hs) + 1 / 2) * dz e"

lemma init_hy_cell_val:
  "init_hy_cell e k ((hc, hct), s) =
     (let s' = scenario (data_spec_int e) 0 (hy_cell_height e k) s
      in ((hc(k := (\<Sum>kk<nqpoints. smp_hr s' * qweights kk)),
           hct(k := (\<Sum>kk<nqpoints. smp_hr s' * smp_ht s' * qweights kk))), s'))"
  by (simp add: init_hy_cell_def init_hy_cell_quad_def hy_cell_height_def Let_def nqpoints_def
      upt_rec scenario_scenario numeral_eq_Suc)

lemma init_hy_cell_fold:
  assumes "k < n"
    and "\<And>x z. scenario (data_spec_int e) x z s = scenario (data_spec_int e) x z s0"
  shows "fst (fst (fold (init_hy_cell e) [0..<n] ((hc, hct), s))) k
           = (\<Sum>kk<nqpoints. smp_hr (scenario (data_spec_int e) 0 (hy_cell_height e k) s0) * qweights kk)"
    and "snd (fst (fold (init_hy_cell e) [0..<n] ((hc, hct), s))) k
           = (\<Sum>kk<nqpoints. smp_hr (scenario (data_spec_int e) 0 (hy_cell_height e k) s0)
                               * smp_ht (scenario (data_spec_int e) 0 (hy_cell_height e k) s0)
                               * qweights kk)"
proof -
  let ?P = "\<lambda>s. \<forall>x z. scenario (data_spec_int e) x z s = scenario (data_spec_int e) x z s0"
  let ?step = "\<lambda>k a. fst (init_hy_cell e k (a, s0))"
  have t: "fst (fold (init_hy_cell e) [0..<n] ((hc, hct), s)) = fold ?step [0..<n] (hc, hct)"
  proof -
    have "fst (fold (init_hy_cell e) [0..<n] ((hc, hct), s)) = fold ?step [0..<n] (hc, hct)
        \<and> ?P (snd (fold (init_hy_cell e) [0..<n] ((hc, hct), s)))"
    proof (rule fold_threaded[where P = ?P])
      fix j a t assume "?P t"
      then show "fst (init_hy_cell e j (a, t)) = fst (init_hy_cell e j (a, s0))
          \<and> ?P (snd (init_hy_cell e j (a, t)))"
        by (cases a) (simp add: init_hy_cell_val Let_def scenario_scenario)
    qed (use assms(2) in simp)
    then show ?thesis by simp
  qed
  show "fst (fst (fold (init_hy_cell e) [0..<n] ((hc, hct), s))) k
           = (\<Sum>kk<nqpoints. smp_hr (scenario (data_spec_int e) 0 (hy_cell_height e k) s0) * qweights kk)"
    unfolding t
    by (rule fold_observe[where obs = "\<lambda>a. fst a k" and j = k])
       (use assms(1) in \<open>auto simp: init_hy_cell_val Let_def\<close>)
  show "snd (fst (fold (init_hy_cell e) [0..<n] ((hc, hct), s))) k
           = (\<Sum>kk<nqpoints. smp_hr (scenario (data_spec_int e) 0 (hy_cell_height e k) s0)
                               * smp_ht (scenario (data_spec_int e) 0 (hy_cell_height e k) s0)
                               * qweights kk)"
    unfolding t
    by (rule fold_observe[where obs = "\<lambda>a. snd a k" and j = k])
       (use assms(1) in \<open>auto simp: init_hy_cell_val Let_def\<close>)
qed

lemma init_state_locals:
  "scenario (data_spec_int e) x z (snd (init_state e (h, s0))) = scenario (data_spec_int e) x z s0"
proof -
  let ?P = "\<lambda>s. \<forall>x z. scenario (data_spec_int e) x z s = scenario (data_spec_int e) x z s0"
  have inner: "fst (fold (init_cell e k) [0..<nx e + 2 * hs] (a, t))
        = fold (init_cell_store e s0 k) [0..<nx e + 2 * hs] a
      \<and> ?P (snd (fold (init_cell e k) [0..<nx e + 2 * hs] (a, t)))" if "?P t" for k a t
    by (rule fold_threaded[where P = ?P]) (use that init_cell_threaded in blast)+
  have "fst (fold (\<lambda>k. fold (init_cell e k) [0..<nx e + 2 * hs]) [0..<nz e + 2 * hs] (h, s0))
        = fold (\<lambda>k. fold (init_cell_store e s0 k) [0..<nx e + 2 * hs]) [0..<nz e + 2 * hs] h
      \<and> ?P (snd (fold (\<lambda>k. fold (init_cell e k) [0..<nx e + 2 * hs]) [0..<nz e + 2 * hs] (h, s0)))"
    by (rule fold_threaded[where P = ?P]) (use inner in blast)+
  then show ?thesis by (simp add: init_state_def)
qed

lemma init_hy_dens_cell:
  assumes "init e0 h0 s0 = (e, h, dt)" "k < nz e + 2 * hs"
  shows "hy_dens_cell e k
           = (\<Sum>kk<nqpoints. smp_hr (scenario (data_spec_int e) 0 (hy_cell_height e k) s0) * qweights kk)"
    and "hy_dens_theta_cell e k
           = (\<Sum>kk<nqpoints. smp_hr (scenario (data_spec_int e) 0 (hy_cell_height e k) s0)
                               * smp_ht (scenario (data_spec_int e) 0 (hy_cell_height e k) s0)
                               * qweights kk)"
proof -
  let ?g = "e0\<lparr>myrank := 0, i_beg := 0, nx := nx_glob e0, k_beg := 0, nz := nz_glob e0\<rparr>"
  note r = init_result[OF assms(1)]
  have hh: "hy_cell_height e k = hy_cell_height ?g k"
    by (simp add: hy_cell_height_def dz_def r)
  have k: "k < nz ?g + 2 * hs" using assms(2) r by simp
  have d: "data_spec_int e = data_spec_int ?g" by (simp add: r)
  have c: "hy_dens_cell e = fst (fst (fold (init_hy_cell ?g) [0..<nz ?g + 2 * hs]
             ((hy_dens_cell ?g, hy_dens_theta_cell ?g), snd (init_state ?g (h0, s0)))))"
    "hy_dens_theta_cell e = snd (fst (fold (init_hy_cell ?g) [0..<nz ?g + 2 * hs]
             ((hy_dens_cell ?g, hy_dens_theta_cell ?g), snd (init_state ?g (h0, s0)))))"
    using assms(1) by (auto simp: init_def Let_def case_prod_beta)
  show "hy_dens_cell e k
           = (\<Sum>kk<nqpoints. smp_hr (scenario (data_spec_int e) 0 (hy_cell_height e k) s0) * qweights kk)"
    unfolding c hh d by (rule init_hy_cell_fold(1)[OF k]) (rule init_state_locals)
  show "hy_dens_theta_cell e k
           = (\<Sum>kk<nqpoints. smp_hr (scenario (data_spec_int e) 0 (hy_cell_height e k) s0)
                               * smp_ht (scenario (data_spec_int e) 0 (hy_cell_height e k) s0)
                               * qweights kk)"
    unfolding c hh d by (rule init_hy_cell_fold(2)[OF k]) (rule init_state_locals)
qed


text \<open>
  The cell averages as the specification words them: the scenario sampled at the three
  quadrature-shifted heights \<open>(k_beg + k - hs + qpoints[kk] - 0.5) * dz\<close>.
\<close>

definition spec_quad_height :: "env \<Rightarrow> nat \<Rightarrow> nat \<Rightarrow> real" where
  "spec_quad_height e k kk =
     (of_int (int (k_beg e) + int k - int hs) + qpoints kk - 1 / 2) * dz e"

definition spec_hy_dens_cell :: "env \<Rightarrow> sample \<Rightarrow> nat \<Rightarrow> real" where
  "spec_hy_dens_cell e s0 k =
     (\<Sum>kk<nqpoints. smp_hr (scenario (data_spec_int e) 0 (spec_quad_height e k kk) s0)
                        * qweights kk)"

definition spec_hy_dens_theta_cell :: "env \<Rightarrow> sample \<Rightarrow> nat \<Rightarrow> real" where
  "spec_hy_dens_theta_cell e s0 k =
     (\<Sum>kk<nqpoints. smp_hr (scenario (data_spec_int e) 0 (spec_quad_height e k kk) s0)
                        * smp_ht (scenario (data_spec_int e) 0 (spec_quad_height e k kk) s0)
                        * qweights kk)"

lemma hydro_const_theta_decreasing:
  assumes "z1 < z2" "grav * z2 \<le> cp * 300"
  shows "fst (hydro_const_theta z2) < fst (hydro_const_theta z1)"
proof -
  let ?E = "\<lambda>z. 1 - grav * z / (cp * 300)"
  have pos: "0 < grav" "0 < cp" "0 < rd" "0 < p0" "0 < C0" "0 < gamm"
    by (simp_all add: grav_def cp_def rd_def p0_def C0_def gamm_def)
  have e2: "0 \<le> ?E z2" using assms(2) pos by (simp add: field_simps)
  have e12: "?E z2 < ?E z1" using assms(1) pos by (simp add: field_simps)
  have "?E z2 powr (cp / rd) < ?E z1 powr (cp / rd)"
    by (rule powr_less_mono2) (use pos e2 e12 in simp_all)
  then have "p0 * ?E z2 powr (cp / rd) / C0 < p0 * ?E z1 powr (cp / rd) / C0"
    using pos by (simp add: divide_strict_right_mono)
  moreover have "0 \<le> p0 * ?E z2 powr (cp / rd) / C0" using pos by simp
  ultimately have "(p0 * ?E z2 powr (cp / rd) / C0) powr (1 / gamm)
      < (p0 * ?E z1 powr (cp / rd) / C0) powr (1 / gamm)"
    by (intro powr_less_mono2) (use pos in simp_all)
  then show ?thesis by (simp add: hydro_const_theta_def Let_def divide_strict_right_mono)
qed

lemma thermal_hr: "smp_hr (thermal x z) = fst (hydro_const_theta z)"
  "smp_ht (thermal x z) = 300"
  by (simp_all add: thermal_def Let_def case_prod_beta hydro_const_theta_def)

lemma scenario_thermal: "scenario DATA_SPEC_THERMAL x z s = thermal x z"
  by (simp add: scenario_def Let_def DATA_SPEC_THERMAL_def DATA_SPEC_COLLISION_def
      DATA_SPEC_GRAVITY_WAVES_def DATA_SPEC_DENSITY_CURRENT_def DATA_SPEC_INJECTION_def)

lemma qweights_pos: "0 < qweights 0" "0 < qweights (Suc 0)" "0 < qweights (Suc (Suc 0))"
  by (simp_all add: qweights_def)

text \<open>
  Claim C3. \<^verbatim>\<open>init\<close> does not sample the scenario at quadrature-shifted heights: the
  assignment to \<^verbatim>\<open>z\<close> in the cell loop does not mention \<^verbatim>\<open>kk\<close>, so the three weighted
  samples are taken at the cell centre \<open>(k_beg + k - hs + 0.5) * dz\<close> and the stored value
  is the centre value times the sum of the weights. For the thermal scenario on a grid with
  \<open>nz_glob = 1\<close> (\<open>dz = 10000\<close>) the first interior cell \<open>k = hs\<close> gets the profile at
  height 5000 times \<open>qweights[0] + qweights[1] + qweights[2]\<close>, which is strictly less than
  the sum the claim describes, for the density and for density times potential temperature.
\<close>

theorem init_hy_cell_samples_centre_only:
  "(let e = fst (init env_2x1 (\<lambda>_. 0) locals_zero) in
     hy_dens_cell e hs
       = fst (hydro_const_theta 5000) * (qweights 0 + qweights 1 + qweights 2)
     \<and> hy_dens_theta_cell e hs
       = fst (hydro_const_theta 5000) * 300 * (qweights 0 + qweights 1 + qweights 2)
     \<and> hy_dens_cell e hs < spec_hy_dens_cell e locals_zero hs
     \<and> hy_dens_theta_cell e hs < spec_hy_dens_theta_cell e locals_zero hs)"
proof -
  obtain e h dt where i: "init env_2x1 (\<lambda>_. 0) locals_zero = (e, h, dt)"
    by (cases "init env_2x1 (\<lambda>_. 0) locals_zero") auto
  note r = init_result[OF i]
  have g: "nz e = 1" "k_beg e = 0" "dz e = 10000" "data_spec_int e = DATA_SPEC_THERMAL"
    using r by (simp_all add: env_2x1_def dz_def zlen_def DATA_SPEC_THERMAL_def)
  have k: "hs < nz e + 2 * hs" by (simp add: hs_def)
  have c: "hy_cell_height e hs = 5000" by (simp add: hy_cell_height_def g)
  let ?hr = "\<lambda>z. fst (hydro_const_theta z)"
  have code: "hy_dens_cell e hs = ?hr 5000 * qweights 0 + ?hr 5000 * qweights (Suc 0)
                 + ?hr 5000 * qweights (Suc (Suc 0))"
    "hy_dens_theta_cell e hs = ?hr 5000 * 300 * qweights 0 + ?hr 5000 * 300 * qweights (Suc 0)
                 + ?hr 5000 * 300 * qweights (Suc (Suc 0))"
    unfolding init_hy_dens_cell[OF i k] c g(4) scenario_thermal thermal_hr
    by (simp_all add: nqpoints_def numeral_eq_Suc)
  let ?z = "\<lambda>kk. spec_quad_height e hs kk"
  have spec: "spec_hy_dens_cell e locals_zero hs = ?hr (?z 0) * qweights 0
                 + ?hr (?z (Suc 0)) * qweights (Suc 0) + ?hr (?z (Suc (Suc 0))) * qweights (Suc (Suc 0))"
    "spec_hy_dens_theta_cell e locals_zero hs = ?hr (?z 0) * 300 * qweights 0
                 + ?hr (?z (Suc 0)) * 300 * qweights (Suc 0)
                 + ?hr (?z (Suc (Suc 0))) * 300 * qweights (Suc (Suc 0))"
    unfolding spec_hy_dens_cell_def spec_hy_dens_theta_cell_def g(4) scenario_thermal thermal_hr
    by (simp_all add: nqpoints_def numeral_eq_Suc)
  have z: "?z 0 < 5000" "?z (Suc 0) < 5000" "?z (Suc (Suc 0)) < 5000"
    by (simp_all add: spec_quad_height_def g qpoints_def)
  have b: "grav * 5000 \<le> cp * 300" by (simp add: grav_def cp_def)
  note m = hydro_const_theta_decreasing[OF z(1) b] hydro_const_theta_decreasing[OF z(2) b]
    hydro_const_theta_decreasing[OF z(3) b]
  have lt1: "hy_dens_cell e hs < spec_hy_dens_cell e locals_zero hs"
    unfolding code spec
    by (intro add_strict_mono mult_strict_right_mono m qweights_pos)
  have lt2: "hy_dens_theta_cell e hs < spec_hy_dens_theta_cell e locals_zero hs"
    unfolding code spec
    by (intro add_strict_mono mult_strict_right_mono m qweights_pos) simp_all
  from code lt1 lt2 i show ?thesis
    by (simp add: Let_def algebra_simps numeral_2_eq_2)
qed


section \<open>The driver\<close>

text \<open>
  How a run ends: \<^verbatim>\<open>main\<close> returns (exit status 0), \<^verbatim>\<open>ncwrap\<close> calls \<^verbatim>\<open>exit(-1)\<close>, or
  the model stops at a division by zero. These are the only ways: the sources contain one
  \<^verbatim>\<open>exit\<close>, in \<^verbatim>\<open>ncwrap\<close>, and no \<^verbatim>\<open>abort\<close>, \<^verbatim>\<open>throw\<close> or \<^verbatim>\<open>return\<close> of a status.
\<close>

datatype 'a result = Done 'a | Exited int | Failed error

text \<open>
  \<open>output_state\<close> is the routine \<^verbatim>\<open>output\<close>, which writes a snapshot with PNetCDF and counts it in \<^verbatim>\<open>num_out\<close>. The file is
  outside the model; \<open>nc n\<close> tells whether the library calls of snapshot \<open>n\<close> all return
  \<^verbatim>\<open>NC_NOERR\<close>.
\<close>

definition output_state :: "(nat \<Rightarrow> bool) \<Rightarrow> nat \<Rightarrow> nat result" where
  "output_state nc num_out = (if nc num_out then Done (num_out + 1) else Exited (- 1))"

record run =
  run_heap :: heap
  run_switch :: int
  run_dt :: real
  run_etime :: real
  run_output_counter :: real
  run_num_out :: nat

partial_function (option) time_loop :: "env \<Rightarrow> (nat \<Rightarrow> bool) \<Rightarrow> run \<Rightarrow> run result option" where
  "time_loop e nc r =
    (if run_etime r < sim_time e then
       (let dt = (if run_etime r + run_dt r > sim_time e then sim_time e - run_etime r
                  else run_dt r)
        in case perform_timestep e State State_tmp Flux Tend dt (run_heap r, run_switch r) of
             Inl err \<Rightarrow> Some (Failed err)
           | Inr (h, ds) \<Rightarrow>
               (let etime = run_etime r + dt;
                    output_counter = run_output_counter r + dt
                in if output_freq e \<ge> 0 \<and> output_counter \<ge> output_freq e then
                     (case output_state nc (run_num_out r) of
                        Done n \<Rightarrow>
                          time_loop e nc \<lparr>run_heap = h, run_switch = ds, run_dt = dt,
                            run_etime = etime,
                            run_output_counter = output_counter - output_freq e,
                            run_num_out = n\<rparr>
                      | Exited c \<Rightarrow> Some (Exited c)
                      | Failed err \<Rightarrow> Some (Failed err))
                   else
                     time_loop e nc \<lparr>run_heap = h, run_switch = ds, run_dt = dt,
                       run_etime = etime, run_output_counter = output_counter,
                       run_num_out = run_num_out r\<rparr>))
     else Some (Done r))"

text \<open>
  \<^verbatim>\<open>main\<close>; a run that returns yields the four values of the two calls of
  \<^verbatim>\<open>reductions\<close>, \<open>(mass0, te0, mass, te)\<close>, from which it prints
  \<^verbatim>\<open>(mass - mass0)/mass0\<close> and \<^verbatim>\<open>(te - te0)/te0\<close>. \<open>None\<close> is a time loop that does not
  end.
\<close>

definition main ::
  "env \<Rightarrow> heap \<Rightarrow> sample \<Rightarrow> (nat \<Rightarrow> bool) \<Rightarrow> (real \<times> real \<times> real \<times> real) result option" where
  "main e0 h0 s0 nc =
    (let (e, h, dt) = init e0 h0 s0;
         (mass0, te0) = reductions e h
     in case (if output_freq e \<ge> 0 then output_state nc 0 else Done 0) of
          Exited c \<Rightarrow> Some (Exited c)
        | Failed err \<Rightarrow> Some (Failed err)
        | Done n \<Rightarrow>
            (case time_loop e nc \<lparr>run_heap = h, run_switch = 1, run_dt = dt, run_etime = 0,
                     run_output_counter = 0, run_num_out = n\<rparr> of
               None \<Rightarrow> None
             | Some (Exited c) \<Rightarrow> Some (Exited c)
             | Some (Failed err) \<Rightarrow> Some (Failed err)
             | Some (Done r) \<Rightarrow>
                 (let (mass, te) = reductions e (run_heap r)
                  in Some (Done (mass0, te0, mass, te)))))"

definition exit_status :: "'a result \<Rightarrow> int option" where
  "exit_status r = (case r of Done _ \<Rightarrow> Some 0 | Exited c \<Rightarrow> Some c | Failed _ \<Rightarrow> None)"

definition env_unknown :: env where
  "env_unknown = \<lparr>nx_glob = 1, nz_glob = 1, sim_time = 0, output_freq = - 1, data_spec_int = 4,
     nx = 0, nz = 0, i_beg = 0, k_beg = 0, myrank = 0,
     hy_dens_cell = (\<lambda>_. 0), hy_dens_theta_cell = (\<lambda>_. 0),
     hy_dens_int = (\<lambda>_. 0), hy_dens_theta_int = (\<lambda>_. 0), hy_pressure_int = (\<lambda>_. 0)\<rparr>"

lemma env_unknown_invalid: "\<not> valid_data_spec (data_spec_int env_unknown)"
  by (simp add: valid_data_spec_def env_unknown_def DATA_SPEC_COLLISION_def
      DATA_SPEC_THERMAL_def DATA_SPEC_GRAVITY_WAVES_def DATA_SPEC_DENSITY_CURRENT_def
      DATA_SPEC_INJECTION_def)

lemma main_no_steps:
  assumes "init e0 h0 s0 = (e, h, dt)" "sim_time e0 \<le> 0" "output_freq e0 < 0"
  shows "\<exists>d. main e0 h0 s0 nc = Some (Done d)"
proof -
  have p: "sim_time e = sim_time e0" "output_freq e = output_freq e0"
    using assms(1) by (auto simp: init_def Let_def case_prod_beta)
  show ?thesis
    using assms(2,3)
    by (simp add: main_def assms(1) p time_loop.simps case_prod_beta)
qed

lemma output_state_exit:
  "output_state nc n = Exited c \<Longrightarrow> c = - 1 \<and> (\<exists>n. \<not> nc n)"
  by (auto simp: output_state_def split: if_splits)

lemma output_state_not_failed: "output_state nc n \<noteq> Failed err"
  by (simp add: output_state_def)

lemma time_loop_exit:
  assumes "time_loop e nc r = Some (Exited c)"
  shows "c = - 1 \<and> (\<exists>n. \<not> nc n)"
proof -
  have "y = Exited c \<longrightarrow> c = - 1 \<and> (\<exists>n. \<not> nc n)" if "time_loop e nc r = Some y" for y
  proof (rule time_loop.raw_induct[where P = "\<lambda>e nc r y. y = Exited c \<longrightarrow> c = - 1 \<and> (\<exists>n. \<not> nc n)",
        OF _ that])
    fix f :: "env \<Rightarrow> (nat \<Rightarrow> bool) \<Rightarrow> run \<Rightarrow> run result option"
      and e :: env and nc :: "nat \<Rightarrow> bool" and r :: run and y :: "run result"
    let ?dt = "if run_etime r + run_dt r > sim_time e then sim_time e - run_etime r else run_dt r"
    assume ih: "\<And>e nc r y. f e nc r = Some y \<Longrightarrow> y = Exited c \<longrightarrow> c = - 1 \<and> (\<exists>n. \<not> nc n)"
      and body: "(if run_etime r < sim_time e then
       (let dt = (if run_etime r + run_dt r > sim_time e then sim_time e - run_etime r
                  else run_dt r)
        in case perform_timestep e State State_tmp Flux Tend dt (run_heap r, run_switch r) of
             Inl err \<Rightarrow> Some (Failed err)
           | Inr (h, ds) \<Rightarrow>
               (let etime = run_etime r + dt;
                    output_counter = run_output_counter r + dt
                in if output_freq e \<ge> 0 \<and> output_counter \<ge> output_freq e then
                     (case output_state nc (run_num_out r) of
                        Done n \<Rightarrow>
                          f e nc \<lparr>run_heap = h, run_switch = ds, run_dt = dt,
                            run_etime = etime,
                            run_output_counter = output_counter - output_freq e,
                            run_num_out = n\<rparr>
                      | Exited c \<Rightarrow> Some (Exited c)
                      | Failed err \<Rightarrow> Some (Failed err))
                   else
                     f e nc \<lparr>run_heap = h, run_switch = ds, run_dt = dt,
                       run_etime = etime, run_output_counter = output_counter,
                       run_num_out = run_num_out r\<rparr>))
     else Some (Done r)) = Some y"
    show "y = Exited c \<longrightarrow> c = - 1 \<and> (\<exists>n. \<not> nc n)"
    proof (cases "run_etime r < sim_time e")
      case False
      with body show ?thesis by auto
    next
      case True
      show ?thesis
      proof (cases "perform_timestep e State State_tmp Flux Tend ?dt (run_heap r, run_switch r)")
        case (Inl err)
        with True body show ?thesis by (auto simp: Let_def)
      next
        case (Inr s)
        obtain h ds where s: "s = (h, ds)" by (cases s)
        show ?thesis
        proof (cases "output_freq e \<ge> 0 \<and> run_output_counter r + ?dt \<ge> output_freq e")
          case out: True
          show ?thesis
          proof (cases "output_state nc (run_num_out r)")
            case (Done n)
            with True Inr s out body show ?thesis
              by (auto simp: Let_def dest: ih)
          next
            case (Exited c')
            with True Inr s out body output_state_exit[OF Exited] show ?thesis
              by (auto simp: Let_def)
          next
            case (Failed err)
            then show ?thesis by (simp add: output_state_not_failed)
          qed
        next
          case False
          with True Inr s body show ?thesis
            by (auto simp: Let_def dest: ih)
        qed
      qed
    qed
  qed
  with assms show ?thesis by simp
qed

lemma main_exit:
  assumes "main e0 h0 s0 nc = Some (Exited c)"
  shows "c = - 1 \<and> (\<exists>n. \<not> nc n)"
proof -
  obtain e h dt where i: "init e0 h0 s0 = (e, h, dt)" by (cases "init e0 h0 s0") auto
  show ?thesis
  proof (cases "if output_freq e \<ge> 0 then output_state nc 0 else Done 0")
    case (Exited c')
    with assms i have "c' = c" by (simp add: main_def case_prod_beta)
    moreover from Exited have "output_state nc 0 = Exited c'" by (simp split: if_splits)
    ultimately show ?thesis using output_state_exit by blast
  next
    case (Failed err)
    with assms i show ?thesis by (simp add: main_def case_prod_beta)
  next
    case (Done n)
    let ?r = "\<lparr>run_heap = h, run_switch = 1, run_dt = dt, run_etime = 0,
                run_output_counter = 0, run_num_out = n\<rparr>"
    from assms i Done have "time_loop e nc ?r = Some (Exited c)"
      by (auto simp: main_def case_prod_beta split: option.splits result.splits)
    then show ?thesis by (rule time_loop_exit)
  qed
qed

lemma init_unknown_hy_dens_cell:
  assumes "\<not> valid_data_spec (data_spec_int e0)" "k < nz_glob e0 + 2 * hs"
  shows "hy_dens_cell (fst (init e0 h0 s0)) k = (\<Sum>kk<nqpoints. smp_hr s0 * qweights kk)"
proof -
  obtain e h dt where i: "init e0 h0 s0 = (e, h, dt)" by (cases "init e0 h0 s0") auto
  note r = init_result[OF i]
  have k: "k < nz e + 2 * hs" using assms(2) r by simp
  have d: "\<not> valid_data_spec (data_spec_int e)" using assms(1) r by simp
  show ?thesis
    using init_hy_dens_cell(1)[OF i k] by (simp add: i scenario_invalid[OF d])
qed

text \<open>
  Claim C8, amended. The program validates no configuration parameter. When
  \<^verbatim>\<open>data_spec_int\<close> is none of the five scenarios, \<^verbatim>\<open>init\<close> returns as for any other
  value, having called no scenario function: every background cell density is the
  uninitialised local \<^verbatim>\<open>hr\<close> times the sum of the weights. The run goes on, and the only
  exit status other than 0 it can end with is the \<open>-1\<close> of \<^verbatim>\<open>ncwrap\<close>, when a NetCDF call of
  an output fails. (The locals and the allocated memory are taken to hold finite values.
  \<open>unknown_data_spec_is_not_rejected\<close> is a run with \<^verbatim>\<open>data_spec_int = 4\<close> that returns.)
\<close>

theorem unknown_data_spec_runs_on:
  assumes "\<not> valid_data_spec (data_spec_int e0)"
  shows "(\<forall>k<nz_glob e0 + 2 * hs.
            hy_dens_cell (fst (init e0 h0 s0)) k = (\<Sum>kk<nqpoints. smp_hr s0 * qweights kk))
       \<and> (\<forall>c. main e0 h0 s0 nc = Some (Exited c) \<longrightarrow> c = - 1 \<and> (\<exists>n. \<not> nc n))"
  using init_unknown_hy_dens_cell[OF assms] main_exit by blast

theorem unknown_data_spec_runs_on_witness:
  "\<not> valid_data_spec (data_spec_int (env_unknown\<lparr>output_freq := 0\<rparr>))
   \<and> hs < nz_glob (env_unknown\<lparr>output_freq := 0\<rparr>) + 2 * hs
   \<and> hy_dens_cell (fst (init (env_unknown\<lparr>output_freq := 0\<rparr>) (\<lambda>_. 0) locals_zero)) hs
        = (\<Sum>kk<nqpoints. smp_hr locals_zero * qweights kk)
   \<and> main (env_unknown\<lparr>output_freq := 0\<rparr>) (\<lambda>_. 0) locals_zero (\<lambda>_. False) = Some (Exited (- 1))
   \<and> (- 1 :: int) = - 1 \<and> (\<exists>n. \<not> (\<lambda>_. False) (n :: nat))"
proof -
  let ?e = "env_unknown\<lparr>output_freq := 0\<rparr>"
  have nv: "\<not> valid_data_spec (data_spec_int ?e)" using env_unknown_invalid by simp
  have k: "hs < nz_glob ?e + 2 * hs" by (simp add: hs_def)
  obtain e h dt where i: "init ?e (\<lambda>_. 0) locals_zero = (e, h, dt)"
    by (cases "init ?e (\<lambda>_. 0) locals_zero") auto
  have "output_freq e = 0" using i by (auto simp: init_def Let_def case_prod_beta)
  then have m: "main ?e (\<lambda>_. 0) locals_zero (\<lambda>_. False) = Some (Exited (- 1))"
    by (simp add: main_def i case_prod_beta output_state_def)
  from unknown_data_spec_runs_on[OF nv, of "\<lambda>_. 0" locals_zero "\<lambda>_. False"] nv k m
  show ?thesis by simp
qed

theorem unknown_data_spec_is_not_rejected:
  "\<not> valid_data_spec (data_spec_int env_unknown) \<and>
   (\<forall>h0 s0 nc. (\<exists>d. main env_unknown h0 s0 nc = Some (Done d))
      \<and> map_option exit_status (main env_unknown h0 s0 nc) = Some (Some 0))"
proof -
  have "(\<exists>d. main env_unknown h0 s0 nc = Some (Done d))
      \<and> map_option exit_status (main env_unknown h0 s0 nc) = Some (Some 0)" for h0 s0 nc
  proof -
    obtain e h dt where i: "init env_unknown h0 s0 = (e, h, dt)"
      by (cases "init env_unknown h0 s0") auto
    have "\<exists>d. main env_unknown h0 s0 nc = Some (Done d)"
      by (rule main_no_steps[OF i]) (simp_all add: env_unknown_def)
    then show ?thesis by (auto simp: exit_status_def)
  qed
  with env_unknown_invalid show ?thesis by blast
qed

end
